theory Spec2Isabelle
  imports Complex_Main "HOL-Library.Word" "HOL-Library.Log_Nat"
begin

section \<open>Machine integers, options and the grid offset\<close>

text \<open>
  The C++ type \<open>int\<close> is a 32-bit two's complement integer: \<open>+\<close> on \<open>cint\<close>
  wraps around and \<open>sint\<close> reads the signed value.
\<close>

type_synonym cint = "32 word"

record GridOffset =
  offsetX :: cint
  offsetY :: cint

record ProgramOptions =
  batchMode :: bool
  silentMode :: bool
  inputFiles :: "string list"
  conversionType :: cint

text \<open>\<open>getGridOffset\<close> (ab_coord_processor.cpp): 1 selects \<open>{7, 6}\<close>, everything
  else \<open>{-7, -6}\<close>.\<close>

definition getGridOffset :: "cint \<Rightarrow> GridOffset" where
  "getGridOffset ct =
     (if ct = 1 then \<lparr>offsetX = 7, offsetY = 6\<rparr>
      else \<lparr>offsetX = - 7, offsetY = - 6\<rparr>)"

section \<open>The reference dataset and the coordinate validator\<close>

text \<open>
  Modelled from the spec: the class \<open>Database\<close> (ab_database.h) and the SQLite library
  behind it are not part of the sources.  The spec gives the dataset the semantics
  \<open>contains(gx, gy) -> bool\<close> over a fixed table of cell indices and names one failure,
  the preparation of the query.  A database is therefore the list of the rows
  \<open>(BM_Grid_X, BM_Grid_Y)\<close> of the table, a flag telling whether \<open>sqlite3_prepare_v2\<close>
  returns \<open>SQLITE_OK\<close>, and the text \<open>sqlite3_errmsg\<close> gives.
\<close>

record Database =
  prepare_ok :: bool
  errmsg :: string
  table_rows :: "(int \<times> int) list"

text \<open>The prepared query \<open>SELECT ... WHERE BM_Grid_X = ? AND BM_Grid_Y = ?\<close> stepped
  once: \<open>SQLITE_ROW\<close> exactly when a row with both bound values exists.\<close>

definition step_is_row :: "Database \<Rightarrow> cint \<Rightarrow> cint \<Rightarrow> bool" where
  "step_is_row db qx qy = ((sint qx, sint qy) \<in> set (table_rows db))"

text \<open>
  \<open>isCoordinateValid\<close> (ab_coord_processor.cpp).  The result is the returned boolean
  together with the lines written to \<open>std::cerr\<close>.
\<close>

definition isCoordinateValid ::
  "Database \<Rightarrow> cint \<Rightarrow> cint \<Rightarrow> (cint \<times> cint) set \<Rightarrow> ProgramOptions \<Rightarrow> bool \<times> string list"
where
  "isCoordinateValid db gridX gridY customCoordinates options =
     (let offset = getGridOffset (conversionType options);
          adjustedGridX = (if conversionType options = 2 then gridX + offsetX offset else gridX);
          adjustedGridY = (if conversionType options = 2 then gridY + offsetY offset else gridY)
      in if \<not> prepare_ok db
         then (False, [''Error preparing database query: '' @ errmsg db])
         else if step_is_row db adjustedGridX adjustedGridY then (True, [])
         else if (gridX, gridY) \<in> customCoordinates then (True, [])
         else (False, []))"

text \<open>The cell the dataset is probed with, as the claim words it.\<close>

definition probeCell :: "cint \<Rightarrow> cint \<times> cint \<Rightarrow> cint \<times> cint" where
  "probeCell ct c = (if ct = 2 then (fst c + (- 7), snd c + (- 6)) else c)"

definition sampleDb :: Database where
  "sampleDb = \<lparr>prepare_ok = True, errmsg = ''not an error'', table_rows = [(10, 4), (0, 0)]\<rparr>"

definition brokenDb :: Database where
  "brokenDb = \<lparr>prepare_ok = False, errmsg = ''no such table: tes3_ab_cell_x-y_data'',
                table_rows = [(10, 4), (0, 0)]\<rparr>"

definition forwardOptions :: ProgramOptions where
  "forwardOptions = \<lparr>batchMode = False, silentMode = True, inputFiles = [], conversionType = 1\<rparr>"

definition reverseOptions :: ProgramOptions where
  "reverseOptions = \<lparr>batchMode = False, silentMode = True, inputFiles = [], conversionType = 2\<rparr>"

section \<open>Floating-point numbers\<close>

text \<open>
  A \<open>double\<close> is an IEEE 754 binary64 number.  The finite ones are the reals
  \<open>m * 2\<^sup>e\<close> with \<open>\<bar>m\<bar> < 2\<^sup>5\<^sup>3\<close> and \<open>- 1074 \<le> e\<close>; the value of an operation is the
  exact result rounded to the nearest of them, a tie to the one with the even \<open>m\<close>.
  \<open>exponent_of a\<close> is the binary exponent \<open>\<lfloor>log\<^sub>2 a\<rfloor>\<close> of a positive number.  No
  operation of the passes overflows: a coordinate is a finite double and the offsets
  added to it are below \<open>2\<^sup>4\<^sup>4\<close>.
\<close>

definition round_half_even :: "real \<Rightarrow> int" where
  "round_half_even x =
     (let f = \<lfloor>x\<rfloor>; d = x - real_of_int f
      in if d < 1 / 2 then f else if 1 / 2 < d then f + 1 else if even f then f else f + 1)"

definition pow2 :: "int \<Rightarrow> real" where
  "pow2 e = (if 0 \<le> e then 2 ^ nat e else 1 / 2 ^ nat (- e))"

definition exponent_of :: "real \<Rightarrow> int" where
  "exponent_of a = (if 1 \<le> a then bitlen \<lfloor>a\<rfloor> - 1 else - bitlen (\<lceil>1 / a\<rceil> - 1))"

definition round_to_double :: "real \<Rightarrow> real" where
  "round_to_double x =
     (if x = 0 then 0
      else let e = max (exponent_of \<bar>x\<bar>) (- 1022) - 52
           in sgn x * (real_of_int (round_half_even (\<bar>x\<bar> / pow2 e)) * pow2 e))"

text \<open>
  A double has a sign bit, which tells two zeros apart.  The sign of a zero shows in one
  place only, a number that \<open>std::stod\<close> has read and a stream prints, so a \<open>double\<close>
  with its sign bit is used there and the value alone everywhere else.  A translated
  coordinate has the sign of its value and is \<open>+0.0\<close> when the value is zero: the sum
  and the difference of two doubles that are not both zero are so, and for the
  coordinate \<open>-0.0\<close>, of cell 0, the difference \<open>-0.0 - 0.0\<close> is \<open>-0.0\<close>, which added to
  the product \<open>newGrid * 8192.0\<close> gives the product, \<open>+0.0\<close> if \<open>newGrid\<close> is 0.
\<close>

record double =
  negative :: bool
  magnitude :: real

definition value_of :: "double \<Rightarrow> real" where
  "value_of d = (if negative d then - magnitude d else magnitude d)"

definition double_of :: "real \<Rightarrow> double" where
  "double_of r = \<lparr>negative = r < 0, magnitude = \<bar>r\<bar>\<rparr>"

section \<open>Documents: the JSON tree\<close>

text \<open>
  The decoded plugin is an \<open>ordered_json\<close> value of the nlohmann library: an object keeps
  its members in insertion order, a number is an integer or a floating-point value, here
  the number written in the document.  \<open>get<double>()\<close> yields the double next to it.
  The library raises \<open>type_error\<close> exceptions, identified by their number (302: a value
  has not the type asked for, 305: \<open>operator[]\<close> on the wrong type, 306: \<open>value()\<close> on
  a non-object); \<open>std::stod\<close> raises \<open>std::out_of_range\<close>.
\<close>

datatype json =
    JNull
  | JBool bool
  | JInt int
  | JFloat real
  | JString string
  | JArray "json list"
  | JObject "(string \<times> json) list"

datatype error = type_error nat | out_of_range

definition bindE :: "error + 'a \<Rightarrow> ('a \<Rightarrow> error + 'b) \<Rightarrow> error + 'b" where
  "bindE m f = (case m of Inl e \<Rightarrow> Inl e | Inr x \<Rightarrow> f x)"

definition contains :: "json \<Rightarrow> string \<Rightarrow> bool" where
  "contains j k = (case j of JObject kvs \<Rightarrow> map_of kvs k \<noteq> None | _ \<Rightarrow> False)"

text \<open>\<open>j[k]\<close> for a key.  Every use in the sources is guarded by \<open>contains\<close> on the
  same value, so the member exists.\<close>

definition field_of :: "json \<Rightarrow> string \<Rightarrow> json" where
  "field_of j k = (case j of JObject kvs \<Rightarrow> (case map_of kvs k of Some v \<Rightarrow> v | None \<Rightarrow> JNull)
             | _ \<Rightarrow> JNull)"

fun assign :: "string \<Rightarrow> json \<Rightarrow> (string \<times> json) list \<Rightarrow> (string \<times> json) list" where
  "assign k v [] = [(k, v)]"
| "assign k v (p # kvs) = (if fst p = k then (k, v) # kvs else p # assign k v kvs)"

text \<open>\<open>j[k] = v\<close> for a key, again only used under \<open>contains\<close>.\<close>

definition set_field :: "json \<Rightarrow> string \<Rightarrow> json \<Rightarrow> json" where
  "set_field j k v = (case j of JObject kvs \<Rightarrow> JObject (assign k v kvs) | _ \<Rightarrow> j)"

definition is_array :: "json \<Rightarrow> bool" where
  "is_array j = (case j of JArray _ \<Rightarrow> True | _ \<Rightarrow> False)"

definition elements :: "json \<Rightarrow> json list" where
  "elements j = (case j of JArray xs \<Rightarrow> xs | _ \<Rightarrow> [])"

text \<open>\<open>a[i]\<close> read on a non-const array: an index past the end fills the array with
  nulls and yields null, on which every \<open>get\<close> below raises.\<close>

definition element_at :: "json list \<Rightarrow> nat \<Rightarrow> json" where
  "element_at xs i = (if i < length xs then xs ! i else JNull)"

definition get_double :: "json \<Rightarrow> error + real" where
  "get_double j = (case j of JInt i \<Rightarrow> Inr (round_to_double (real_of_int i))
                   | JFloat r \<Rightarrow> Inr (round_to_double r)
                   | _ \<Rightarrow> Inl (type_error 302))"

text \<open>\<open>static_cast<int>\<close> of a double truncates towards zero.\<close>

definition truncate :: "real \<Rightarrow> int" where
  "truncate r = (if 0 \<le> r then \<lfloor>r\<rfloor> else \<lceil>r\<rceil>)"

definition get_int :: "json \<Rightarrow> error + cint" where
  "get_int j = (case j of JInt i \<Rightarrow> Inr (of_int i) | JFloat r \<Rightarrow> Inr (of_int (truncate r))
                | JBool b \<Rightarrow> Inr (if b then 1 else 0)
                | _ \<Rightarrow> Inl (type_error 302))"

definition get_bool :: "json \<Rightarrow> error + bool" where
  "get_bool j = (case j of JBool b \<Rightarrow> Inr b | _ \<Rightarrow> Inl (type_error 302))"

definition get_string :: "json \<Rightarrow> error + string" where
  "get_string j = (case j of JString s \<Rightarrow> Inr s | _ \<Rightarrow> Inl (type_error 302))"

text \<open>\<open>j.value(k, default)\<close> with a string default.\<close>

definition value_string :: "json \<Rightarrow> string \<Rightarrow> string \<Rightarrow> error + string" where
  "value_string j k d =
     (case j of
        JObject kvs \<Rightarrow> (case map_of kvs k of Some v \<Rightarrow> get_string v | None \<Rightarrow> Inr d)
      | _ \<Rightarrow> Inl (type_error 306))"

text \<open>A loop body that may raise, run over a list in order; the state is threaded
  through and the first exception ends the loop.\<close>

fun forEach :: "('a \<Rightarrow> 's \<Rightarrow> error + 'a \<times> 's) \<Rightarrow> 'a list \<Rightarrow> 's \<Rightarrow> error + 'a list \<times> 's" where
  "forEach f [] s = Inr ([], s)"
| "forEach f (x # xs) s =
     bindE (f x s) (\<lambda>(x', s').
     bindE (forEach f xs s') (\<lambda>(xs', s''). Inr (x' # xs', s'')))"

text \<open>\<open>for (auto& x : j)\<close>: the elements of an array, the member values of an object,
  nothing for null, the value itself for any other value.\<close>

definition forItems :: "(json \<Rightarrow> 's \<Rightarrow> error + json \<times> 's) \<Rightarrow> json \<Rightarrow> 's \<Rightarrow> error + json \<times> 's" where
  "forItems f j s =
     (case j of
        JArray xs \<Rightarrow> bindE (forEach f xs s) (\<lambda>(xs', s'). Inr (JArray xs', s'))
      | JObject kvs \<Rightarrow>
          bindE (forEach f (map snd kvs) s) (\<lambda>(vs', s'). Inr (JObject (zip (map fst kvs) vs'), s'))
      | JNull \<Rightarrow> Inr (JNull, s)
      | _ \<Rightarrow> f j s)"

section \<open>Translating a coordinate\<close>

text \<open>
  Every pass computes the cell of a coordinate as
  \<open>static_cast<int>(std::floor(dest / 8192.0))\<close> and the translated coordinate as
  \<open>(newGrid * 8192.0) + (dest - (grid * 8192.0))\<close> with \<open>newGrid = grid + offset\<close>.
  Outside the range of \<open>int\<close> the C++ conversion is undefined; the model wraps.
  \<open>gridOf\<close> and \<open>newDest\<close> are the two formulas over the reals.  In \<open>double\<close> the two
  products are exact for a cell in the range of \<open>int\<close>, and the division by \<open>8192.0\<close>
  is exact unless the quotient is subnormal, where it still has the sign of the
  coordinate, which is all the floor needs, as long as it is not rounded to zero (that
  takes a coordinate that is itself far below the least normal double, which
  \<open>std::stod\<close> does not return).  The difference and the sum are rounded, which
  \<open>newDestDouble\<close> adds.
\<close>

definition to_double :: "cint \<Rightarrow> real" where
  "to_double i = real_of_int (sint i)"

definition gridOf :: "real \<Rightarrow> cint" where
  "gridOf dest = of_int \<lfloor>dest / 8192\<rfloor>"

definition newDest :: "cint \<Rightarrow> real \<Rightarrow> real" where
  "newDest off dest =
     (let grid = gridOf dest; newGrid = grid + off
      in (to_double newGrid * 8192) + (dest - (to_double grid * 8192)))"

definition newDestDouble :: "cint \<Rightarrow> real \<Rightarrow> real" where
  "newDestDouble off dest =
     (let grid = gridOf dest; newGrid = grid + off
      in round_to_double
           ((to_double newGrid * 8192) + round_to_double (dest - (to_double grid * 8192))))"





text \<open>No conversion to \<open>int\<close> and no addition overflows for this coordinate and offset.\<close>

definition in_int_range :: "int \<Rightarrow> bool" where
  "in_int_range k = (- (2 ^ 31) \<le> k \<and> k < 2 ^ 31)"

definition defined_for :: "GridOffset \<Rightarrow> real \<times> real \<Rightarrow> bool" where
  "defined_for offset p =
     (in_int_range \<lfloor>fst p / 8192\<rfloor> \<and> in_int_range (\<lfloor>fst p / 8192\<rfloor> + sint (offsetX offset)) \<and>
      in_int_range \<lfloor>snd p / 8192\<rfloor> \<and> in_int_range (\<lfloor>snd p / 8192\<rfloor> + sint (offsetY offset)))"

text \<open>\<open>processNpcTravelDestinations\<close> (ab_data_processor.cpp), loop bodies first.\<close>

definition npcDestination ::
  "Database \<Rightarrow> GridOffset \<Rightarrow> (cint \<times> cint) set \<Rightarrow> ProgramOptions \<Rightarrow> json \<Rightarrow> cint \<Rightarrow> error + json \<times> cint"
where
  "npcDestination db offset custom options destination flag =
     (if contains destination ''translation'' \<and> is_array (field_of destination ''translation'')
      then
        (let tr = elements (field_of destination ''translation'') in
         bindE (get_double (element_at tr 0)) (\<lambda>destX.
         bindE (get_double (element_at tr 1)) (\<lambda>destY.
           if fst (isCoordinateValid db (gridOf destX) (gridOf destY) custom options)
           then Inr (set_field destination ''translation''
                       (JArray (tr[0 := JFloat (newDestDouble (offsetX offset) destX),
                                   1 := JFloat (newDestDouble (offsetY offset) destY)])), 1)
           else Inr (destination, flag))))
      else Inr (destination, flag))"

definition npcRecord ::
  "Database \<Rightarrow> GridOffset \<Rightarrow> (cint \<times> cint) set \<Rightarrow> ProgramOptions \<Rightarrow> json \<Rightarrow> cint \<Rightarrow> error + json \<times> cint"
where
  "npcRecord db offset custom options npc flag =
     (if contains npc ''type'' \<and> field_of npc ''type'' = JString ''Npc'' \<and>
         contains npc ''travel_destinations'' \<and> is_array (field_of npc ''travel_destinations'')
      then bindE (forEach (npcDestination db offset custom options)
                    (elements (field_of npc ''travel_destinations'')) flag)
             (\<lambda>(ds, flag'). Inr (set_field npc ''travel_destinations'' (JArray ds), flag'))
      else Inr (npc, flag))"

definition processNpcTravelDestinations ::
  "Database \<Rightarrow> json \<Rightarrow> GridOffset \<Rightarrow> cint \<Rightarrow> (cint \<times> cint) set \<Rightarrow> ProgramOptions \<Rightarrow> error + json \<times> cint"
where
  "processNpcTravelDestinations db inputData offset replacementsFlag custom options =
     forItems (npcRecord db offset custom options) inputData replacementsFlag"

section \<open>Grid fields and the references of a cell\<close>

text \<open>\<open>processTranslation\<close> (ab_data_processor.cpp): the body of its loop for one
  reference, then the function.  The product \<open>offset.offsetX * 8192\<close> is an \<open>int\<close>
  product, converted to \<open>double\<close> by the addition, whose result is rounded and stored
  as a floating-point number.  The log lines are not part of the
  model, the exceptions raised while a line is put together are.\<close>

definition translateReference ::
  "GridOffset \<Rightarrow> ProgramOptions \<Rightarrow> json \<Rightarrow> cint \<Rightarrow> error + json \<times> cint"
where
  "translateReference offset options reference flag =
     bindE (if contains reference ''deleted'' then get_bool (field_of reference ''deleted'')
            else Inr False) (\<lambda>deleted.
     if deleted then Inr (reference, flag)
     else if contains reference ''temporary'' \<and> contains reference ''translation'' \<and>
             is_array (field_of reference ''translation'') \<and>
             2 \<le> length (elements (field_of reference ''translation''))
     then
       bindE (if \<not> silentMode options then value_string reference ''id'' ''Unknown ID''
              else Inr []) (\<lambda>_.
       let tr = elements (field_of reference ''translation'') in
       bindE (get_double (element_at tr 0)) (\<lambda>originalX.
       bindE (get_double (element_at tr 1)) (\<lambda>originalY.
         Inr (set_field reference ''translation''
                (JArray (tr[0 := JFloat (round_to_double
                                           (originalX + to_double (offsetX offset * 8192))),
                            1 := JFloat (round_to_double
                                           (originalY + to_double (offsetY offset * 8192)))])),
              1))))
     else
       bindE (if \<not> silentMode options then value_string reference ''id'' ''Unknown ID''
              else Inr []) (\<lambda>_. Inr (reference, flag)))"

definition processTranslation ::
  "json \<Rightarrow> GridOffset \<Rightarrow> cint \<Rightarrow> ProgramOptions \<Rightarrow> error + json \<times> cint"
where
  "processTranslation jsonData offset replacementsFlag options =
     (if \<not> contains jsonData ''references'' \<or> \<not> is_array (field_of jsonData ''references'')
      then Inr (jsonData, replacementsFlag)
      else bindE (forEach (translateReference offset options)
                    (elements (field_of jsonData ''references'')) replacementsFlag)
             (\<lambda>(refs, flag'). Inr (set_field jsonData ''references'' (JArray refs), flag')))"

text \<open>\<open>processGridValues\<close> (ab_data_processor.cpp): the body of its loop for one
  record, then the function.\<close>

definition readGrid :: "json list \<Rightarrow> error + cint \<times> cint" where
  "readGrid g =
     bindE (get_int (element_at g 0)) (\<lambda>gridX.
     bindE (get_int (element_at g 1)) (\<lambda>gridY. Inr (gridX, gridY)))"

definition writeGrid :: "json list \<Rightarrow> cint \<Rightarrow> cint \<Rightarrow> json" where
  "writeGrid g newGridX newGridY = JArray (g[0 := JInt (sint newGridX), 1 := JInt (sint newGridY)])"

definition gridRecord ::
  "Database \<Rightarrow> GridOffset \<Rightarrow> (cint \<times> cint) set \<Rightarrow> ProgramOptions \<Rightarrow> json \<Rightarrow> cint \<Rightarrow> error + json \<times> cint"
where
  "gridRecord db offset custom options item flag =
     (if \<not> contains item ''type'' then Inr (item, flag)
      else
        bindE (get_string (field_of item ''type'')) (\<lambda>typeName.
        if typeName \<notin> set [''Cell'', ''Landscape'', ''PathGrid''] then Inr (item, flag)
        else
          let hasTopLevelGrid = (contains item ''grid'' \<and> is_array (field_of item ''grid''));
              hasDataGrid = (contains item ''data'' \<and> contains (field_of item ''data'') ''grid'' \<and>
                             is_array (field_of (field_of item ''data'') ''grid''))
          in
          if \<not> hasTopLevelGrid \<and> \<not> hasDataGrid then Inr (item, flag)
          else
            bindE (if hasTopLevelGrid then readGrid (elements (field_of item ''grid''))
                   else readGrid (elements (field_of (field_of item ''data'') ''grid'')))
              (\<lambda>(gridX, gridY).
            if fst (isCoordinateValid db gridX gridY custom options)
            then
              let newGridX = gridX + offsetX offset;
                  newGridY = gridY + offsetY offset;
                  item' =
                    (if hasTopLevelGrid
                     then set_field item ''grid''
                            (writeGrid (elements (field_of item ''grid'')) newGridX newGridY)
                     else set_field item ''data''
                            (set_field (field_of item ''data'') ''grid''
                               (writeGrid (elements (field_of (field_of item ''data'') ''grid''))
                                  newGridX newGridY)))
              in
              bindE (if typeName = ''Cell'' then processTranslation item' offset flag options
                     else Inr (item', flag))
                (\<lambda>(item'', flag'). Inr (item'', 1))
            else Inr (item, flag))))"

definition processGridValues ::
  "Database \<Rightarrow> json \<Rightarrow> GridOffset \<Rightarrow> cint \<Rightarrow> (cint \<times> cint) set \<Rightarrow> ProgramOptions \<Rightarrow> error + json \<times> cint"
where
  "processGridValues db inputData offset replacementsFlag custom options =
     forItems (gridRecord db offset custom options) inputData replacementsFlag"

text \<open>The words of the claims about references, as predicates on a reference.\<close>

definition marked_deleted :: "json \<Rightarrow> bool" where
  "marked_deleted r = (contains r ''deleted'' \<and> field_of r ''deleted'' = JBool True)"

definition is_number :: "json \<Rightarrow> bool" where
  "is_number j = (case j of JInt _ \<Rightarrow> True | JFloat _ \<Rightarrow> True | _ \<Rightarrow> False)"

definition number_of :: "json \<Rightarrow> real" where
  "number_of j = (case j of JInt i \<Rightarrow> round_to_double (real_of_int i)
                  | JFloat r \<Rightarrow> round_to_double r | _ \<Rightarrow> 0)"

definition has_translation_pair :: "json \<Rightarrow> bool" where
  "has_translation_pair r =
     (contains r ''temporary'' \<and> contains r ''translation'' \<and>
      is_array (field_of r ''translation'') \<and>
      2 \<le> length (elements (field_of r ''translation'')))"

definition eligible :: "json \<Rightarrow> bool" where
  "eligible r =
     (\<not> marked_deleted r \<and> has_translation_pair r \<and>
      is_number (elements (field_of r ''translation'') ! 0) \<and>
      is_number (elements (field_of r ''translation'') ! 1))"

definition shifted :: "GridOffset \<Rightarrow> json \<Rightarrow> json" where
  "shifted offset r =
     (let tr = elements (field_of r ''translation'')
      in set_field r ''translation''
           (JArray (tr[0 := JFloat (round_to_double
                                      (number_of (tr ! 0) + to_double (offsetX offset * 8192))),
                       1 := JFloat (round_to_double
                                      (number_of (tr ! 1) + to_double (offsetY offset * 8192)))])))"

text \<open>A reference of the shape the decoder writes: \<open>deleted\<close>, if present, is a boolean;
  \<open>id\<close>, if present, is a string; a reference is an object; the first two components of
  a translation are numbers.  On such references no exception is raised.\<close>

definition id_is_string :: "json \<Rightarrow> bool" where
  "id_is_string r = (case r of JObject kvs \<Rightarrow>
       (case map_of kvs ''id'' of None \<Rightarrow> True | Some (JString _) \<Rightarrow> True | Some _ \<Rightarrow> False)
     | _ \<Rightarrow> False)"

definition deleted_is_bool :: "json \<Rightarrow> bool" where
  "deleted_is_bool r =
     (if contains r ''deleted'' then (case field_of r ''deleted'' of JBool _ \<Rightarrow> True | _ \<Rightarrow> False)
      else True)"

definition well_formed_reference :: "json \<Rightarrow> bool" where
  "well_formed_reference r =
     (id_is_string r \<and> deleted_is_bool r \<and>
      (if has_translation_pair r
       then is_number (elements (field_of r ''translation'') ! 0) \<and>
            is_number (elements (field_of r ''translation'') ! 1)
       else True))"

text \<open>A cell record with a grid at both places and three references.\<close>

definition barrelRef :: json where
  "barrelRef = JObject [(''id'', JString ''barrel''), (''temporary'', JString ''a1''),
                        (''translation'', JArray [JFloat 83000, JInt 33500, JFloat 12])]"

definition deletedRef :: json where
  "deletedRef = JObject [(''id'', JString ''crate''), (''deleted'', JBool True),
                         (''temporary'', JString ''a2''),
                         (''translation'', JArray [JInt 1, JInt 2, JInt 3])]"

definition plainRef :: json where
  "plainRef = JObject [(''id'', JString ''door'')]"

definition sampleCell :: json where
  "sampleCell = JObject [(''type'', JString ''Cell''),
                         (''grid'', JArray [JInt 10, JInt 4]),
                         (''data'', JObject [(''grid'', JArray [JInt 3, JInt 3])]),
                         (''references'', JArray [barrelRef, deletedRef, plainRef])]"

definition movedCell :: json where
  "movedCell = JObject [(''type'', JString ''Cell''),
                        (''grid'', JArray [JInt 17, JInt 10]),
                        (''data'', JObject [(''grid'', JArray [JInt 3, JInt 3])]),
                        (''references'', JArray
                           [JObject [(''id'', JString ''barrel''), (''temporary'', JString ''a1''),
                                     (''translation'', JArray [JFloat 140344, JFloat 82652, JFloat 12])],
                            deletedRef, plainRef])]"

section \<open>The dependency order of the master files\<close>

text \<open>Reading a constant document: iteration, \<open>size()\<close> and \<open>j[i]\<close> of the library.
  \<open>j[i]\<close> on a constant value that is not an array raises \<open>type_error\<close> 305.\<close>

definition iterate :: "json \<Rightarrow> json list" where
  "iterate j = (case j of JArray xs \<Rightarrow> xs | JObject kvs \<Rightarrow> map snd kvs | JNull \<Rightarrow> [] | _ \<Rightarrow> [j])"

definition size_of :: "json \<Rightarrow> nat" where
  "size_of j = (case j of JArray xs \<Rightarrow> length xs | JObject kvs \<Rightarrow> length kvs | JNull \<Rightarrow> 0 | _ \<Rightarrow> 1)"

definition const_index :: "json \<Rightarrow> nat \<Rightarrow> error + json" where
  "const_index j i = (case j of JArray xs \<Rightarrow> Inr (xs ! i) | _ \<Rightarrow> Inl (type_error 305))"

record positions =
  mwPos :: "nat option"
  tPos :: "nat option"
  bPos :: "nat option"

text \<open>\<open>checkDependencyOrder\<close> (tes3_ab_converter.cpp): the body of the loop over the
  masters for the index \<open>i\<close>, the loop, and the function.  \<open>emplace\<close> replaces what an
  earlier entry of the same name stored.\<close>

definition masterStep :: "json \<Rightarrow> nat \<Rightarrow> positions \<Rightarrow> error + positions" where
  "masterStep masters i pos =
     bindE (const_index masters i) (\<lambda>m.
     if is_array m \<and> elements m \<noteq> []
     then bindE (get_string (elements m ! 0)) (\<lambda>masterName.
            Inr (if masterName = ''Morrowind.esm'' then pos\<lparr>mwPos := Some i\<rparr>
                 else if masterName = ''Tribunal.esm'' then pos\<lparr>tPos := Some i\<rparr>
                 else if masterName = ''Bloodmoon.esm'' then pos\<lparr>bPos := Some i\<rparr>
                 else pos))
     else Inr pos)"

fun scanMasters :: "json \<Rightarrow> nat list \<Rightarrow> positions \<Rightarrow> error + positions" where
  "scanMasters masters [] pos = Inr pos"
| "scanMasters masters (i # is) pos =
     bindE (masterStep masters i pos) (\<lambda>pos'. scanMasters masters is pos')"

definition is_header :: "json \<Rightarrow> bool" where
  "is_header item = (contains item ''type'' \<and> field_of item ''type'' = JString ''Header'')"

definition checkDependencyOrder :: "json \<Rightarrow> error + bool \<times> cint set" where
  "checkDependencyOrder inputData =
     (case find is_header (iterate inputData) of
        None \<Rightarrow> Inr (False, {})
      | Some header \<Rightarrow>
          if \<not> contains header ''masters'' then Inr (False, {})
          else
            let masters = field_of header ''masters'' in
            bindE (scanMasters masters [0..<size_of masters]
                     \<lparr>mwPos = None, tPos = None, bPos = None\<rparr>) (\<lambda>pos.
            case mwPos pos of
              None \<Rightarrow> Inr (False, {})
            | Some mw \<Rightarrow>
                (case (tPos pos, bPos pos) of
                   (Some t, Some b) \<Rightarrow> if t > mw \<and> b > t then Inr (True, {}) else Inr (False, {})
                 | (None, Some b) \<Rightarrow> if b > mw then Inr (True, {}) else Inr (False, {})
                 | _ \<Rightarrow> Inr (False, {}))))"

text \<open>The words of the claim about the masters.  An entry names a master when it is a
  non-empty array that starts with the name; the position of a master is the index of
  the last entry that names it (the only one in a list that names no master twice).\<close>

definition names_master :: "string \<Rightarrow> json \<Rightarrow> bool" where
  "names_master name m = (is_array m \<and> elements m \<noteq> [] \<and> elements m ! 0 = JString name)"

definition position_of :: "string \<Rightarrow> json list \<Rightarrow> nat option" where
  "position_of name ms =
     (case filter (\<lambda>i. names_master name (ms ! i)) (rev [0..<length ms]) of
        [] \<Rightarrow> None | i # _ \<Rightarrow> Some i)"

text \<open>The same among the first \<open>n\<close> entries, for the loop invariant.\<close>

definition position_upto :: "string \<Rightarrow> json list \<Rightarrow> nat \<Rightarrow> nat option" where
  "position_upto name ms n =
     (case filter (\<lambda>i. names_master name (ms ! i)) (rev [0..<n]) of
        [] \<Rightarrow> None | i # _ \<Rightarrow> Some i)"

definition dependency_order_ok :: "json list \<Rightarrow> bool" where
  "dependency_order_ok ms =
     (case position_of ''Morrowind.esm'' ms of
        None \<Rightarrow> False
      | Some mw \<Rightarrow>
          (case (position_of ''Tribunal.esm'' ms, position_of ''Bloodmoon.esm'' ms) of
             (Some t, Some b) \<Rightarrow> mw < t \<and> t < b
           | (None, Some b) \<Rightarrow> mw < b
           | (_, None) \<Rightarrow> False))"

text \<open>The entries on which the scan raises no exception: a non-empty array starts with
  a string.\<close>

definition well_formed_master :: "json \<Rightarrow> bool" where
  "well_formed_master m =
     (if is_array m \<and> elements m \<noteq> []
      then (case elements m ! 0 of JString _ \<Rightarrow> True | _ \<Rightarrow> False) else True)"

section \<open>Regular expressions\<close>

text \<open>
  The part of the ECMAScript grammar of \<open>std::regex\<close> that the nine patterns of the
  sources use, with the flag \<open>icase\<close>: atoms that match one character (a literal, \<open>\s\<close>,
  \<open>\S\<close>, \<open>\d\<close>, \<open>[^c]\<close>), the greedy \<open>*\<close> and \<open>+\<close> on an atom, the greedy \<open>?\<close>,
  sequence, alternative and the capturing group.  Matching is the backtracking search of
  the standard: alternatives in order, greedy quantifiers longest first, the first
  complete match wins.
\<close>

datatype atom = Lit char | Space | NonSpace | Digit | NotChar char

datatype regex =
    Eps
  | Atom atom
  | Star atom
  | Plus atom
  | Opt regex
  | Seq regex regex
  | Alt regex regex
  | Group nat regex

definition tolower :: "char \<Rightarrow> char" where
  "tolower c =
     (case map_of (zip ''ABCDEFGHIJKLMNOPQRSTUVWXYZ'' ''abcdefghijklmnopqrstuvwxyz'') c of
        Some l \<Rightarrow> l | None \<Rightarrow> c)"

definition isspace :: "char \<Rightarrow> bool" where
  "isspace c = (c \<in> set [CHR '' '', CHR 0x09, CHR 0x0A, CHR 0x0B, CHR 0x0C, CHR 0x0D])"

definition isdigit :: "char \<Rightarrow> bool" where
  "isdigit c = (c \<in> set ''0123456789'')"

fun accepts :: "atom \<Rightarrow> char \<Rightarrow> bool" where
  "accepts (Lit l) c = (tolower c = tolower l)"
| "accepts Space c = isspace c"
| "accepts NonSpace c = (\<not> isspace c)"
| "accepts Digit c = isdigit c"
| "accepts (NotChar l) c = (tolower c \<noteq> tolower l)"

type_synonym captures = "nat \<Rightarrow> string option"

text \<open>The matcher keeps what is still to be matched as a stack: patterns, and for an
  open group the mark that closes it, with the input the group started at.\<close>

datatype todo = Pat regex | Close nat string

fun todo_size :: "todo \<Rightarrow> nat" where
  "todo_size (Pat r) = size r"
| "todo_size (Close n s) = 0"

function match :: "todo list \<Rightarrow> string \<Rightarrow> captures \<Rightarrow> (string \<times> captures) option" where
  "match [] s caps = Some (s, caps)"
| "match (Close n s0 # ts) s caps = match ts s (caps(n \<mapsto> take (length s0 - length s) s0))"
| "match (Pat Eps # ts) s caps = match ts s caps"
| "match (Pat (Atom a) # ts) s caps =
     (case s of [] \<Rightarrow> None | c # cs \<Rightarrow> if accepts a c then match ts cs caps else None)"
| "match (Pat (Star a) # ts) s caps =
     (case s of
        [] \<Rightarrow> match ts s caps
      | c # cs \<Rightarrow>
          if accepts a c
          then (case match (Pat (Star a) # ts) cs caps of
                  Some res \<Rightarrow> Some res | None \<Rightarrow> match ts s caps)
          else match ts s caps)"
| "match (Pat (Plus a) # ts) s caps =
     (case s of [] \<Rightarrow> None
      | c # cs \<Rightarrow> if accepts a c then match (Pat (Star a) # ts) cs caps else None)"
| "match (Pat (Opt r) # ts) s caps =
     (case match (Pat r # ts) s caps of Some res \<Rightarrow> Some res | None \<Rightarrow> match ts s caps)"
| "match (Pat (Seq r1 r2) # ts) s caps = match (Pat r1 # Pat r2 # ts) s caps"
| "match (Pat (Alt r1 r2) # ts) s caps =
     (case match (Pat r1 # ts) s caps of
        Some res \<Rightarrow> Some res | None \<Rightarrow> match (Pat r2 # ts) s caps)"
| "match (Pat (Group n r) # ts) s caps = match (Pat r # Close n s # ts) s caps"
  by pat_completeness auto
termination
  by (relation "measures [\<lambda>(ts, s, caps). 2 * sum_list (map todo_size ts) + length ts,
                          \<lambda>(ts, s, caps). length s]") auto

text \<open>The result of \<open>std::regex_search\<close>: the text before the match
  (\<open>match.prefix()\<close>, of length \<open>match.position()\<close>), the match (\<open>match.str()\<close>), its
  groups, and the text after it (\<open>match.suffix()\<close>).\<close>

record smatch =
  prefix_of :: string
  str :: string
  groups :: captures
  suffix_of :: string

definition match_here :: "regex \<Rightarrow> string \<Rightarrow> smatch option" where
  "match_here r s =
     (case match [Pat r] s (\<lambda>_. None) of
        None \<Rightarrow> None
      | Some (s', caps) \<Rightarrow>
          Some \<lparr>prefix_of = [], str = take (length s - length s') s,
                groups = caps, suffix_of = s'\<rparr>)"

fun regex_search :: "regex \<Rightarrow> string \<Rightarrow> smatch option" where
  "regex_search r [] = match_here r []"
| "regex_search r (c # cs) =
     (case match_here r (c # cs) of
        Some m \<Rightarrow> Some m
      | None \<Rightarrow> (case regex_search r cs of
                   None \<Rightarrow> None
                 | Some m \<Rightarrow> Some (m\<lparr>prefix_of := c # prefix_of m\<rparr>)))"

text \<open>\<open>match[n].str()\<close>: the empty string for a group that took no part in the match.\<close>

definition sub :: "smatch \<Rightarrow> nat \<Rightarrow> string" where
  "sub m n = (case groups m n of Some s \<Rightarrow> s | None \<Rightarrow> [])"

text \<open>Building the patterns: a literal word, a sequence.\<close>

definition word :: "string \<Rightarrow> regex" where
  "word w = foldr (\<lambda>c r. Seq (Atom (Lit c)) r) w Eps"

definition seq :: "regex list \<Rightarrow> regex" where
  "seq rs = foldr Seq rs Eps"

text \<open>The pieces the nine patterns are made of:
  \<open>\s*,?\s*\<close>, \<open>(?:\"[^\"]+\")|\S+\<close>, \<open>-?\d+(?:\.\d+)?\<close>.\<close>

definition sep :: regex where
  "sep = seq [Star Space, Opt (Atom (Lit (CHR '',''))), Star Space]"

definition ident :: regex where
  "ident = Alt (seq [Atom (Lit (CHR 0x22)), Plus (NotChar (CHR 0x22)), Atom (Lit (CHR 0x22))])
               (Plus NonSpace)"

definition number :: regex where
  "number = seq [Opt (Atom (Lit (CHR ''-''))), Plus Digit,
                 Opt (seq [Atom (Lit (CHR ''.'')), Plus Digit])]"

section \<open>Numbers in script text\<close>

text \<open>
  \<open>std::stod\<close> on a string of the shape \<open>-?\d+(\.\d+)?\<close>, the only strings the passes
  hand to it.  \<open>decimal_value\<close> is the number the string writes and \<open>parsed\<close> the double
  \<open>strtod\<close> makes of it: the sign bit is set by the minus sign, also before a zero, and
  the magnitude is rounded to the nearest double.  \<open>std::stod\<close> raises
  \<open>std::out_of_range\<close> when \<open>strtod\<close> reports \<open>ERANGE\<close>: for a magnitude that rounds
  beyond the largest double, and for one below the least normal double that is not zero.
  (There the C library reports no error when the string writes a subnormal double
  exactly, which takes more than a thousand decimals; the model raises.)
\<close>

definition digit_value :: "char \<Rightarrow> nat" where
  "digit_value c =
     (case map_of (zip ''0123456789'' [0, 1, 2, 3, 4, 5, 6, 7, 8, 9]) c of
        Some d \<Rightarrow> d | None \<Rightarrow> 0)"

definition digits_value :: "string \<Rightarrow> nat" where
  "digits_value ds = foldl (\<lambda>a c. 10 * a + digit_value c) 0 ds"

definition decimal_value :: "string \<Rightarrow> real" where
  "decimal_value s =
     (let body = (case s of c # cs \<Rightarrow> if c = CHR ''-'' then cs else s | [] \<Rightarrow> s);
          ip = takeWhile (\<lambda>c. c \<noteq> CHR ''.'') body;
          fp = drop 1 (dropWhile (\<lambda>c. c \<noteq> CHR ''.'') body);
          v = real (digits_value ip) + real (digits_value fp) / 10 ^ length fp
      in (case s of c # cs \<Rightarrow> if c = CHR ''-'' then - v else v | [] \<Rightarrow> v))"

definition in_double_range :: "real \<Rightarrow> bool" where
  "in_double_range v = (\<bar>v\<bar> < 2 ^ 1024 - 2 ^ 970 \<and> (v = 0 \<or> 1 / 2 ^ 1022 \<le> \<bar>v\<bar>))"

definition parsed :: "string \<Rightarrow> double" where
  "parsed s =
     \<lparr>negative = (case s of c # cs \<Rightarrow> c = CHR ''-'' | [] \<Rightarrow> False),
      magnitude = round_to_double \<bar>decimal_value s\<bar>\<rparr>"

definition stod :: "string \<Rightarrow> error + double" where
  "stod s = (if in_double_range (decimal_value s) then Inr (parsed s) else Inl out_of_range)"

text \<open>
  \<open>out << std::fixed << std::setprecision(p) << v\<close>: the minus sign if the sign bit is
  set, then the magnitude of the double rounded to \<open>p\<close> decimals, ties to even.
\<close>

definition digit_char :: "nat \<Rightarrow> char" where
  "digit_char d = ''0123456789'' ! d"

fun to_digits :: "nat \<Rightarrow> string" where
  "to_digits n = (if n < 10 then [digit_char n] else to_digits (n div 10) @ [digit_char (n mod 10)])"

definition fixed :: "nat \<Rightarrow> double \<Rightarrow> string" where
  "fixed p v =
     (let n = nat (round_half_even (magnitude v * 10 ^ p));
          ip = to_digits (n div 10 ^ p);
          fp = to_digits (n mod 10 ^ p)
      in (if negative v then ''-'' else '''') @ ip @
         (if p = 0 then '''' else ''.'' @ replicate (p - length fp) (CHR ''0'') @ fp))"

text \<open>An \<open>std::ostringstream\<close> written with \<open><<\<close>: the pieces in order, the precision as
  the state.\<close>

datatype piece = S string | D double | Precision nat

fun render :: "nat \<Rightarrow> piece list \<Rightarrow> string" where
  "render p [] = []"
| "render p (S s # ps) = s @ render p ps"
| "render p (D v # ps) = fixed p v @ render p ps"
| "render p (Precision q # ps) = render q ps"

section \<open>Rewriting the commands in script text\<close>

text \<open>The nine patterns (ab_data_processor.cpp); the Script pass and the Dialogue pass of
  a command use the same pattern.\<close>

definition aiEscortRegex :: regex where
  "aiEscortRegex =
     seq [Group 1 (word ''AiEscort''), sep, Group 2 ident, sep, Group 3 (Plus Digit), sep,
          Group 4 number, sep, Group 5 number, sep, Group 6 number,
          Opt (seq [sep, Group 7 (Plus Digit)])]"

definition aiEscortCellRegex :: regex where
  "aiEscortCellRegex =
     seq [Group 1 (word ''AiEscortCell''), sep, Group 2 ident, sep, Group 3 ident, sep,
          Group 4 (Plus Digit), sep, Group 5 number, sep, Group 6 number, sep, Group 7 number,
          Opt (seq [sep, Group 8 (Plus Digit)])]"

definition aiFollowRegex :: regex where
  "aiFollowRegex =
     seq [Group 1 (word ''AiFollow''), sep, Group 2 ident, sep, Group 3 (Plus Digit), sep,
          Group 4 number, sep, Group 5 number, sep, Group 6 number,
          Opt (seq [sep, Group 7 (Plus Digit)])]"

definition aiFollowCellRegex :: regex where
  "aiFollowCellRegex =
     seq [Group 1 (word ''AIFollowCell''), sep, Group 2 ident, sep, Group 3 ident, sep,
          Group 4 (Plus Digit), sep, Group 5 number, sep, Group 6 number, sep, Group 7 number,
          Opt (seq [sep, Group 8 (Plus Digit)])]"

definition aiTravelRegex :: regex where
  "aiTravelRegex =
     seq [Group 1 (word ''AiTravel''), sep, Group 2 number, sep, Group 3 number, sep,
          Group 4 number, Opt (seq [sep, Group 5 (Plus Digit)])]"

definition positionRegex :: regex where
  "positionRegex =
     seq [Group 1 (word ''Position''), sep, Group 2 number, sep, Group 3 number, sep,
          Group 4 number, sep, Group 5 number]"

definition positionCellRegex :: regex where
  "positionCellRegex =
     seq [Group 1 (word ''PositionCell''), sep, Group 2 number, sep, Group 3 number, sep,
          Group 4 number, sep, Group 5 number, sep, Group 6 ident]"

definition placeItemRegex :: regex where
  "placeItemRegex =
     seq [Group 1 (word ''PlaceItem''), sep, Group 2 ident, sep, Group 3 number, sep,
          Group 4 number, sep, Group 5 number, sep, Group 6 number]"

definition placeItemCellRegex :: regex where
  "placeItemCellRegex =
     seq [Group 1 (word ''PlaceItemCell''), sep, Group 2 ident, sep, Group 3 ident, sep,
          Group 4 number, sep, Group 5 number, sep, Group 6 number, sep, Group 7 number]"

text \<open>What every loop body does with the coordinates of a match, given by their values:
  the cell, the validity check, the translated pair when the cell is valid.\<close>

definition translated ::
  "Database \<Rightarrow> GridOffset \<Rightarrow> (cint \<times> cint) set \<Rightarrow> ProgramOptions \<Rightarrow> real \<Rightarrow> real \<Rightarrow> (real \<times> real) option"
where
  "translated db offset custom options destX destY =
     (let gridX = gridOf destX; gridY = gridOf destY
      in if fst (isCoordinateValid db gridX gridY custom options)
         then Some (newDestDouble (offsetX offset) destX, newDestDouble (offsetY offset) destY)
         else None)"

text \<open>The loop bodies: the operands are read from the groups, the spatial ones parsed,
  and for a valid cell the command is written anew; \<open>None\<close> stands for the branch that
  appends \<open>match.str()\<close>.\<close>

definition aiEscortCommand ::
  "Database \<Rightarrow> GridOffset \<Rightarrow> (cint \<times> cint) set \<Rightarrow> ProgramOptions \<Rightarrow> smatch \<Rightarrow> error + string option"
where
  "aiEscortCommand db offset custom options m =
     (let commandType = sub m 1; actorID = sub m 2; duration = sub m 3 in
      bindE (stod (sub m 4)) (\<lambda>destX.
      bindE (stod (sub m 5)) (\<lambda>destY.
      bindE (stod (sub m 6)) (\<lambda>destZ.
      let resetValue = sub m 7 in
      Inr (case translated db offset custom options (value_of destX) (value_of destY) of
             None \<Rightarrow> None
           | Some (newDestX, newDestY) \<Rightarrow>
               Some (render 6
                 ([Precision 3, S commandType, S '', '', S actorID, S '', '', S duration, S '', '',
                   D (double_of newDestX), S '', '', D (double_of newDestY), S '', '', D destZ] @
                  (if resetValue \<noteq> [] then [S '', '', S resetValue] else []))))))))"

definition aiEscortCellCommand ::
  "Database \<Rightarrow> GridOffset \<Rightarrow> (cint \<times> cint) set \<Rightarrow> ProgramOptions \<Rightarrow> smatch \<Rightarrow> error + string option"
where
  "aiEscortCellCommand db offset custom options m =
     (let commandType = sub m 1; actorID = sub m 2; cellID = sub m 3; duration = sub m 4 in
      bindE (stod (sub m 5)) (\<lambda>destX.
      bindE (stod (sub m 6)) (\<lambda>destY.
      bindE (stod (sub m 7)) (\<lambda>destZ.
      let resetValue = sub m 8 in
      Inr (case translated db offset custom options (value_of destX) (value_of destY) of
             None \<Rightarrow> None
           | Some (newDestX, newDestY) \<Rightarrow>
               Some (render 6
                 ([Precision 3, S commandType, S '', '', S actorID, S '', '', S cellID, S '', '',
                   S duration, S '', '',
                   D (double_of newDestX), S '', '', D (double_of newDestY), S '', '', D destZ] @
                  (if resetValue \<noteq> [] then [S '', '', S resetValue] else []))))))))"

definition aiTravelCommand ::
  "Database \<Rightarrow> GridOffset \<Rightarrow> (cint \<times> cint) set \<Rightarrow> ProgramOptions \<Rightarrow> smatch \<Rightarrow> error + string option"
where
  "aiTravelCommand db offset custom options m =
     (let commandType = sub m 1 in
      bindE (stod (sub m 2)) (\<lambda>destX.
      bindE (stod (sub m 3)) (\<lambda>destY.
      bindE (stod (sub m 4)) (\<lambda>destZ.
      let resetValue = sub m 5 in
      Inr (case translated db offset custom options (value_of destX) (value_of destY) of
             None \<Rightarrow> None
           | Some (newDestX, newDestY) \<Rightarrow>
               Some (render 6
                 ([Precision 3, S commandType, S '', '',
                   D (double_of newDestX), S '', '', D (double_of newDestY), S '', '', D destZ] @
                  (if resetValue \<noteq> [] then [S '', '', S resetValue] else []))))))))"

definition positionCommand ::
  "Database \<Rightarrow> GridOffset \<Rightarrow> (cint \<times> cint) set \<Rightarrow> ProgramOptions \<Rightarrow> smatch \<Rightarrow> error + string option"
where
  "positionCommand db offset custom options m =
     (let commandType = sub m 1 in
      bindE (stod (sub m 2)) (\<lambda>destX.
      bindE (stod (sub m 3)) (\<lambda>destY.
      bindE (stod (sub m 4)) (\<lambda>destZ.
      bindE (stod (sub m 5)) (\<lambda>zRot.
      Inr (case translated db offset custom options (value_of destX) (value_of destY) of
             None \<Rightarrow> None
           | Some (newDestX, newDestY) \<Rightarrow>
               Some (render 6
                 [Precision 3, S commandType, S '', '',
                  D (double_of newDestX), S '', '', D (double_of newDestY), S '', '', D destZ,
                  S '', '', Precision 0, D zRot])))))))"

definition positionCellCommand ::
  "Database \<Rightarrow> GridOffset \<Rightarrow> (cint \<times> cint) set \<Rightarrow> ProgramOptions \<Rightarrow> smatch \<Rightarrow> error + string option"
where
  "positionCellCommand db offset custom options m =
     (let commandType = sub m 1 in
      bindE (stod (sub m 2)) (\<lambda>destX.
      bindE (stod (sub m 3)) (\<lambda>destY.
      bindE (stod (sub m 4)) (\<lambda>destZ.
      bindE (stod (sub m 5)) (\<lambda>zRot.
      let cellID = sub m 6 in
      Inr (case translated db offset custom options (value_of destX) (value_of destY) of
             None \<Rightarrow> None
           | Some (newDestX, newDestY) \<Rightarrow>
               Some (render 6
                 [Precision 3, S commandType, S '', '',
                  D (double_of newDestX), S '', '', D (double_of newDestY), S '', '', D destZ,
                  S '', '', Precision 0, D zRot, S '', '', S cellID])))))))"

definition placeItemCommand ::
  "Database \<Rightarrow> GridOffset \<Rightarrow> (cint \<times> cint) set \<Rightarrow> ProgramOptions \<Rightarrow> smatch \<Rightarrow> error + string option"
where
  "placeItemCommand db offset custom options m =
     (let commandType = sub m 1; objectID = sub m 2 in
      bindE (stod (sub m 3)) (\<lambda>destX.
      bindE (stod (sub m 4)) (\<lambda>destY.
      bindE (stod (sub m 5)) (\<lambda>destZ.
      bindE (stod (sub m 6)) (\<lambda>zRot.
      Inr (case translated db offset custom options (value_of destX) (value_of destY) of
             None \<Rightarrow> None
           | Some (newDestX, newDestY) \<Rightarrow>
               Some (render 6
                 [Precision 3, S commandType, S '', '', S objectID, S '', '',
                  D (double_of newDestX), S '', '', D (double_of newDestY), S '', '', D destZ,
                  S '', '', Precision 0, D zRot])))))))"

definition placeItemCellCommand ::
  "Database \<Rightarrow> GridOffset \<Rightarrow> (cint \<times> cint) set \<Rightarrow> ProgramOptions \<Rightarrow> smatch \<Rightarrow> error + string option"
where
  "placeItemCellCommand db offset custom options m =
     (let commandType = sub m 1; objectID = sub m 2; cellID = sub m 3 in
      bindE (stod (sub m 4)) (\<lambda>destX.
      bindE (stod (sub m 5)) (\<lambda>destY.
      bindE (stod (sub m 6)) (\<lambda>destZ.
      bindE (stod (sub m 7)) (\<lambda>zRot.
      Inr (case translated db offset custom options (value_of destX) (value_of destY) of
             None \<Rightarrow> None
           | Some (newDestX, newDestY) \<Rightarrow>
               Some (render 6
                 [Precision 3, S commandType, S '', '', S objectID, S '', '', S cellID, S '', '',
                  D (double_of newDestX), S '', '', D (double_of newDestY), S '', '', D destZ,
                  S '', '', Precision 0, D zRot])))))))"

text \<open>
  The \<open>while (std::regex_search(...))\<close> loop of every pass: \<open>text\<close> is the input from
  \<open>searchStart\<close> on, \<open>updatedText\<close> what has been written, \<open>updated\<close> tells whether a
  command was rewritten.  A loop that does not end has the value \<open>None\<close>.
\<close>

partial_function (option) rewrite ::
  "regex \<Rightarrow> (smatch \<Rightarrow> error + string option) \<Rightarrow> string \<Rightarrow> string \<Rightarrow> bool \<Rightarrow> (error + string \<times> bool) option"
where
  "rewrite r command text updatedText updated =
     (case regex_search r text of
        None \<Rightarrow> Some (Inr (updatedText @ text, updated))
      | Some m \<Rightarrow>
          (case command m of
             Inl e \<Rightarrow> Some (Inl e)
           | Inr None \<Rightarrow> rewrite r command (suffix_of m) (updatedText @ prefix_of m @ str m) updated
           | Inr (Some formatted) \<Rightarrow>
               rewrite r command (suffix_of m) (updatedText @ prefix_of m @ formatted) True))"

text \<open>The nine commands, to speak about all passes at once.  The loop bodies of the
  \<open>AiFollow\<close> and \<open>AiFollowCell\<close> passes are those of \<open>AiEscort\<close> and \<open>AiEscortCell\<close>
  word for word; only the regular expression differs.\<close>

datatype command_kind =
    AiEscort | AiEscortCell | AiFollow | AiFollowCell | AiTravel
  | Position | PositionCell | PlaceItem | PlaceItemCell

fun regex_of :: "command_kind \<Rightarrow> regex" where
  "regex_of AiEscort = aiEscortRegex"
| "regex_of AiEscortCell = aiEscortCellRegex"
| "regex_of AiFollow = aiFollowRegex"
| "regex_of AiFollowCell = aiFollowCellRegex"
| "regex_of AiTravel = aiTravelRegex"
| "regex_of Position = positionRegex"
| "regex_of PositionCell = positionCellRegex"
| "regex_of PlaceItem = placeItemRegex"
| "regex_of PlaceItemCell = placeItemCellRegex"

fun command_of ::
  "command_kind \<Rightarrow> Database \<Rightarrow> GridOffset \<Rightarrow> (cint \<times> cint) set \<Rightarrow> ProgramOptions \<Rightarrow> smatch \<Rightarrow> error + string option"
where
  "command_of AiEscort = aiEscortCommand"
| "command_of AiEscortCell = aiEscortCellCommand"
| "command_of AiFollow = aiEscortCommand"
| "command_of AiFollowCell = aiEscortCellCommand"
| "command_of AiTravel = aiTravelCommand"
| "command_of Position = positionCommand"
| "command_of PositionCell = positionCellCommand"
| "command_of PlaceItem = placeItemCommand"
| "command_of PlaceItemCell = placeItemCellCommand"

definition rewriteText ::
  "command_kind \<Rightarrow> Database \<Rightarrow> GridOffset \<Rightarrow> (cint \<times> cint) set \<Rightarrow> ProgramOptions \<Rightarrow> string \<Rightarrow> (error + string \<times> bool) option"
where
  "rewriteText k db offset custom options scriptText =
     rewrite (regex_of k) (command_of k db offset custom options) scriptText [] False"

text \<open>The least number of characters a pattern consumes.\<close>

fun min_len :: "regex \<Rightarrow> nat" where
  "min_len Eps = 0"
| "min_len (Atom a) = 1"
| "min_len (Star a) = 0"
| "min_len (Plus a) = 1"
| "min_len (Opt r) = 0"
| "min_len (Seq r1 r2) = min_len r1 + min_len r2"
| "min_len (Alt r1 r2) = min (min_len r1) (min_len r2)"
| "min_len (Group n r) = min_len r"

fun todo_len :: "todo \<Rightarrow> nat" where
  "todo_len (Pat r) = min_len r"
| "todo_len (Close n s) = 0"

text \<open>The keyword of a command, and whether a text holds it somewhere, letter case
  ignored as the patterns do.\<close>

fun keyword_of :: "command_kind \<Rightarrow> string" where
  "keyword_of AiEscort = ''AiEscort''"
| "keyword_of AiEscortCell = ''AiEscortCell''"
| "keyword_of AiFollow = ''AiFollow''"
| "keyword_of AiFollowCell = ''AIFollowCell''"
| "keyword_of AiTravel = ''AiTravel''"
| "keyword_of Position = ''Position''"
| "keyword_of PositionCell = ''PositionCell''"
| "keyword_of PlaceItem = ''PlaceItem''"
| "keyword_of PlaceItemCell = ''PlaceItemCell''"

definition starts_with :: "string \<Rightarrow> string \<Rightarrow> bool" where
  "starts_with kw s = (map tolower (take (length kw) s) = map tolower kw)"

fun mentions :: "string \<Rightarrow> string \<Rightarrow> bool" where
  "mentions kw [] = starts_with kw []"
| "mentions kw (c # cs) = (starts_with kw (c # cs) \<or> mentions kw cs)"

text \<open>
  The command table of the specification: the numbers of the groups that hold the
  operands of a command.  The spatial operands are the groups \<open>x_group\<close>,
  \<open>x_group + 1\<close> and \<open>x_group + 2\<close>; a rotation, where the command has one, follows them.
\<close>

fun x_group :: "command_kind \<Rightarrow> nat" where
  "x_group AiEscort = 4"
| "x_group AiEscortCell = 5"
| "x_group AiFollow = 4"
| "x_group AiFollowCell = 5"
| "x_group AiTravel = 2"
| "x_group Position = 2"
| "x_group PositionCell = 2"
| "x_group PlaceItem = 3"
| "x_group PlaceItemCell = 4"

fun has_rotation :: "command_kind \<Rightarrow> bool" where
  "has_rotation Position = True"
| "has_rotation PositionCell = True"
| "has_rotation PlaceItem = True"
| "has_rotation PlaceItemCell = True"
| "has_rotation _ = False"

text \<open>Actor, object and cell identifiers and the duration, before the spatial operands.\<close>

fun operands_before :: "command_kind \<Rightarrow> nat list" where
  "operands_before AiEscort = [2, 3]"
| "operands_before AiEscortCell = [2, 3, 4]"
| "operands_before AiFollow = [2, 3]"
| "operands_before AiFollowCell = [2, 3, 4]"
| "operands_before AiTravel = []"
| "operands_before Position = []"
| "operands_before PositionCell = []"
| "operands_before PlaceItem = [2]"
| "operands_before PlaceItemCell = [2, 3]"

text \<open>The cell name of \<open>PositionCell\<close> and the optional reset flag, after them.\<close>

fun operands_after :: "command_kind \<Rightarrow> smatch \<Rightarrow> string list" where
  "operands_after AiEscort m = (if sub m 7 \<noteq> [] then [sub m 7] else [])"
| "operands_after AiEscortCell m = (if sub m 8 \<noteq> [] then [sub m 8] else [])"
| "operands_after AiFollow m = (if sub m 7 \<noteq> [] then [sub m 7] else [])"
| "operands_after AiFollowCell m = (if sub m 8 \<noteq> [] then [sub m 8] else [])"
| "operands_after AiTravel m = (if sub m 5 \<noteq> [] then [sub m 5] else [])"
| "operands_after Position m = []"
| "operands_after PositionCell m = [sub m 6]"
| "operands_after PlaceItem m = []"
| "operands_after PlaceItemCell m = []"

definition numeric_groups :: "command_kind \<Rightarrow> nat list" where
  "numeric_groups k =
     [x_group k, x_group k + 1, x_group k + 2] @ (if has_rotation k then [x_group k + 3] else [])"

definition operands_in_range :: "command_kind \<Rightarrow> smatch \<Rightarrow> bool" where
  "operands_in_range k m = list_all (\<lambda>i. in_double_range (decimal_value (sub m i))) (numeric_groups k)"

definition operand :: "command_kind \<Rightarrow> smatch \<Rightarrow> nat \<Rightarrow> double" where
  "operand k m i = parsed (sub m (x_group k + i))"

definition derived_cell :: "command_kind \<Rightarrow> smatch \<Rightarrow> cint \<times> cint" where
  "derived_cell k m = (gridOf (value_of (operand k m 0)), gridOf (value_of (operand k m 1)))"

text \<open>The cell of a match lies in the range of \<open>int\<close>, and so does the cell that
  \<open>isCoordinateValid\<close> probes for it: the conversions \<open>static_cast<int>\<close> of the pass and
  the addition in the validator are defined.\<close>

definition cell_defined :: "command_kind \<Rightarrow> ProgramOptions \<Rightarrow> smatch \<Rightarrow> bool" where
  "cell_defined k options m =
     defined_for
       (if conversionType options = 2 then getGridOffset 2 else \<lparr>offsetX = 0, offsetY = 0\<rparr>)
       (value_of (operand k m 0), value_of (operand k m 1))"

text \<open>Moreover the cell shifted by the offset lies in the range of \<open>int\<close>: the additions
  \<open>gridX + offset.offsetX\<close> and \<open>gridY + offset.offsetY\<close> of the pass are defined.\<close>

definition shift_defined :: "command_kind \<Rightarrow> GridOffset \<Rightarrow> smatch \<Rightarrow> bool" where
  "shift_defined k offset m =
     defined_for offset (value_of (operand k m 0), value_of (operand k m 1))"

definition cell_valid ::
  "command_kind \<Rightarrow> Database \<Rightarrow> (cint \<times> cint) set \<Rightarrow> ProgramOptions \<Rightarrow> smatch \<Rightarrow> bool" where
  "cell_valid k db custom options m =
     fst (isCoordinateValid db (fst (derived_cell k m)) (snd (derived_cell k m)) custom options)"

fun join :: "string \<Rightarrow> string list \<Rightarrow> string" where
  "join d [] = []"
| "join d [x] = x"
| "join d (x # y # ys) = x @ d @ join d (y # ys)"

text \<open>The command as the specification has it re-emitted: the keyword token and the
  operands joined by \<open>", "\<close>; the numbers \<open>written\<close> are x and y translated, z as
  parsed, all three with three decimals, and the rotation as parsed with none; every
  other operand as it stands in the source.\<close>

definition written :: "command_kind \<Rightarrow> GridOffset \<Rightarrow> smatch \<Rightarrow> string list" where
  "written k offset m =
     [fixed 3 (double_of (newDestDouble (offsetX offset) (value_of (operand k m 0)))),
      fixed 3 (double_of (newDestDouble (offsetY offset) (value_of (operand k m 1)))),
      fixed 3 (operand k m 2)] @
     (if has_rotation k then [fixed 0 (operand k m 3)] else [])"

definition reemitted :: "command_kind \<Rightarrow> GridOffset \<Rightarrow> smatch \<Rightarrow> string" where
  "reemitted k offset m =
     join '', ''
       ([sub m 1] @ map (sub m) (operands_before k) @ written k offset m @ operands_after k m)"

text \<open>A text in which the loop of a pass finds no command with a valid cell: every
  command it finds has operands that \<open>std::stod\<close> reads and a cell in the range of
  \<open>int\<close> that is not valid.\<close>

inductive every_match_invalid ::
  "command_kind \<Rightarrow> Database \<Rightarrow> (cint \<times> cint) set \<Rightarrow> ProgramOptions \<Rightarrow> string \<Rightarrow> bool"
  for k db custom options
where
  no_match: "regex_search (regex_of k) body = None \<Longrightarrow> every_match_invalid k db custom options body"
| invalid_match:
    "regex_search (regex_of k) body = Some m \<Longrightarrow> operands_in_range k m \<Longrightarrow>
     cell_defined k options m \<Longrightarrow> \<not> cell_valid k db custom options m \<Longrightarrow>
     every_match_invalid k db custom options (suffix_of m) \<Longrightarrow>
     every_match_invalid k db custom options body"

definition smallDb :: Database where
  "smallDb = \<lparr>prepare_ok = True, errmsg = ''not an error'', table_rows = [(10, 4)]\<rparr>"

section \<open>The passes over a document\<close>

text \<open>\<open>processInteriorDoorsTranslation\<close> (ab_data_processor.cpp): the loop body for one
  reference, for one record, and the function.\<close>

fun has_substring :: "string \<Rightarrow> string \<Rightarrow> bool" where
  "has_substring w [] = (w = [])"
| "has_substring w (c # cs) = (take (length w) (c # cs) = w \<or> has_substring w cs)"

definition doorReference ::
  "Database \<Rightarrow> GridOffset \<Rightarrow> (cint \<times> cint) set \<Rightarrow> ProgramOptions \<Rightarrow> json \<Rightarrow> cint \<Rightarrow> error + json \<times> cint"
where
  "doorReference db offset custom options reference flag =
     (if contains reference ''translation'' \<and> is_array (field_of reference ''translation'') \<and>
         contains reference ''destination'' \<and>
         contains (field_of reference ''destination'') ''translation'' \<and>
         is_array (field_of (field_of reference ''destination'') ''translation'')
      then
        (let tr = elements (field_of (field_of reference ''destination'') ''translation'') in
         bindE (get_double (element_at tr 0)) (\<lambda>destX.
         bindE (get_double (element_at tr 1)) (\<lambda>destY.
           if fst (isCoordinateValid db (gridOf destX) (gridOf destY) custom options)
           then Inr (set_field reference ''destination''
                       (set_field (field_of reference ''destination'') ''translation''
                          (JArray (tr[0 := JFloat (newDestDouble (offsetX offset) destX),
                                      1 := JFloat (newDestDouble (offsetY offset) destY)]))), 1)
           else Inr (reference, flag))))
      else Inr (reference, flag))"

definition doorCell ::
  "Database \<Rightarrow> GridOffset \<Rightarrow> (cint \<times> cint) set \<Rightarrow> ProgramOptions \<Rightarrow> json \<Rightarrow> cint \<Rightarrow> error + json \<times> cint"
where
  "doorCell db offset custom options cell flag =
     (if contains cell ''type'' \<and> field_of cell ''type'' = JString ''Cell'' \<and>
         contains cell ''data'' \<and> contains (field_of cell ''data'') ''flags''
      then
        bindE (get_string (field_of (field_of cell ''data'') ''flags'')) (\<lambda>flags.
        if has_substring ''IS_INTERIOR'' flags \<and>
           contains cell ''references'' \<and> is_array (field_of cell ''references'')
        then bindE (forEach (doorReference db offset custom options)
                      (elements (field_of cell ''references'')) flag)
               (\<lambda>(refs, flag'). Inr (set_field cell ''references'' (JArray refs), flag'))
        else Inr (cell, flag))
      else Inr (cell, flag))"

definition processInteriorDoorsTranslation ::
  "Database \<Rightarrow> json \<Rightarrow> GridOffset \<Rightarrow> cint \<Rightarrow> (cint \<times> cint) set \<Rightarrow> ProgramOptions \<Rightarrow> error + json \<times> cint"
where
  "processInteriorDoorsTranslation db inputData offset replacementsFlag custom options =
     forItems (doorCell db offset custom options) inputData replacementsFlag"

text \<open>A step that may raise or, as the rewriting loop, not end: \<open>None\<close> is not ending.\<close>

definition bindR :: "(error + 'a) option \<Rightarrow> ('a \<Rightarrow> (error + 'b) option) \<Rightarrow> (error + 'b) option" where
  "bindR m f = (case m of None \<Rightarrow> None | Some (Inl e) \<Rightarrow> Some (Inl e) | Some (Inr x) \<Rightarrow> f x)"

fun forEachR ::
  "('a \<Rightarrow> 's \<Rightarrow> (error + 'a \<times> 's) option) \<Rightarrow> 'a list \<Rightarrow> 's \<Rightarrow> (error + 'a list \<times> 's) option"
where
  "forEachR f [] s = Some (Inr ([], s))"
| "forEachR f (x # xs) s =
     bindR (f x s) (\<lambda>(x', s').
     bindR (forEachR f xs s') (\<lambda>(xs', s''). Some (Inr (x' # xs', s''))))"

definition forItemsR ::
  "(json \<Rightarrow> 's \<Rightarrow> (error + json \<times> 's) option) \<Rightarrow> json \<Rightarrow> 's \<Rightarrow> (error + json \<times> 's) option"
where
  "forItemsR f j s =
     (case j of
        JArray xs \<Rightarrow> bindR (forEachR f xs s) (\<lambda>(xs', s'). Some (Inr (JArray xs', s')))
      | JObject kvs \<Rightarrow>
          bindR (forEachR f (map snd kvs) s)
            (\<lambda>(vs', s'). Some (Inr (JObject (zip (map fst kvs) vs'), s')))
      | JNull \<Rightarrow> Some (Inr (JNull, s))
      | _ \<Rightarrow> f j s)"

text \<open>
  The loop body of a Script pass and of a Dialogue pass for one record; the state is the
  replacements flag and, for scripts, the list \<open>updatedScriptIDs\<close>.
\<close>

definition scriptRecord ::
  "regex \<Rightarrow> (smatch \<Rightarrow> error + string option) \<Rightarrow> json \<Rightarrow> cint \<times> string list
     \<Rightarrow> (error + json \<times> cint \<times> string list) option"
where
  "scriptRecord r command script st =
     (if contains script ''type'' \<and> field_of script ''type'' = JString ''Script'' \<and>
         contains script ''text''
      then
        bindR (Some (get_string (field_of script ''text''))) (\<lambda>scriptText.
        bindR (Some (if contains script ''id'' then get_string (field_of script ''id'')
                     else Inr ''Unknown'')) (\<lambda>scriptID.
        bindR (rewrite r command scriptText [] False) (\<lambda>(updatedText, scriptUpdated).
          Some (Inr (set_field script ''text'' (JString updatedText),
                     (if scriptUpdated then 1 else fst st),
                     (if scriptUpdated then snd st @ [scriptID] else snd st))))))
      else Some (Inr (script, st)))"

definition dialogueRecord ::
  "regex \<Rightarrow> (smatch \<Rightarrow> error + string option) \<Rightarrow> json \<Rightarrow> cint \<Rightarrow> (error + json \<times> cint) option"
where
  "dialogueRecord r command dialogueInfo flag =
     (if contains dialogueInfo ''type'' \<and> field_of dialogueInfo ''type'' = JString ''DialogueInfo'' \<and>
         contains dialogueInfo ''script_text''
      then
        bindR (Some (get_string (field_of dialogueInfo ''script_text''))) (\<lambda>scriptText.
        bindR (rewrite r command scriptText [] False) (\<lambda>(updatedText, updated).
          Some (Inr (set_field dialogueInfo ''script_text'' (JString updatedText),
                     (if updated then 1 else flag)))))
      else Some (Inr (dialogueInfo, flag)))"

text \<open>The Script pass and the Dialogue pass of a command.  The eighteen functions of
  ab_data_processor.cpp differ in the pattern and in the loop body only, which
  \<open>regex_of\<close> and \<open>command_of\<close> select.\<close>

definition processScript ::
  "command_kind \<Rightarrow> Database \<Rightarrow> json \<Rightarrow> GridOffset \<Rightarrow> cint \<Rightarrow> string list \<Rightarrow> (cint \<times> cint) set
     \<Rightarrow> ProgramOptions \<Rightarrow> (error + json \<times> cint \<times> string list) option"
where
  "processScript k db inputData offset replacementsFlag updatedScriptIDs custom options =
     forItemsR (scriptRecord (regex_of k) (command_of k db offset custom options))
       inputData (replacementsFlag, updatedScriptIDs)"

definition processDialogue ::
  "command_kind \<Rightarrow> Database \<Rightarrow> json \<Rightarrow> GridOffset \<Rightarrow> cint \<Rightarrow> (cint \<times> cint) set
     \<Rightarrow> ProgramOptions \<Rightarrow> (error + json \<times> cint) option"
where
  "processDialogue k db inputData offset replacementsFlag custom options =
     forItemsR (dialogueRecord (regex_of k) (command_of k db offset custom options))
       inputData replacementsFlag"

definition processScriptAiEscortTranslation where
  "processScriptAiEscortTranslation = processScript AiEscort"

definition processScriptAiEscortCellTranslation where
  "processScriptAiEscortCellTranslation = processScript AiEscortCell"

definition processScriptAiFollowTranslation where
  "processScriptAiFollowTranslation = processScript AiFollow"

definition processScriptAiFollowCellTranslation where
  "processScriptAiFollowCellTranslation = processScript AiFollowCell"

definition processScriptAiTravelTranslation where
  "processScriptAiTravelTranslation = processScript AiTravel"

definition processScriptPositionTranslation where
  "processScriptPositionTranslation = processScript Position"

definition processScriptPositionCellTranslation where
  "processScriptPositionCellTranslation = processScript PositionCell"

definition processScriptPlaceItemTranslation where
  "processScriptPlaceItemTranslation = processScript PlaceItem"

definition processScriptPlaceItemCellTranslation where
  "processScriptPlaceItemCellTranslation = processScript PlaceItemCell"

definition processDialogueAiEscortTranslation where
  "processDialogueAiEscortTranslation = processDialogue AiEscort"

definition processDialogueAiEscortCellTranslation where
  "processDialogueAiEscortCellTranslation = processDialogue AiEscortCell"

definition processDialogueAiFollowTranslation where
  "processDialogueAiFollowTranslation = processDialogue AiFollow"

definition processDialogueAiFollowCellTranslation where
  "processDialogueAiFollowCellTranslation = processDialogue AiFollowCell"

definition processDialogueAiTravelTranslation where
  "processDialogueAiTravelTranslation = processDialogue AiTravel"

definition processDialoguePositionTranslation where
  "processDialoguePositionTranslation = processDialogue Position"

definition processDialoguePositionCellTranslation where
  "processDialoguePositionCellTranslation = processDialogue PositionCell"

definition processDialoguePlaceItemTranslation where
  "processDialoguePlaceItemTranslation = processDialogue PlaceItem"

definition processDialoguePlaceItemCellTranslation where
  "processDialoguePlaceItemCellTranslation = processDialogue PlaceItemCell"

section \<open>The main loop\<close>

text \<open>The processing passes of \<open>main\<close> (tes3_ab_converter.cpp, lines 185 to 214), from
  the flag set to 0 to the last Dialogue pass; \<open>updatedScriptIDs\<close> is empty at the start
  of a file.\<close>

definition runPasses ::
  "Database \<Rightarrow> json \<Rightarrow> (cint \<times> cint) set \<Rightarrow> ProgramOptions \<Rightarrow> (error + json \<times> cint \<times> string list) option"
where
  "runPasses db inputData custom options =
     (let replacementsFlag = 0; offset = getGridOffset (conversionType options) in
      bindR (Some (processGridValues db inputData offset replacementsFlag custom options))
        (\<lambda>(d, f).
      bindR (Some (processInteriorDoorsTranslation db d offset f custom options))
        (\<lambda>(d, f).
      bindR (Some (processNpcTravelDestinations db d offset f custom options))
        (\<lambda>(d, f).
      bindR (processScriptAiEscortTranslation db d offset f [] custom options)
        (\<lambda>(d, f, ids).
      bindR (processScriptAiEscortCellTranslation db d offset f ids custom options)
        (\<lambda>(d, f, ids).
      bindR (processScriptAiFollowTranslation db d offset f ids custom options)
        (\<lambda>(d, f, ids).
      bindR (processScriptAiFollowCellTranslation db d offset f ids custom options)
        (\<lambda>(d, f, ids).
      bindR (processScriptAiTravelTranslation db d offset f ids custom options)
        (\<lambda>(d, f, ids).
      bindR (processScriptPositionTranslation db d offset f ids custom options)
        (\<lambda>(d, f, ids).
      bindR (processScriptPositionCellTranslation db d offset f ids custom options)
        (\<lambda>(d, f, ids).
      bindR (processScriptPlaceItemTranslation db d offset f ids custom options)
        (\<lambda>(d, f, ids).
      bindR (processScriptPlaceItemCellTranslation db d offset f ids custom options)
        (\<lambda>(d, f, ids).
      bindR (processDialogueAiEscortTranslation db d offset f custom options)
        (\<lambda>(d, f).
      bindR (processDialogueAiEscortCellTranslation db d offset f custom options)
        (\<lambda>(d, f).
      bindR (processDialogueAiFollowTranslation db d offset f custom options)
        (\<lambda>(d, f).
      bindR (processDialogueAiFollowCellTranslation db d offset f custom options)
        (\<lambda>(d, f).
      bindR (processDialogueAiTravelTranslation db d offset f custom options)
        (\<lambda>(d, f).
      bindR (processDialoguePositionTranslation db d offset f custom options)
        (\<lambda>(d, f).
      bindR (processDialoguePositionCellTranslation db d offset f custom options)
        (\<lambda>(d, f).
      bindR (processDialoguePlaceItemTranslation db d offset f custom options)
        (\<lambda>(d, f).
      bindR (processDialoguePlaceItemCellTranslation db d offset f custom options)
        (\<lambda>(d, f).
      Some (Inr (d, f, ids))))))))))))))))))))))))"

text \<open>
  What lies outside the sources, for one input file: the converter \<open>tes3conv\<close>, the file
  system, the JSON parser, and the functions of ab_file_processor (\<open>hasConversionTag\<close>,
  \<open>addConversionTag\<close>, \<open>saveJsonToFile\<close>, \<open>createBackup\<close>, \<open>convertJsonToEsp\<close>), which
  are taken as given.
\<close>

record file_env =
  path :: string
  toJsonOk :: bool
  jsonOpens :: bool
  parsedJson :: "json option"
  hasConversionTag :: "json \<Rightarrow> bool"
  addConversionTag :: "json \<Rightarrow> string \<Rightarrow> json option"
  saveJsonToFile :: "json \<Rightarrow> bool"
  createBackup :: bool
  convertJsonToEsp :: bool

text \<open>What an iteration of the loop of \<open>main\<close> does to the files, and how it ends.\<close>

datatype effect =
    ConvertedToJson
  | RemovedImportJson
  | SavedExportJson json
  | CreatedBackup
  | ConvertedToPlugin
  | RemovedExportJson

datatype verdict =
    ToJsonFailed | JsonNotOpened | JsonInvalid | AlreadyConverted | MastersNotFound
  | NoReplacements | TagFailed | SaveFailed | BackupFailed | ToPluginFailed
  | ProcessingFailed error
  | Done "string list"

text \<open>The line \<open>main\<close> logs for a verdict in every mode.\<close>

fun log_line :: "verdict \<Rightarrow> string \<Rightarrow> string" where
  "log_line ToJsonFailed p = ''ERROR - converting to .JSON failed for file: '' @ p"
| "log_line JsonNotOpened p = ''ERROR - failed to open JSON file: '' @ p"
| "log_line JsonInvalid p = ''ERROR - failed to parse JSON: '' @ p"
| "log_line AlreadyConverted p = ''ERROR - file '' @ p @ '' was already converted - conversion skipped...''"
| "log_line MastersNotFound p =
     ''ERROR - required Parent Masters not found for file: '' @ p @ '' - conversion skipped...''"
| "log_line NoReplacements p = ''No replacements found for file: '' @ p @ '' - conversion skipped...''"
| "log_line TagFailed p = ''ERROR - could not find or modify header description''"
| "log_line SaveFailed p = ''ERROR - failed to save modified data to .JSON file: '' @ p"
| "log_line BackupFailed p = []"
| "log_line ToPluginFailed p = ''ERROR - failed to convert .JSON back to .ESP|ESM: '' @ p"
| "log_line (ProcessingFailed e) p = ''ERROR - failed to process file '' @ p"
| "log_line (Done ids) p = []"

text \<open>The body of the loop of \<open>main\<close> for one input file (lines 104 to 294): an exception
  of a step is caught there and ends the iteration, not the loop.\<close>

definition processFile ::
  "Database \<Rightarrow> (cint \<times> cint) set \<Rightarrow> ProgramOptions \<Rightarrow> file_env \<Rightarrow> (verdict \<times> effect list) option"
where
  "processFile db custom options env =
     (if \<not> toJsonOk env then Some (ToJsonFailed, [])
      else if \<not> jsonOpens env then Some (JsonNotOpened, [ConvertedToJson])
      else
        (case parsedJson env of
           None \<Rightarrow> Some (JsonInvalid, [ConvertedToJson])
         | Some inputData \<Rightarrow>
             if hasConversionTag env inputData
             then Some (AlreadyConverted, [ConvertedToJson, RemovedImportJson])
             else
               (case checkDependencyOrder inputData of
                  Inl e \<Rightarrow> Some (ProcessingFailed e, [ConvertedToJson])
                | Inr (isValid, validMasters) \<Rightarrow>
                    if \<not> isValid then Some (MastersNotFound, [ConvertedToJson, RemovedImportJson])
                    else
                      (case runPasses db inputData custom options of
                         None \<Rightarrow> None
                       | Some (Inl e) \<Rightarrow> Some (ProcessingFailed e, [ConvertedToJson])
                       | Some (Inr (outputData, replacementsFlag, updatedScriptIDs)) \<Rightarrow>
                           if replacementsFlag = 0
                           then Some (NoReplacements, [ConvertedToJson, RemovedImportJson])
                           else
                             (case addConversionTag env outputData
                                     (if conversionType options = 1 then ''BM->AB'' else ''AB->BM'') of
                                None \<Rightarrow> Some (TagFailed, [ConvertedToJson])
                              | Some tagged \<Rightarrow>
                                  if \<not> saveJsonToFile env tagged
                                  then Some (SaveFailed, [ConvertedToJson])
                                  else if \<not> createBackup env
                                  then Some (BackupFailed,
                                         [ConvertedToJson, SavedExportJson tagged, RemovedImportJson])
                                  else if \<not> convertJsonToEsp env
                                  then Some (ToPluginFailed,
                                         [ConvertedToJson, SavedExportJson tagged, CreatedBackup])
                                  else Some (Done updatedScriptIDs,
                                         [ConvertedToJson, SavedExportJson tagged, CreatedBackup,
                                          ConvertedToPlugin, RemovedImportJson,
                                          RemovedExportJson]))))))"

text \<open>The loop of \<open>main\<close> over the input files: one verdict per file, in order.\<close>

fun processFiles ::
  "Database \<Rightarrow> (cint \<times> cint) set \<Rightarrow> ProgramOptions \<Rightarrow> file_env list \<Rightarrow> (verdict \<times> effect list) list option"
where
  "processFiles db custom options [] = Some []"
| "processFiles db custom options (env # envs) =
     (case processFile db custom options env of
        None \<Rightarrow> None
      | Some v \<Rightarrow> (case processFiles db custom options envs of
                     None \<Rightarrow> None | Some vs \<Rightarrow> Some (v # vs)))"

definition emits_output :: "effect \<Rightarrow> bool" where
  "emits_output e = (case e of SavedExportJson _ \<Rightarrow> True | ConvertedToPlugin \<Rightarrow> True
                     | CreatedBackup \<Rightarrow> True | _ \<Rightarrow> False)"

text \<open>Sample documents and input files.\<close>

definition specExample :: string where
  \<open>specExample = ''AiEscort, "actor1", 5, 1000.0, 2000.0, 0.0''\<close>

definition mastersMTB :: "json list" where
  "mastersMTB = [JArray [JString ''Morrowind.esm'', JInt 79837557],
                 JArray [JString ''Tribunal.esm'', JInt 4565686],
                 JArray [JString ''Bloodmoon.esm'', JInt 9631798]]"

definition mastersMT :: "json list" where
  "mastersMT = [JArray [JString ''Morrowind.esm'', JInt 79837557],
                JArray [JString ''Tribunal.esm'', JInt 4565686]]"

definition headerMTB :: json where
  "headerMTB = JObject [(''type'', JString ''Header''), (''masters'', JArray mastersMTB)]"

definition headerMT :: json where
  "headerMT = JObject [(''type'', JString ''Header''), (''masters'', JArray mastersMT)]"

definition plainScript :: json where
  "plainScript = JObject [(''type'', JString ''Script''), (''id'', JString ''demo''),
                          (''text'', JString ''set x to 5'')]"

definition escortScript :: json where
  "escortScript = JObject [(''type'', JString ''Script''), (''id'', JString ''escort''),
                           (''text'', JString specExample)]"

definition escortDialogue :: json where
  "escortDialogue = JObject [(''type'', JString ''DialogueInfo''),
                             (''script_text'', JString specExample)]"

definition quietDoc :: json where
  "quietDoc = JArray [headerMTB, plainScript]"

definition fileOf :: "string \<Rightarrow> json \<Rightarrow> file_env" where
  "fileOf p d = \<lparr>path = p, toJsonOk = True, jsonOpens = True, parsedJson = Some d,
                  hasConversionTag = (\<lambda>_. False), addConversionTag = (\<lambda>j _. Some j),
                  saveJsonToFile = (\<lambda>_. True), createBackup = True, convertJsonToEsp = True\<rparr>"

text \<open>Sample script texts, and the text of an operand of the first command found.\<close>

definition longZText :: string where
  \<open>longZText = ''AiEscort, "actor1", 5, 1000.0, 2000.0, 1.23456''\<close>

definition longZRewritten :: string where
  \<open>longZRewritten = ''AiEscort, "actor1", 5, 58344.000, 51152.000, 1.235''\<close>

text \<open>Commands at the edges of the number formats: an x that is no double and lies next to
  the border of a cell, zeros with a minus sign, a z half-way between two numbers of three
  decimals and a rotation half-way between two integers; and a dataset with the cell east
  of the origin only.\<close>

definition borderText :: string where
  "borderText = ''AiTravel, 8191.9999999999999, 0, 0''"

definition signText :: string where
  "signText = ''Position, 0, 0, -0, -0''"

definition tieText :: string where
  "tieText = ''Position, 0, 0, 0.0005, 2.5''"

definition borderDb :: Database where
  "borderDb = \<lparr>prepare_ok = True, errmsg = ''not an error'', table_rows = [(1, 0)]\<rparr>"

definition operand_text :: "command_kind \<Rightarrow> nat \<Rightarrow> string \<Rightarrow> string option" where
  "operand_text k i body =
     (case regex_search (regex_of k) body of None \<Rightarrow> None | Some m \<Rightarrow> Some (sub m i))"

definition specOutput :: string where
  \<open>specOutput = ''AiEscort, "actor1", 5, 58344.000, 51152.000, 0.000''\<close>

section \<open>Properties of the rounding\<close>

text \<open>The definitions compute on numerals.\<close>

lemmas double_defs = round_to_double_def exponent_of_def pow2_def round_half_even_def
  compute_bitlen Let_def

lemma pow2_powr: "pow2 e = 2 powr real_of_int e"
  by (auto simp: pow2_def powr_realpow[symmetric] powr_minus field_simps)

lemma pow2_pos: "0 < pow2 e"
  by (simp add: pow2_powr)

lemma pow2_add: "pow2 (a + b) = pow2 a * pow2 b"
  by (simp add: pow2_powr powr_add)

text \<open>\<open>exponent_of\<close> is the binary exponent.\<close>

lemma exponent_of_bounds:
  assumes "0 < a"
  shows "pow2 (exponent_of a) \<le> a \<and> a < pow2 (exponent_of a + 1)"
proof (cases "1 \<le> a")
  case True
  then have p: "0 < \<lfloor>a\<rfloor>" by simp
  from bitlen_bounds [OF p] have b: "2 ^ nat (bitlen \<lfloor>a\<rfloor> - 1) \<le> \<lfloor>a\<rfloor>" "\<lfloor>a\<rfloor> < 2 ^ nat (bitlen \<lfloor>a\<rfloor>)"
    by simp_all
  have pos: "0 < bitlen \<lfloor>a\<rfloor>"
    using p bitlen_nonneg [of "\<lfloor>a\<rfloor> div 2"] by (subst compute_bitlen) simp
  have 1: "pow2 (exponent_of a) \<le> a"
  proof -
    have "real_of_int (2 ^ nat (bitlen \<lfloor>a\<rfloor> - 1)) \<le> real_of_int \<lfloor>a\<rfloor>" using b(1) by linarith
    also have "\<dots> \<le> a" by simp
    finally show ?thesis using True pos by (simp add: exponent_of_def pow2_def)
  qed
  have 2: "a < pow2 (exponent_of a + 1)"
  proof -
    have "\<lfloor>a\<rfloor> + 1 \<le> 2 ^ nat (bitlen \<lfloor>a\<rfloor>)" using b(2) by simp
    then have "real_of_int (\<lfloor>a\<rfloor> + 1) \<le> real_of_int (2 ^ nat (bitlen \<lfloor>a\<rfloor>))" by linarith
    then have u: "real_of_int \<lfloor>a\<rfloor> + 1 \<le> 2 ^ nat (bitlen \<lfloor>a\<rfloor>)" by simp
    have lt: "a < real_of_int \<lfloor>a\<rfloor> + 1" by linarith
    have "a < 2 ^ nat (bitlen \<lfloor>a\<rfloor>)" using u lt by linarith
    then show ?thesis using True pos by (simp add: exponent_of_def pow2_def)
  qed
  show ?thesis using 1 2 by simp
next
  case False
  then have a1: "a < 1" by simp
  let ?q = "1 / a"
  let ?n = "\<lceil>?q\<rceil> - 1"
  have q1: "1 < ?q" using assms a1 by simp
  then have p: "0 < ?n" by linarith
  from bitlen_bounds [OF p] have b: "2 ^ nat (bitlen ?n - 1) \<le> ?n" "?n < 2 ^ nat (bitlen ?n)"
    by simp_all
  have pos: "0 < bitlen ?n"
    using p bitlen_nonneg [of "?n div 2"] by (subst compute_bitlen) simp
  have e: "exponent_of a = - bitlen ?n" using False by (simp add: exponent_of_def)
  have 1: "pow2 (exponent_of a) \<le> a"
  proof -
    have "\<lceil>?q\<rceil> \<le> 2 ^ nat (bitlen ?n)" using b(2) by simp
    then have "real_of_int \<lceil>?q\<rceil> \<le> real_of_int (2 ^ nat (bitlen ?n))" by linarith
    then have u: "real_of_int \<lceil>?q\<rceil> \<le> 2 ^ nat (bitlen ?n)" by simp
    have "?q \<le> real_of_int \<lceil>?q\<rceil>" by (rule le_of_int_ceiling)
    with u have "?q \<le> 2 ^ nat (bitlen ?n)" by linarith
    then have "1 / 2 ^ nat (bitlen ?n) \<le> a" using assms by (simp add: field_simps)
    then show ?thesis using pos by (simp add: e pow2_def)
  qed
  have 2: "a < pow2 (exponent_of a + 1)"
  proof -
    have "real_of_int (2 ^ nat (bitlen ?n - 1)) \<le> real_of_int ?n" using b(1) by linarith
    then have u: "2 ^ nat (bitlen ?n - 1) \<le> real_of_int \<lceil>?q\<rceil> - 1" by simp
    have "real_of_int \<lceil>?q\<rceil> - 1 < ?q" by linarith
    with u have "2 ^ nat (bitlen ?n - 1) < ?q" by linarith
    then have l: "a < 1 / 2 ^ nat (bitlen ?n - 1)" using assms by (simp add: field_simps)
    have "pow2 (exponent_of a + 1) = 1 / 2 ^ nat (bitlen ?n - 1)"
      using pos by (auto simp: e pow2_def)
    then show ?thesis using l by simp
  qed
  show ?thesis using 1 2 by simp
qed

text \<open>Rounding moves a number by half a unit in the last place at most.\<close>

lemma round_half_even_error: "\<bar>real_of_int (round_half_even x) - x\<bar> \<le> 1 / 2"
  unfolding round_half_even_def Let_def by (auto; linarith)

lemma round_to_double_error:
  "\<bar>round_to_double x - x\<bar> \<le> pow2 (max (exponent_of \<bar>x\<bar>) (- 1022) - 53)"
proof (cases "x = 0")
  case True
  then show ?thesis using pow2_pos [of "max (exponent_of \<bar>x\<bar>) (- 1022) - 53"]
    by (simp add: round_to_double_def)
next
  case False
  define e where "e = max (exponent_of \<bar>x\<bar>) (- 1022) - 52"
  define m where "m = round_half_even (\<bar>x\<bar> / pow2 e)"
  have r: "round_to_double x = sgn x * (real_of_int m * pow2 e)"
    using False by (simp add: round_to_double_def Let_def e_def m_def)
  have "\<bar>real_of_int m - \<bar>x\<bar> / pow2 e\<bar> \<le> 1 / 2" unfolding m_def by (rule round_half_even_error)
  then have "\<bar>real_of_int m - \<bar>x\<bar> / pow2 e\<bar> * pow2 e \<le> 1 / 2 * pow2 e"
    using pow2_pos [of e] by (simp add: mult_right_mono)
  moreover have "\<bar>real_of_int m - \<bar>x\<bar> / pow2 e\<bar> * pow2 e = \<bar>real_of_int m * pow2 e - \<bar>x\<bar>\<bar>"
    using pow2_pos [of e] by (simp add: abs_mult [symmetric] field_simps)
  moreover have "\<bar>sgn x * (real_of_int m * pow2 e) - x\<bar> = \<bar>real_of_int m * pow2 e - \<bar>x\<bar>\<bar>"
    using False by (cases "0 < x") (simp_all add: sgn_real_def abs_minus_commute)
  moreover have "1 / 2 * pow2 e = pow2 (e - 1)"
    using pow2_add [of "e - 1" 1] by (simp add: pow2_def)
  ultimately have "\<bar>round_to_double x - x\<bar> \<le> pow2 (e - 1)" by (simp add: r)
  then show ?thesis by (simp add: e_def)
qed

lemma pow2_mono: "a \<le> b \<Longrightarrow> pow2 a \<le> pow2 b"
  by (simp add: pow2_powr)

lemma exponent_of_less:
  assumes "0 < a" "a < pow2 k"
  shows "exponent_of a < k"
proof -
  from exponent_of_bounds [OF assms(1)] assms(2) have "pow2 (exponent_of a) < pow2 k" by simp
  then show ?thesis by (simp add: pow2_powr)
qed

lemma round_to_double_near:
  assumes "\<bar>x\<bar> < pow2 k" "- 1022 < k"
  shows "\<bar>round_to_double x - x\<bar> \<le> pow2 (k - 54)"
proof (cases "x = 0")
  case True
  then show ?thesis using pow2_pos [of "k - 54"] by (simp add: round_to_double_def)
next
  case False
  then have "exponent_of \<bar>x\<bar> < k" using assms(1) by (intro exponent_of_less) simp_all
  then have "max (exponent_of \<bar>x\<bar>) (- 1022) - 53 \<le> k - 54" using assms(2) by simp
  from pow2_mono [OF this] round_to_double_error [of x] show ?thesis by linarith
qed

lemma round_half_even_nonneg: "0 \<le> x \<Longrightarrow> 0 \<le> round_half_even x"
  by (auto simp: round_half_even_def Let_def)

lemma round_to_double_nonneg: "0 \<le> x \<Longrightarrow> 0 \<le> round_to_double x"
  using pow2_pos less_imp_le
  by (auto simp: round_to_double_def Let_def sgn_real_def intro!: mult_nonneg_nonneg round_half_even_nonneg divide_nonneg_pos)

lemma round_to_double_minus: "round_to_double (- x) = - round_to_double x"
  by (simp add: round_to_double_def Let_def sgn_real_def)

text \<open>Where neither the difference nor the sum needs rounding, the double arithmetic of a
  pass gives the translated coordinate of the formula over the reals.\<close>

lemma newDestDouble_exact:
  assumes "round_to_double (dest - to_double (gridOf dest) * 8192) = dest - to_double (gridOf dest) * 8192"
    and "round_to_double (newDest off dest) = newDest off dest"
  shows "newDestDouble off dest = newDest off dest"
  using assms(2) unfolding newDestDouble_def newDest_def Let_def assms(1) .

section \<open>Properties of the validator\<close>

text \<open>
  C1 (as amended).  When the query can be prepared, \<open>isCoordinateValid\<close> returns true
  if and only if the probed cell is a row of the reference dataset or the original,
  unadjusted cell is a member of the override set; the probed cell is
  \<open>(gx + (-7), gy + (-6))\<close> for the Reverse direction (conversionType 2) and \<open>(gx, gy)\<close>
  otherwise, and the override lookup always uses \<open>(gx, gy)\<close>.
\<close>

theorem isCoordinateValid_lookup:
  assumes "prepare_ok db"
  shows "fst (isCoordinateValid db gx gy custom options) \<longleftrightarrow>
           (step_is_row db (fst (probeCell (conversionType options) (gx, gy)))
                           (snd (probeCell (conversionType options) (gx, gy)))
            \<or> (gx, gy) \<in> custom)"
  using assms
  by (simp add: isCoordinateValid_def probeCell_def getGridOffset_def Let_def)

theorem isCoordinateValid_lookup_witness:
  "prepare_ok sampleDb \<and>
   fst (isCoordinateValid sampleDb 17 10 {} reverseOptions) \<and>
   \<not> fst (isCoordinateValid sampleDb 17 10 {} forwardOptions) \<and>
   \<not> fst (isCoordinateValid sampleDb 10 4 {(17, 10)} reverseOptions)"
  using isCoordinateValid_lookup [of sampleDb 17 10 "{}" reverseOptions]
        isCoordinateValid_lookup [of sampleDb 17 10 "{}" forwardOptions]
        isCoordinateValid_lookup [of sampleDb 10 4 "{(17, 10)}" reverseOptions]
  by (simp add: sampleDb_def reverseOptions_def forwardOptions_def probeCell_def step_is_row_def)

text \<open>
  C1 as stated fails when the query cannot be prepared: the cell \<open>(0, 0)\<close> is a member of
  the override set (and a row of the table), yet the function returns false.
\<close>

theorem isCoordinateValid_lookup_counterexample:
  "\<not> (fst (isCoordinateValid brokenDb 0 0 {(0, 0)} forwardOptions) \<longleftrightarrow>
        (step_is_row brokenDb (fst (probeCell 1 (0, 0))) (snd (probeCell 1 (0, 0)))
         \<or> (0, 0) \<in> {(0 :: cint, 0 :: cint)}))"
  by (simp add: isCoordinateValid_def brokenDb_def forwardOptions_def Let_def)

text \<open>
  C3.  If the query cannot be prepared, \<open>isCoordinateValid\<close> writes the error to
  \<open>std::cerr\<close> and returns false, whatever the cell, the table and the override set are;
  so the rewriting passes translate no coordinate pair.
\<close>

theorem isCoordinateValid_fail_closed:
  assumes "\<not> prepare_ok db"
  shows "isCoordinateValid db gx gy custom options =
           (False, [''Error preparing database query: '' @ errmsg db]) \<and>
         translated db offset custom options destX destY = None"
  using assms by (simp add: isCoordinateValid_def translated_def Let_def)

theorem isCoordinateValid_fail_closed_witness:
  "\<not> prepare_ok brokenDb \<and>
   isCoordinateValid brokenDb 10 4 {} forwardOptions =
     (False, [''Error preparing database query: no such table: tes3_ab_cell_x-y_data'']) \<and>
   translated brokenDb (getGridOffset 1) {} forwardOptions 83000 33500 = None"
  using isCoordinateValid_fail_closed [of brokenDb 10 4 "{}" forwardOptions "getGridOffset 1" 83000 33500]
  by (simp add: brokenDb_def)

text \<open>
  C9.  Under a failed query preparation the override set is never consulted: a cell that
  is a member of the override set is still reported as not valid.
\<close>

theorem isCoordinateValid_override_ignored_on_failure:
  assumes "\<not> prepare_ok db" and "(gx, gy) \<in> custom"
  shows "\<not> fst (isCoordinateValid db gx gy custom options)"
  using assms by (simp add: isCoordinateValid_def Let_def)

theorem isCoordinateValid_override_ignored_on_failure_witness:
  "\<not> prepare_ok brokenDb \<and> (12, - 3) \<in> {(12 :: cint, - 3 :: cint)} \<and>
   \<not> fst (isCoordinateValid brokenDb 12 (- 3) {(12, - 3)} reverseOptions)"
  using isCoordinateValid_override_ignored_on_failure
          [of brokenDb 12 "- 3" "{(12, - 3)}" reverseOptions]
  by (simp add: brokenDb_def)

section \<open>Properties of the coordinate translation\<close>

lemma to_double_of_int: "in_int_range k \<Longrightarrow> to_double (of_int k) = real_of_int k"
  unfolding in_int_range_def to_double_def
  by (simp add: sint_sbintrunc' signed_take_bit_int_eq_self del: of_int_sint)





text \<open>For a cell and a shifted cell in the range of \<open>int\<close>, the double arithmetic of a
  pass gives the coordinate shifted by the offset times 8192 up to the two roundings, which
  are below \<open>1 / 256\<close> together.\<close>

lemma newDestDouble_near:
  assumes "in_int_range \<lfloor>d / 8192\<rfloor>" "in_int_range (\<lfloor>d / 8192\<rfloor> + sint off)"
  shows "\<bar>newDestDouble off d - (d + real_of_int (sint off) * 8192)\<bar> \<le> 1 / 256"
proof -
  let ?g = "\<lfloor>d / 8192\<rfloor>"
  define r where "r = d - real_of_int ?g * 8192"
  define N where "N = real_of_int (?g + sint off) * 8192"
  have gd: "to_double (gridOf d) = real_of_int ?g"
    using assms(1) by (simp add: gridOf_def to_double_of_int)
  have "gridOf d + off = of_int (?g + sint off)" by (simp add: gridOf_def)
  then have nd: "to_double (gridOf d + off) = real_of_int (?g + sint off)"
    using assms(2) by (simp only: to_double_of_int)
  have nD: "newDestDouble off d = round_to_double (N + round_to_double r)"
    unfolding newDestDouble_def Let_def gd nd N_def r_def ..
  have r0: "0 \<le> r" and r1: "r < 8192"
  proof -
    have a1: "real_of_int ?g \<le> d / 8192" by (rule of_int_floor_le)
    show "0 \<le> r" unfolding r_def using a1 by linarith
    have a2: "d / 8192 < real_of_int ?g + 1" by linarith
    show "r < 8192" unfolding r_def using a2 by linarith
  qed
  have e1: "\<bar>round_to_double r - r\<bar> \<le> pow2 (13 - 54)"
    by (rule round_to_double_near) (use r0 r1 in \<open>simp_all add: pow2_def\<close>)
  have p41: "pow2 (13 - 54) = 1 / 2 ^ 41" by (simp add: pow2_def)
  have Nb: "\<bar>N\<bar> \<le> 2 ^ 31 * 8192"
  proof -
    have "\<bar>?g + sint off\<bar> \<le> 2 ^ 31" using assms(2) by (simp add: in_int_range_def abs_le_iff)
    then have "real_of_int \<bar>?g + sint off\<bar> \<le> real_of_int (2 ^ 31)" by (simp only: of_int_le_iff)
    then have "\<bar>real_of_int (?g + sint off)\<bar> \<le> 2 ^ 31" by simp
    then have "\<bar>real_of_int (?g + sint off) * 8192\<bar> \<le> 2 ^ 31 * 8192" by (simp add: abs_mult)
    then show ?thesis unfolding N_def .
  qed
  have sb: "\<bar>N + round_to_double r\<bar> < pow2 45"
  proof -
    have "\<bar>round_to_double r\<bar> \<le> \<bar>r\<bar> + 1 / 2 ^ 41" using e1 p41 by linarith
    then have "\<bar>round_to_double r\<bar> \<le> 8193" using r0 r1 by simp
    then have "\<bar>N + round_to_double r\<bar> \<le> 2 ^ 31 * 8192 + 8193" using Nb by linarith
    then show ?thesis by (simp add: pow2_def)
  qed
  have e2: "\<bar>round_to_double (N + round_to_double r) - (N + round_to_double r)\<bar> \<le> pow2 (45 - 54)"
    by (rule round_to_double_near [OF sb]) simp
  have p9: "pow2 (45 - 54) = 1 / 2 ^ 9" by (simp add: pow2_def)
  have "d + real_of_int (sint off) * 8192 = N + r"
    unfolding N_def r_def by (simp add: algebra_simps)
  then have "\<bar>newDestDouble off d - (d + real_of_int (sint off) * 8192)\<bar>
      \<le> 1 / 2 ^ 9 + 1 / 2 ^ 41"
    using e1 e2 unfolding nD p41 p9 by linarith
  also have "\<dots> \<le> 1 / 256" by simp
  finally show ?thesis .
qed

section \<open>Properties of the structured passes\<close>

lemma bindE_simps [simp]: "bindE (Inr x) f = f x" "bindE (Inl e) f = Inl e"
  by (simp_all add: bindE_def)

lemma get_double_number: "is_number j \<Longrightarrow> get_double j = Inr (number_of j)"
  by (cases j) (simp_all add: is_number_def get_double_def number_of_def)

lemma value_string_id: "id_is_string r \<Longrightarrow> \<exists>s. value_string r ''id'' d = Inr s"
  by (auto simp: id_is_string_def value_string_def get_string_def split: json.splits option.splits)

lemma get_bool_deleted:
  "deleted_is_bool r \<Longrightarrow> contains r ''deleted'' \<Longrightarrow> get_bool (field_of r ''deleted'') = Inr (marked_deleted r)"
  by (auto simp: deleted_is_bool_def marked_deleted_def get_bool_def split: json.splits)

lemma translateReference_well_formed:
  assumes "well_formed_reference r"
  shows "translateReference offset options r flag =
           Inr (if eligible r then shifted offset r else r, if eligible r then 1 else flag)"
proof -
  from assms have idr: "id_is_string r" and del: "deleted_is_bool r"
    by (simp_all add: well_formed_reference_def)
  obtain s where s: "value_string r ''id'' ''Unknown ID'' = Inr s"
    using value_string_id [OF idr] by blast
  have d: "(if contains r ''deleted'' then get_bool (field_of r ''deleted'') else Inr False) = Inr (marked_deleted r)"
    using get_bool_deleted [OF del] by (simp add: marked_deleted_def)
  show ?thesis
  proof (cases "marked_deleted r")
    case True
    then show ?thesis by (simp add: translateReference_def d eligible_def)
  next
    case nd: False
    show ?thesis
    proof (cases "has_translation_pair r")
      case True
      with assms have n: "is_number (elements (field_of r ''translation'') ! 0)"
                         "is_number (elements (field_of r ''translation'') ! Suc 0)"
        by (simp_all add: well_formed_reference_def)
      from True have len: "2 \<le> length (elements (field_of r ''translation''))"
        by (simp add: has_translation_pair_def)
      have e: "eligible r" using nd True n by (simp add: eligible_def)
      from len have el: "element_at (elements (field_of r ''translation'')) 0 = elements (field_of r ''translation'') ! 0"
          "element_at (elements (field_of r ''translation'')) (Suc 0) = elements (field_of r ''translation'') ! Suc 0"
        by (auto simp: element_at_def)
      from True have c: "contains r ''temporary'' \<and> contains r ''translation'' \<and>
             is_array (field_of r ''translation'') \<and>
             2 \<le> length (elements (field_of r ''translation''))"
        by (simp add: has_translation_pair_def)
      show ?thesis
        unfolding translateReference_def d
        by (simp add: nd c s e el get_double_number n shifted_def Let_def)
    next
      case False
      then have e: "\<not> eligible r" by (simp add: eligible_def)
      from False have c: "(contains r ''temporary'' \<and> contains r ''translation'' \<and>
             is_array (field_of r ''translation'') \<and>
             2 \<le> length (elements (field_of r ''translation''))) = False"
        by (simp add: has_translation_pair_def)
      show ?thesis
        unfolding translateReference_def d c
        by (simp add: nd s e)
    qed
  qed
qed

lemma forEach_translateReference:
  "\<forall>r\<in>set refs. well_formed_reference r \<Longrightarrow>
   forEach (translateReference offset options) refs flag =
     Inr (map (\<lambda>r. if eligible r then shifted offset r else r) refs,
          if \<exists>r\<in>set refs. eligible r then 1 else flag)"
proof (induction refs arbitrary: flag)
  case Nil
  then show ?case by simp
next
  case (Cons r refs)
  then have wf: "well_formed_reference r" and rest: "\<forall>r\<in>set refs. well_formed_reference r"
    by simp_all
  show ?case
    by (simp add: translateReference_well_formed [OF wf] Cons.IH [OF rest])
qed

lemma map_of_assign: "map_of (assign k v kvs) k' = (if k' = k then Some v else map_of kvs k')"
  by (induction kvs) auto

lemma field_of_set_field_other: "k' \<noteq> k \<Longrightarrow> field_of (set_field j k v) k' = field_of j k'"
  by (cases j) (simp_all add: field_of_def set_field_def map_of_assign)

lemma field_of_set_field_same: "contains j k \<Longrightarrow> field_of (set_field j k v) k = v"
  by (cases j) (simp_all add: field_of_def set_field_def map_of_assign contains_def)

text \<open>
  C6.  On a cell whose references have the shape the decoder writes, the sub-pass succeeds
  and changes exactly the eligible references: a reference that is not marked deleted and
  carries \<open>temporary\<close> and a \<open>translation\<close> array of at least two numeric components gets
  \<open>translation[0]\<close> shifted by \<open>offsetX * 8192\<close> and \<open>translation[1]\<close> by
  \<open>offsetY * 8192\<close>; every other reference, the deleted ones among them, is left as it
  is.  Read back from the returned cell: every member but \<open>references\<close> is as before; the
  array \<open>references\<close> has its length; an eligible reference holds under \<open>translation\<close>
  the two sums, each rounded to a double, followed by the components from the third on,
  and is as before in every other member; any other reference is the one it was.  The
  function takes neither the dataset nor the override set: no validity lookup.
\<close>

theorem processTranslation_shifts:
  assumes "contains cell ''references''"
    and "field_of cell ''references'' = JArray refs"
    and "\<forall>r\<in>set refs. well_formed_reference r"
  shows "processTranslation cell offset flag options =
           Inr (set_field cell ''references''
                  (JArray (map (\<lambda>r. if eligible r then shifted offset r else r) refs)),
                if \<exists>r\<in>set refs. eligible r then 1 else flag) \<and>
         (case processTranslation cell offset flag options of
            Inl e \<Rightarrow> False
          | Inr (cell', flag') \<Rightarrow>
              flag' = (if \<exists>r\<in>set refs. eligible r then 1 else flag) \<and>
              (\<forall>k. k \<noteq> ''references'' \<longrightarrow> field_of cell' k = field_of cell k) \<and>
              is_array (field_of cell' ''references'') \<and>
              length (elements (field_of cell' ''references'')) = length refs \<and>
              (\<forall>i<length refs.
                 if eligible (refs ! i)
                 then field_of (elements (field_of cell' ''references'') ! i) ''translation'' =
                        JArray ((elements (field_of (refs ! i) ''translation''))
                          [0 := JFloat (round_to_double
                                   (number_of (elements (field_of (refs ! i) ''translation'') ! 0) +
                                    real_of_int (sint (offsetX offset * 8192)))),
                           1 := JFloat (round_to_double
                                   (number_of (elements (field_of (refs ! i) ''translation'') ! 1) +
                                    real_of_int (sint (offsetY offset * 8192))))]) \<and>
                      (\<forall>k. k \<noteq> ''translation'' \<longrightarrow>
                         field_of (elements (field_of cell' ''references'') ! i) k =
                         field_of (refs ! i) k)
                 else elements (field_of cell' ''references'') ! i = refs ! i))"
proof (intro conjI)
  let ?refs' = "map (\<lambda>r. if eligible r then shifted offset r else r) refs"
  show run: "processTranslation cell offset flag options =
           Inr (set_field cell ''references'' (JArray ?refs'),
                if \<exists>r\<in>set refs. eligible r then 1 else flag)"
    using assms
    by (simp add: processTranslation_def is_array_def elements_def forEach_translateReference)
  have stored: "field_of (set_field cell ''references'' (JArray ?refs')) ''references'' = JArray ?refs'"
    using assms(1) by (rule field_of_set_field_same)
  have moved: "field_of (shifted offset r) ''translation'' =
              JArray ((elements (field_of r ''translation''))
                [0 := JFloat (round_to_double
                         (number_of (elements (field_of r ''translation'') ! 0) +
                          real_of_int (sint (offsetX offset * 8192)))),
                 1 := JFloat (round_to_double
                         (number_of (elements (field_of r ''translation'') ! 1) +
                          real_of_int (sint (offsetY offset * 8192))))])" if "eligible r" for r
  proof -
    from that have c: "contains r ''translation''"
      by (simp add: eligible_def has_translation_pair_def)
    show ?thesis
      unfolding shifted_def Let_def to_double_def
      by (simp only: field_of_set_field_same [OF c])
  qed
  have other: "field_of (shifted offset r) k = field_of r k" if "k \<noteq> ''translation''" for r k
    using that by (simp add: shifted_def Let_def field_of_set_field_other)
  show "case processTranslation cell offset flag options of
            Inl e \<Rightarrow> False
          | Inr (cell', flag') \<Rightarrow>
              flag' = (if \<exists>r\<in>set refs. eligible r then 1 else flag) \<and>
              (\<forall>k. k \<noteq> ''references'' \<longrightarrow> field_of cell' k = field_of cell k) \<and>
              is_array (field_of cell' ''references'') \<and>
              length (elements (field_of cell' ''references'')) = length refs \<and>
              (\<forall>i<length refs.
                 if eligible (refs ! i)
                 then field_of (elements (field_of cell' ''references'') ! i) ''translation'' =
                        JArray ((elements (field_of (refs ! i) ''translation''))
                          [0 := JFloat (round_to_double
                                   (number_of (elements (field_of (refs ! i) ''translation'') ! 0) +
                                    real_of_int (sint (offsetX offset * 8192)))),
                           1 := JFloat (round_to_double
                                   (number_of (elements (field_of (refs ! i) ''translation'') ! 1) +
                                    real_of_int (sint (offsetY offset * 8192))))]) \<and>
                      (\<forall>k. k \<noteq> ''translation'' \<longrightarrow>
                         field_of (elements (field_of cell' ''references'') ! i) k =
                         field_of (refs ! i) k)
                 else elements (field_of cell' ''references'') ! i = refs ! i)"
    unfolding run
    by (simp add: stored field_of_set_field_other is_array_def elements_def moved other)
qed

lemma processTranslation_frame:
  assumes "processTranslation j offset flag options = Inr (j', flag')" and "k \<noteq> ''references''"
  shows "field_of j' k = field_of j k"
  using assms
  by (auto simp: processTranslation_def bindE_def field_of_set_field_other
           split: if_splits sum.splits prod.splits)

lemma gridRecord_with_top_level_grid:
  assumes "contains item ''type''" "field_of item ''type'' = JString t"
          "t \<in> {''Cell'', ''Landscape'', ''PathGrid''}"
    and "contains item ''grid''" "field_of item ''grid'' = JArray g"
  shows "gridRecord db offset custom options item flag =
           bindE (readGrid g) (\<lambda>(gridX, gridY).
             if fst (isCoordinateValid db gridX gridY custom options)
             then bindE (if t = ''Cell''
                         then processTranslation
                                (set_field item ''grid''
                                   (writeGrid g (gridX + offsetX offset) (gridY + offsetY offset)))
                                offset flag options
                         else Inr (set_field item ''grid''
                                     (writeGrid g (gridX + offsetX offset) (gridY + offsetY offset)),
                                   flag))
                    (\<lambda>(item'', flag'). Inr (item'', 1))
             else Inr (item, flag))"
proof -
  have tin: "(t \<noteq> ''Cell'' \<and> t \<noteq> ''Landscape'' \<and> t \<noteq> ''PathGrid'') = False"
    using assms(3) by auto
  show ?thesis
    unfolding gridRecord_def Let_def
    by (simp add: assms(1,2,4,5) tin get_string_def is_array_def elements_def cong: if_cong)
qed

lemma gridRecord_top_level_grid_only:
  assumes ty: "contains item ''type''" "field_of item ''type'' = JString t"
              "t \<in> {''Cell'', ''Landscape'', ''PathGrid''}"
    and top: "contains item ''grid''" "field_of item ''grid'' = JArray g"
    and nested: "contains item ''data''" "contains (field_of item ''data'') ''grid''"
                "is_array (field_of (field_of item ''data'') ''grid'')"
    and res: "gridRecord db offset custom options item flag = Inr (item', flag')"
  shows "field_of item' ''data'' = field_of item ''data'' \<and>
         (\<exists>gridX gridY. readGrid g = Inr (gridX, gridY) \<and>
            field_of item' ''grid'' =
              (if fst (isCoordinateValid db gridX gridY custom options)
               then writeGrid g (gridX + offsetX offset) (gridY + offsetY offset)
               else JArray g))"
proof -
  note unfolded = gridRecord_with_top_level_grid [OF ty top, of db offset custom options flag]
  obtain gridX gridY where rg: "readGrid g = Inr (gridX, gridY)"
    using res unfolding unfolded by (cases "readGrid g") auto
  let ?item1 = "set_field item ''grid'' (writeGrid g (gridX + offsetX offset) (gridY + offsetY offset))"
  show ?thesis
  proof (cases "fst (isCoordinateValid db gridX gridY custom options)")
    case False
    then have "item' = item"
      using res unfolding unfolded by (simp add: rg)
    then show ?thesis using rg False top by simp
  next
    case True
    have r: "bindE (if t = ''Cell'' then processTranslation ?item1 offset flag options
                   else Inr (?item1, flag)) (\<lambda>(item'', flag'). Inr (item'', 1)) = Inr (item', flag')"
      using res unfolding unfolded by (simp add: rg True)
    have frame: "field_of item' k = field_of ?item1 k" if "k \<noteq> ''references''" for k
    proof (cases "t = ''Cell''")
      case True
      with r obtain f where "processTranslation ?item1 offset flag options = Inr (item', f)"
        by (auto simp: bindE_def split: sum.splits prod.splits)
      then show ?thesis using processTranslation_frame that by blast
    next
      case False
      with r show ?thesis by simp
    qed
    have "field_of item' ''data'' = field_of item ''data''"
      using frame [of "''data''"] by (simp add: field_of_set_field_other)
    moreover have "field_of item' ''grid'' = writeGrid g (gridX + offsetX offset) (gridY + offsetY offset)"
      using frame [of "''grid''"] top(1) by (simp add: field_of_set_field_same)
    ultimately show ?thesis using rg True by simp
  qed
qed

lemma sample_refs_well_formed:
  "well_formed_reference barrelRef" "well_formed_reference deletedRef" "well_formed_reference plainRef"
  by (simp_all add: well_formed_reference_def barrelRef_def deletedRef_def plainRef_def
        id_is_string_def deleted_is_bool_def has_translation_pair_def contains_def field_of_def
        is_array_def elements_def is_number_def)

lemma sample_refs_eligible:
  "eligible barrelRef" "\<not> eligible deletedRef" "\<not> eligible plainRef"
  by (simp_all add: eligible_def marked_deleted_def barrelRef_def deletedRef_def plainRef_def
        has_translation_pair_def contains_def field_of_def
        is_array_def elements_def is_number_def)

lemma sample_doubles:
  "round_to_double 83000 = 83000" "round_to_double 33500 = 33500"
  "round_to_double 140344 = 140344" "round_to_double 82652 = 82652"
  by (simp_all add: double_defs)

lemma shifted_barrelRef:
  "shifted (getGridOffset 1) barrelRef =
     JObject [(''id'', JString ''barrel''), (''temporary'', JString ''a1''),
              (''translation'', JArray [JFloat 140344, JFloat 82652, JFloat 12])]"
  by (simp add: shifted_def barrelRef_def getGridOffset_def field_of_def elements_def set_field_def
        number_of_def to_double_def sample_doubles Let_def)

theorem processTranslation_shifts_witness:
  "contains sampleCell ''references'' \<and>
   field_of sampleCell ''references'' = JArray [barrelRef, deletedRef, plainRef] \<and>
   well_formed_reference barrelRef \<and> well_formed_reference deletedRef \<and>
   well_formed_reference plainRef \<and>
   eligible barrelRef \<and> \<not> eligible deletedRef \<and> \<not> eligible plainRef \<and>
   field_of barrelRef ''translation'' = JArray [JFloat 83000, JInt 33500, JFloat 12] \<and>
   processTranslation sampleCell (getGridOffset 1) 0 forwardOptions =
     Inr (JObject
            [(''type'', JString ''Cell''),
             (''grid'', JArray [JInt 10, JInt 4]),
             (''data'', JObject [(''grid'', JArray [JInt 3, JInt 3])]),
             (''references'', JArray
                [JObject [(''id'', JString ''barrel''), (''temporary'', JString ''a1''),
                          (''translation'', JArray [JFloat 140344, JFloat 82652, JFloat 12])],
                 JObject [(''id'', JString ''crate''), (''deleted'', JBool True),
                          (''temporary'', JString ''a2''),
                          (''translation'', JArray [JInt 1, JInt 2, JInt 3])],
                 JObject [(''id'', JString ''door'')]])], 1)"
proof -
  have c: "contains sampleCell ''references''"
    by (simp add: sampleCell_def contains_def)
  have f: "field_of sampleCell ''references'' = JArray [barrelRef, deletedRef, plainRef]"
    by (simp add: sampleCell_def field_of_def)
  have w: "\<forall>r\<in>set [barrelRef, deletedRef, plainRef]. well_formed_reference r"
    by (simp add: sample_refs_well_formed)
  have t: "field_of barrelRef ''translation'' = JArray [JFloat 83000, JInt 33500, JFloat 12]"
    by (simp add: barrelRef_def field_of_def)
  have l: "set_field sampleCell ''references''
             (JArray [shifted (getGridOffset 1) barrelRef, deletedRef, plainRef]) =
           JObject
            [(''type'', JString ''Cell''),
             (''grid'', JArray [JInt 10, JInt 4]),
             (''data'', JObject [(''grid'', JArray [JInt 3, JInt 3])]),
             (''references'', JArray
                [JObject [(''id'', JString ''barrel''), (''temporary'', JString ''a1''),
                          (''translation'', JArray [JFloat 140344, JFloat 82652, JFloat 12])],
                 JObject [(''id'', JString ''crate''), (''deleted'', JBool True),
                          (''temporary'', JString ''a2''),
                          (''translation'', JArray [JInt 1, JInt 2, JInt 3])],
                 JObject [(''id'', JString ''door'')]])]"
    by (simp add: shifted_barrelRef sampleCell_def deletedRef_def plainRef_def set_field_def)
  from processTranslation_shifts [OF c f w, of "getGridOffset 1" 0 forwardOptions]
  have "processTranslation sampleCell (getGridOffset 1) 0 forwardOptions =
          Inr (set_field sampleCell ''references''
                 (JArray [shifted (getGridOffset 1) barrelRef, deletedRef, plainRef]), 1)"
    by (simp add: sample_refs_eligible)
  then have p: "processTranslation sampleCell (getGridOffset 1) 0 forwardOptions =
     Inr (JObject
            [(''type'', JString ''Cell''),
             (''grid'', JArray [JInt 10, JInt 4]),
             (''data'', JObject [(''grid'', JArray [JInt 3, JInt 3])]),
             (''references'', JArray
                [JObject [(''id'', JString ''barrel''), (''temporary'', JString ''a1''),
                          (''translation'', JArray [JFloat 140344, JFloat 82652, JFloat 12])],
                 JObject [(''id'', JString ''crate''), (''deleted'', JBool True),
                          (''temporary'', JString ''a2''),
                          (''translation'', JArray [JInt 1, JInt 2, JInt 3])],
                 JObject [(''id'', JString ''door'')]])], 1)"
    unfolding l .
  show ?thesis
    by (intro conjI c f t p sample_refs_well_formed sample_refs_eligible)
qed

lemma gridRecord_sampleCell:
  "gridRecord sampleDb (getGridOffset 1) {} forwardOptions sampleCell 0 = Inr (movedCell, 1)"
proof -
  have ty: "contains sampleCell ''type''" "field_of sampleCell ''type'' = JString ''Cell''"
      "''Cell'' \<in> {''Cell'', ''Landscape'', ''PathGrid''}"
    by (simp_all add: sampleCell_def contains_def field_of_def)
  have top: "contains sampleCell ''grid''" "field_of sampleCell ''grid'' = JArray [JInt 10, JInt 4]"
    by (simp_all add: sampleCell_def contains_def field_of_def)
  have nested: "contains sampleCell ''data''" "contains (field_of sampleCell ''data'') ''grid''"
      "is_array (field_of (field_of sampleCell ''data'') ''grid'')"
    by (simp_all add: sampleCell_def contains_def field_of_def is_array_def)
  have rg: "readGrid [JInt 10, JInt 4] = Inr (10, 4)"
    by (simp add: readGrid_def element_at_def get_int_def)
  have v: "fst (isCoordinateValid sampleDb 10 4 {} forwardOptions)"
    by (simp add: isCoordinateValid_def sampleDb_def forwardOptions_def step_is_row_def Let_def)
  have c: "contains (set_field sampleCell ''grid'' (writeGrid [JInt 10, JInt 4] 17 10)) ''references''"
    by (simp add: sampleCell_def contains_def set_field_def writeGrid_def)
  have f: "field_of (set_field sampleCell ''grid'' (writeGrid [JInt 10, JInt 4] 17 10)) ''references''
             = JArray [barrelRef, deletedRef, plainRef]"
    by (simp add: sampleCell_def field_of_def set_field_def writeGrid_def)
  have w: "\<forall>r\<in>set [barrelRef, deletedRef, plainRef]. well_formed_reference r"
    by (simp add: sample_refs_well_formed)
  have pt: "processTranslation (set_field sampleCell ''grid'' (writeGrid [JInt 10, JInt 4] 17 10))
              (getGridOffset 1) 0 forwardOptions = Inr (movedCell, 1)"
    unfolding processTranslation_def
    by (simp add: c f is_array_def elements_def translateReference_well_formed
          sample_refs_well_formed sample_refs_eligible shifted_barrelRef)
       (simp add: sampleCell_def movedCell_def set_field_def writeGrid_def)
  have o: "offsetX (getGridOffset 1) = 7" "offsetY (getGridOffset 1) = 6"
    by (simp_all add: getGridOffset_def)
  have res: "gridRecord sampleDb (getGridOffset 1) {} forwardOptions sampleCell 0 = Inr (movedCell, 1)"
    unfolding gridRecord_with_top_level_grid [OF ty top]
    by (simp add: rg v o pt)
  show ?thesis by (rule res)
qed

lemma forEach_pointwise:
  "forEach f xs s = Inr (xs', s') \<Longrightarrow>
   length xs' = length xs \<and> (\<forall>i<length xs. \<exists>s1 s2. f (xs ! i) s1 = Inr (xs' ! i, s2))"
proof (induction xs arbitrary: s xs' s')
  case Nil
  then show ?case by simp
next
  case (Cons x xs)
  from Cons.prems obtain y s1 ys where
    fx: "f x s = Inr (y, s1)" and rest: "forEach f xs s1 = Inr (ys, s')" and xs': "xs' = y # ys"
    by (auto simp: bindE_def split: sum.splits prod.splits)
  from Cons.IH [OF rest] have len: "length ys = length xs"
    and pt: "\<forall>i<length xs. \<exists>s1 s2. f (xs ! i) s1 = Inr (ys ! i, s2)" by simp_all
  show ?case
  proof (intro conjI allI impI)
    show "length xs' = length (x # xs)" using len xs' by simp
  next
    fix i assume "i < length (x # xs)"
    then show "\<exists>s1 s2. f ((x # xs) ! i) s1 = Inr (xs' ! i, s2)"
      using fx pt xs' by (cases i) auto
  qed
qed

text \<open>
  C10.  For a Cell, Landscape or PathGrid record with a grid array both at the top level
  and under \<open>data\<close>, a run of \<open>processGridValues\<close> that returns leaves the \<open>data\<close>
  member (hence \<open>data.grid\<close>) as it was; the cell it validates is read from the top-level
  grid, and the top-level grid is the one rewritten when the cell is valid.
\<close>

theorem processGridValues_top_level_grid_only:
  assumes run: "processGridValues db (JArray records) offset flag custom options = Inr (doc', flag')"
    and i: "i < length records"
    and ty: "contains (records ! i) ''type''" "field_of (records ! i) ''type'' = JString t"
            "t \<in> {''Cell'', ''Landscape'', ''PathGrid''}"
    and top: "contains (records ! i) ''grid''" "field_of (records ! i) ''grid'' = JArray g"
    and nested: "contains (records ! i) ''data''" "contains (field_of (records ! i) ''data'') ''grid''"
                "is_array (field_of (field_of (records ! i) ''data'') ''grid'')"
  shows "\<exists>records'. doc' = JArray records' \<and> length records' = length records \<and>
           field_of (records' ! i) ''data'' = field_of (records ! i) ''data'' \<and>
           (\<exists>gridX gridY. readGrid g = Inr (gridX, gridY) \<and>
              field_of (records' ! i) ''grid'' =
                (if fst (isCoordinateValid db gridX gridY custom options)
                 then writeGrid g (gridX + offsetX offset) (gridY + offsetY offset)
                 else JArray g))"
proof -
  from run obtain records' where
    fe: "forEach (gridRecord db offset custom options) records flag = Inr (records', flag')"
    and doc': "doc' = JArray records'"
    by (auto simp: processGridValues_def forItems_def bindE_def split: sum.splits prod.splits)
  from forEach_pointwise [OF fe] i obtain s1 s2 where
    len: "length records' = length records"
    and step: "gridRecord db offset custom options (records ! i) s1 = Inr (records' ! i, s2)"
    by blast
  from gridRecord_top_level_grid_only [OF ty top nested step] doc' len
  show ?thesis by simp
qed

theorem processGridValues_top_level_grid_only_witness:
  "processGridValues sampleDb (JArray [sampleCell]) (getGridOffset 1) 0 {} forwardOptions
     = Inr (JArray [movedCell], 1) \<and>
   field_of sampleCell ''grid'' = JArray [JInt 10, JInt 4] \<and>
   field_of sampleCell ''data'' = JObject [(''grid'', JArray [JInt 3, JInt 3])] \<and>
   field_of movedCell ''grid'' = JArray [JInt 17, JInt 10] \<and>
   field_of movedCell ''data'' = JObject [(''grid'', JArray [JInt 3, JInt 3])]"
proof -
  have ty: "contains ([sampleCell] ! 0) ''type''" "field_of ([sampleCell] ! 0) ''type'' = JString ''Cell''"
      "''Cell'' \<in> {''Cell'', ''Landscape'', ''PathGrid''}"
    by (simp_all add: sampleCell_def contains_def field_of_def)
  have top: "contains ([sampleCell] ! 0) ''grid''" "field_of ([sampleCell] ! 0) ''grid'' = JArray [JInt 10, JInt 4]"
    by (simp_all add: sampleCell_def contains_def field_of_def)
  have nested: "contains ([sampleCell] ! 0) ''data''" "contains (field_of ([sampleCell] ! 0) ''data'') ''grid''"
      "is_array (field_of (field_of ([sampleCell] ! 0) ''data'') ''grid'')"
    by (simp_all add: sampleCell_def contains_def field_of_def is_array_def)
  have run: "processGridValues sampleDb (JArray [sampleCell]) (getGridOffset 1) 0 {} forwardOptions
     = Inr (JArray [movedCell], 1)"
    by (simp add: processGridValues_def forItems_def gridRecord_sampleCell)
  have i: "0 < length [sampleCell]" by simp
  have d: "field_of sampleCell ''data'' = JObject [(''grid'', JArray [JInt 3, JInt 3])]"
    by (simp add: sampleCell_def field_of_def)
  have g: "field_of movedCell ''grid'' = JArray [JInt 17, JInt 10]"
    by (simp add: movedCell_def field_of_def)
  show ?thesis
    using processGridValues_top_level_grid_only [OF run i ty top nested]
    by (simp add: run d g top [simplified])
qed

lemma position_upto_0: "position_upto name ms 0 = None"
  by (simp add: position_upto_def)

lemma position_upto_Suc:
  "position_upto name ms (Suc n) =
     (if names_master name (ms ! n) then Some n else position_upto name ms n)"
  by (simp add: position_upto_def)

lemma position_upto_length: "position_upto name ms (length ms) = position_of name ms"
  by (simp add: position_upto_def position_of_def)

section \<open>Properties of the dependency check\<close>

lemma scanMasters_append:
  "scanMasters masters (is @ [i]) pos =
     bindE (scanMasters masters is pos) (masterStep masters i)"
  by (induction "is" arbitrary: pos) (auto simp: bindE_def split: sum.splits)

lemma masterStep_well_formed:
  assumes "n < length ms" "well_formed_master (ms ! n)"
  shows "masterStep (JArray ms) n pos =
           Inr \<lparr>mwPos = (if names_master ''Morrowind.esm'' (ms ! n) then Some n else mwPos pos),
                tPos = (if names_master ''Tribunal.esm'' (ms ! n) then Some n else tPos pos),
                bPos = (if names_master ''Bloodmoon.esm'' (ms ! n) then Some n else bPos pos)\<rparr>"
proof (cases "is_array (ms ! n) \<and> elements (ms ! n) \<noteq> []")
  case False
  then show ?thesis
    by (auto simp: masterStep_def const_index_def names_master_def)
next
  case True
  with assms(2) obtain s where s: "elements (ms ! n) ! 0 = JString s"
    by (auto simp: well_formed_master_def split: json.splits)
  show ?thesis
    using True s by (simp add: masterStep_def const_index_def names_master_def get_string_def)
qed

lemma scanMasters_positions:
  assumes "\<forall>m\<in>set ms. well_formed_master m" "n \<le> length ms"
  shows "scanMasters (JArray ms) [0..<n] \<lparr>mwPos = None, tPos = None, bPos = None\<rparr> =
           Inr \<lparr>mwPos = position_upto ''Morrowind.esm'' ms n,
                tPos = position_upto ''Tribunal.esm'' ms n,
                bPos = position_upto ''Bloodmoon.esm'' ms n\<rparr>"
  using assms(2)
proof (induction n)
  case 0
  then show ?case by (simp add: position_upto_0)
next
  case (Suc n)
  then have n: "n < length ms" by simp
  with assms(1) have wf: "well_formed_master (ms ! n)" by simp
  have ih: "scanMasters (JArray ms) [0..<n] \<lparr>mwPos = None, tPos = None, bPos = None\<rparr> =
           Inr \<lparr>mwPos = position_upto ''Morrowind.esm'' ms n,
                tPos = position_upto ''Tribunal.esm'' ms n,
                bPos = position_upto ''Bloodmoon.esm'' ms n\<rparr>"
    using Suc by simp
  show ?case
    by (simp add: scanMasters_append ih masterStep_well_formed [OF n wf] position_upto_Suc)
qed

lemma checkDependencyOrder_header:
  assumes "find is_header (iterate doc) = Some header"
    and "contains header ''masters''" "field_of header ''masters'' = JArray ms"
    and "\<forall>m\<in>set ms. well_formed_master m"
  shows "checkDependencyOrder doc = Inr (dependency_order_ok ms, {})"
proof -
  have scan: "scanMasters (JArray ms) [0..<length ms] \<lparr>mwPos = None, tPos = None, bPos = None\<rparr> =
           Inr \<lparr>mwPos = position_of ''Morrowind.esm'' ms,
                tPos = position_of ''Tribunal.esm'' ms,
                bPos = position_of ''Bloodmoon.esm'' ms\<rparr>"
    using scanMasters_positions [OF assms(4), of "length ms"] by (simp add: position_upto_length)
  show ?thesis
    unfolding checkDependencyOrder_def
    by (simp add: assms(1,2,3) size_of_def scan dependency_order_ok_def Let_def
             split: option.splits)
qed

lemma checkDependencyOrder_missing:
  "find is_header (iterate doc) = None \<Longrightarrow> checkDependencyOrder doc = Inr (False, {})"
  "find is_header (iterate doc) = Some header \<Longrightarrow> \<not> contains header ''masters'' \<Longrightarrow>
     checkDependencyOrder doc = Inr (False, {})"
  by (simp_all add: checkDependencyOrder_def)


section \<open>Properties of parsing and printing\<close>

text \<open>What a printed number says, read as \<open>decimal_value\<close> reads a number: the digits of
  \<open>to_digits\<close> are read back as the number they were made of, so the text that
  \<open>fixed p\<close> writes denotes the magnitude rounded to \<open>p\<close> decimals, with the sign of the
  sign bit, which is the value of the double up to half a unit of the last decimal.\<close>

lemma digit_char_facts:
  assumes "d < 10"
  shows "digit_value (digit_char d) = d" "digit_char d \<noteq> CHR ''.''" "digit_char d \<noteq> CHR ''-''"
proof -
  from assms have "d \<in> {0, 1, 2, 3, 4, 5, 6, 7, 8, 9}" by auto
  then show "digit_value (digit_char d) = d" "digit_char d \<noteq> CHR ''.''" "digit_char d \<noteq> CHR ''-''"
    by (auto simp: digit_char_def digit_value_def)
qed

lemma digits_value_snoc: "digits_value (xs @ [c]) = 10 * digits_value xs + digit_value c"
  by (simp add: digits_value_def)

lemma digits_value_to_digits: "digits_value (to_digits n) = n"
proof (induction n rule: to_digits.induct)
  case (1 n)
  show ?case
  proof (cases "n < 10")
    case True
    then show ?thesis
      by (subst to_digits.simps) (simp add: digits_value_def digit_char_facts del: to_digits.simps)
  next
    case False
    then show ?thesis
      using 1
      by (subst to_digits.simps) (simp add: digits_value_snoc digit_char_facts del: to_digits.simps)
  qed
qed

lemma to_digits_chars:
  "to_digits n \<noteq> [] \<and> CHR ''.'' \<notin> set (to_digits n) \<and> CHR ''-'' \<notin> set (to_digits n)"
proof (induction n rule: to_digits.induct)
  case (1 n)
  show ?case
  proof (cases "n < 10")
    case True
    then show ?thesis
      using digit_char_facts(2,3) [of n]
      by (subst (1 2 3) to_digits.simps) (simp del: to_digits.simps)
  next
    case False
    then show ?thesis
      using 1 digit_char_facts(2,3) [of "n mod 10"]
      by (subst (1 2 3) to_digits.simps) (simp del: to_digits.simps)
  qed
qed

lemma length_to_digits: "0 < p \<Longrightarrow> n < 10 ^ p \<Longrightarrow> length (to_digits n) \<le> p"
proof (induction n arbitrary: p rule: to_digits.induct)
  case (1 n)
  show ?case
  proof (cases "n < 10")
    case True
    then show ?thesis using 1(2) by (subst to_digits.simps) (simp del: to_digits.simps)
  next
    case False
    obtain q where q: "p = Suc q" using 1(2) by (cases p) auto
    have "n div 10 < 10 ^ q" using 1(3) q by (simp add: less_mult_imp_div_less mult.commute)
    moreover have "0 < q" using False 1(3) q by (cases q) auto
    ultimately have "length (to_digits (n div 10)) \<le> q" using 1(1) [OF False] by simp
    then show ?thesis using False q by (subst to_digits.simps) (simp del: to_digits.simps)
  qed
qed

lemma digits_value_zeros: "digits_value (replicate k (CHR ''0'') @ ds) = digits_value ds"
proof -
  have "foldl (\<lambda>a c. 10 * a + digit_value c) 0 (replicate k (CHR ''0'')) = 0"
    by (induction k) (simp_all add: digit_value_def)
  then show ?thesis by (simp add: digits_value_def)
qed

lemma decimal_value_parts:
  assumes "ip \<noteq> []" "CHR ''.'' \<notin> set ip" "CHR ''-'' \<notin> set ip"
  shows "decimal_value (ip @ CHR ''.'' # fp) =
           real (digits_value ip) + real (digits_value fp) / 10 ^ length fp"
    and "decimal_value (CHR ''-'' # ip @ CHR ''.'' # fp) =
           - (real (digits_value ip) + real (digits_value fp) / 10 ^ length fp)"
    and "decimal_value ip = real (digits_value ip)"
    and "decimal_value (CHR ''-'' # ip) = - real (digits_value ip)"
proof -
  obtain c cs where ip: "ip = c # cs" and c: "c \<noteq> CHR ''-''"
    using assms(1,3) by (cases ip) auto
  have nodot: "\<And>x. x \<in> set ip \<Longrightarrow> x \<noteq> CHR ''.''" using assms(2) by auto
  have tw: "takeWhile (\<lambda>c. c \<noteq> CHR ''.'') (ip @ CHR ''.'' # fp) = ip"
    using nodot by (simp add: takeWhile_append2)
  have dw: "dropWhile (\<lambda>c. c \<noteq> CHR ''.'') (ip @ CHR ''.'' # fp) = CHR ''.'' # fp"
    using nodot by (simp add: dropWhile_append2)
  have tw0: "takeWhile (\<lambda>c. c \<noteq> CHR ''.'') ip = ip" using nodot by simp
  have dw0: "dropWhile (\<lambda>c. c \<noteq> CHR ''.'') ip = []" using nodot by simp
  have e: "digits_value [] = 0" by (simp add: digits_value_def)
  have h1: "(case ip @ CHR ''.'' # fp of [] \<Rightarrow> x | c # cs \<Rightarrow> f c cs) = f c (cs @ CHR ''.'' # fp)" for x :: 'a and f
    by (simp add: ip)
  have h0: "(case ip of [] \<Rightarrow> x | c # cs \<Rightarrow> f c cs) = f c cs" for x :: 'a and f
    by (simp add: ip)
  have b1: "(if c = CHR ''-'' then cs @ CHR ''.'' # fp else ip @ CHR ''.'' # fp) = ip @ CHR ''.'' # fp"
    using c by simp
  have b0: "(if c = CHR ''-'' then cs else ip) = ip" using c by simp
  show "decimal_value (ip @ CHR ''.'' # fp) =
           real (digits_value ip) + real (digits_value fp) / 10 ^ length fp"
    unfolding decimal_value_def Let_def h1 b1 tw dw using c by simp
  show "decimal_value (CHR ''-'' # ip @ CHR ''.'' # fp) =
           - (real (digits_value ip) + real (digits_value fp) / 10 ^ length fp)"
    unfolding decimal_value_def Let_def by (simp add: tw dw)
  show "decimal_value ip = real (digits_value ip)"
    unfolding decimal_value_def Let_def h0 b0 tw0 dw0 using c by (simp add: e)
  show "decimal_value (CHR ''-'' # ip) = - real (digits_value ip)"
    unfolding decimal_value_def Let_def by (simp add: tw0 dw0 e)
qed

lemma decimal_value_fixed:
  assumes "0 \<le> magnitude d"
  shows "decimal_value (fixed p d) =
           (if negative d then - 1 else 1) *
           (real_of_int (round_half_even (magnitude d * 10 ^ p)) / 10 ^ p)"
proof -
  define n where "n = nat (round_half_even (magnitude d * 10 ^ p))"
  define ip where "ip = to_digits (n div 10 ^ p)"
  define fp where "fp = to_digits (n mod 10 ^ p)"
  define pad where "pad = replicate (p - length fp) (CHR ''0'')"
  have "0 \<le> magnitude d * 10 ^ p" using assms by simp
  then have "0 \<le> round_half_even (magnitude d * 10 ^ p)" by (rule round_half_even_nonneg)
  then have n: "real_of_int (round_half_even (magnitude d * 10 ^ p)) = real n"
    by (simp add: n_def)
  have f: "fixed p d = (if negative d then ''-'' else '''') @ ip @
         (if p = 0 then '''' else ''.'' @ pad @ fp)"
    unfolding fixed_def Let_def n_def ip_def fp_def pad_def ..
  have ipc: "ip \<noteq> []" "CHR ''.'' \<notin> set ip" "CHR ''-'' \<notin> set ip"
    using to_digits_chars [of "n div 10 ^ p"] by (simp_all add: ip_def del: to_digits.simps)
  have ipv: "digits_value ip = n div 10 ^ p" by (simp add: ip_def digits_value_to_digits del: to_digits.simps)
  show ?thesis
  proof (cases "p = 0")
    case True
    then have "real (digits_value ip) = real n" by (simp add: ipv)
    then show ?thesis
      unfolding f n using True decimal_value_parts(3,4) [OF ipc] by simp
  next
    case False
    then have p: "0 < p" by simp
    have "n mod 10 ^ p < 10 ^ p" by simp
    from length_to_digits [OF p this] have len: "length fp \<le> p" by (simp add: fp_def del: to_digits.simps)
    then have l: "length (pad @ fp) = p" by (simp add: pad_def)
    have v: "digits_value (pad @ fp) = n mod 10 ^ p"
      unfolding pad_def by (simp add: digits_value_zeros fp_def digits_value_to_digits del: to_digits.simps)
    have s: "real (n div 10 ^ p) + real (n mod 10 ^ p) / 10 ^ p = real n / 10 ^ p"
    proof -
      have "n div 10 ^ p * 10 ^ p + n mod 10 ^ p = n" by (rule div_mult_mod_eq)
      then have "real (n div 10 ^ p * 10 ^ p + n mod 10 ^ p) = real n" by (rule arg_cong)
      then have "real (n div 10 ^ p) * 10 ^ p + real (n mod 10 ^ p) = real n"
        by (simp only: of_nat_add of_nat_mult of_nat_power of_nat_numeral)
      then show ?thesis by (simp add: field_simps)
    qed
    have pos: "decimal_value (ip @ CHR ''.'' # pad @ fp) = real n / 10 ^ p"
      using decimal_value_parts(1) [OF ipc, of "pad @ fp"] unfolding l v ipv s .
    have neg: "decimal_value (CHR ''-'' # ip @ CHR ''.'' # pad @ fp) = - (real n / 10 ^ p)"
      using decimal_value_parts(2) [OF ipc, of "pad @ fp"] unfolding l v ipv s .
    show ?thesis
      unfolding f n using False pos neg by simp
  qed
qed

lemma magnitude_parsed: "0 \<le> magnitude (parsed s)"
  by (simp add: parsed_def round_to_double_nonneg)

lemma double_of_facts: "0 \<le> magnitude (double_of r)" "value_of (double_of r) = r"
  by (simp_all add: double_of_def value_of_def)

lemma fixed_near:
  assumes "0 \<le> magnitude d"
  shows "\<bar>decimal_value (fixed p d) - value_of d\<bar> \<le> 1 / (2 * 10 ^ p)"
proof -
  let ?r = "real_of_int (round_half_even (magnitude d * 10 ^ p))"
  have "\<bar>?r - magnitude d * 10 ^ p\<bar> \<le> 1 / 2" by (rule round_half_even_error)
  then have "\<bar>?r - magnitude d * 10 ^ p\<bar> / 10 ^ p \<le> (1 / 2) / 10 ^ p"
    by (rule divide_right_mono) simp
  moreover have "\<bar>?r - magnitude d * 10 ^ p\<bar> / 10 ^ p = \<bar>?r / 10 ^ p - magnitude d\<bar>"
  proof -
    have "\<bar>?r - magnitude d * 10 ^ p\<bar> / 10 ^ p = \<bar>(?r - magnitude d * 10 ^ p) / 10 ^ p\<bar>" by simp
    also have "(?r - magnitude d * 10 ^ p) / 10 ^ p = ?r / 10 ^ p - magnitude d"
      by (simp add: field_simps)
    finally show ?thesis .
  qed
  moreover have "(1 / 2) / 10 ^ p = 1 / (2 * 10 ^ p :: real)" by simp
  ultimately have b: "\<bar>?r / 10 ^ p - magnitude d\<bar> \<le> 1 / (2 * 10 ^ p)" by (simp only:)
  show ?thesis
  proof (cases "negative d")
    case True
    then have "decimal_value (fixed p d) - value_of d = - (?r / 10 ^ p - magnitude d)"
      by (simp add: decimal_value_fixed [OF assms] value_of_def)
    then show ?thesis using b by simp
  next
    case False
    then have "decimal_value (fixed p d) - value_of d = ?r / 10 ^ p - magnitude d"
      by (simp add: decimal_value_fixed [OF assms] value_of_def)
    then show ?thesis using b by simp
  qed
qed

text \<open>The value of the double that \<open>std::stod\<close> reads is the number written, rounded.\<close>

lemma decimal_value_sign:
  "(case s of c # cs \<Rightarrow> c = CHR ''-'' | [] \<Rightarrow> False) \<Longrightarrow> decimal_value s \<le> 0"
  "\<not> (case s of c # cs \<Rightarrow> c = CHR ''-'' | [] \<Rightarrow> False) \<Longrightarrow> 0 \<le> decimal_value s"
proof -
  have nn: "- real a \<le> real b / 10 ^ k" for a b k :: nat
  proof -
    have "- real a \<le> 0" by simp
    also have "0 \<le> real b / 10 ^ k" by simp
    finally show ?thesis .
  qed
  show "(case s of c # cs \<Rightarrow> c = CHR ''-'' | [] \<Rightarrow> False) \<Longrightarrow> decimal_value s \<le> 0"
    by (auto simp: decimal_value_def Let_def nn split: list.splits)
  show "\<not> (case s of c # cs \<Rightarrow> c = CHR ''-'' | [] \<Rightarrow> False) \<Longrightarrow> 0 \<le> decimal_value s"
    by (auto simp: decimal_value_def Let_def nn split: list.splits)
qed

lemma value_of_parsed: "value_of (parsed s) = round_to_double (decimal_value s)"
proof (cases "case s of c # cs \<Rightarrow> c = CHR ''-'' | [] \<Rightarrow> False")
  case True
  from decimal_value_sign(1) [OF True] have "\<bar>decimal_value s\<bar> = - decimal_value s" by simp
  then show ?thesis using True
    by (simp add: value_of_def parsed_def round_to_double_minus)
next
  case False
  from decimal_value_sign(2) [OF False] have "\<bar>decimal_value s\<bar> = decimal_value s" by simp
  then show ?thesis using False
    by (simp add: value_of_def parsed_def)
qed

section \<open>Properties of the matcher and of the rewriting loop\<close>

lemma match_consumes:
  "match ts s caps = Some (s', caps') \<Longrightarrow>
   \<exists>pre. s = pre @ s' \<and> sum_list (map todo_len ts) \<le> length pre"
proof (induction ts s caps arbitrary: s' caps' rule: match.induct)
  case (1 s caps)
  then show ?case by simp
next
  case (2 n s0 ts s caps)
  from "2.prems" have "match ts s (caps(n \<mapsto> take (length s0 - length s) s0)) = Some (s', caps')"
    by simp
  from "2.IH" [OF this] show ?case by simp
next
  case (3 ts s caps)
  then show ?case by simp
next
  case (4 a ts s caps)
  then obtain c cs where s: "s = c # cs" and acc: "accepts a c"
    and m: "match ts cs caps = Some (s', caps')"
    by (auto split: list.splits if_splits)
  from "4.IH" [OF s acc m] obtain pre where "cs = pre @ s'" "sum_list (map todo_len ts) \<le> length pre"
    by blast
  then show ?case using s by (intro exI [of _ "c # pre"]) simp
next
  case (5 a ts s caps)
  show ?case
  proof (cases s)
    case Nil
    with "5.prems" have "match ts s caps = Some (s', caps')" by simp
    from "5.IH"(1) [OF Nil this] show ?thesis by simp
  next
    case (Cons c cs)
    show ?thesis
    proof (cases "accepts a c")
      case False
      with Cons "5.prems" have "match ts s caps = Some (s', caps')" by simp
      from "5.IH"(4) [OF Cons False this] show ?thesis by simp
    next
      case True
      show ?thesis
      proof (cases "match (Pat (Star a) # ts) cs caps")
        case None
        with Cons True "5.prems" have "match ts s caps = Some (s', caps')" by simp
        from "5.IH"(3) [OF Cons True None this] show ?thesis by simp
      next
        case (Some res)
        with Cons True "5.prems" have m: "match (Pat (Star a) # ts) cs caps = Some (s', caps')" by simp
        from "5.IH"(2) [OF Cons True m] obtain pre where
          "cs = pre @ s'" "sum_list (map todo_len ts) \<le> length pre" by auto
        then show ?thesis using Cons by (intro exI [of _ "c # pre"]) simp
      qed
    qed
  qed
next
  case (6 a ts s caps)
  then obtain c cs where s: "s = c # cs" and acc: "accepts a c"
    and m: "match (Pat (Star a) # ts) cs caps = Some (s', caps')"
    by (auto split: list.splits if_splits)
  from "6.IH" [OF s acc m] obtain pre where "cs = pre @ s'" "sum_list (map todo_len ts) \<le> length pre"
    by auto
  then show ?case using s by (intro exI [of _ "c # pre"]) simp
next
  case (7 r ts s caps)
  show ?case
  proof (cases "match (Pat r # ts) s caps")
    case None
    with "7.prems" have "match ts s caps = Some (s', caps')" by simp
    from "7.IH"(2) [OF None this] show ?thesis by simp
  next
    case (Some res)
    with "7.prems" have "match (Pat r # ts) s caps = Some (s', caps')" by simp
    from "7.IH"(1) [OF this] show ?thesis by auto
  qed
next
  case (8 r1 r2 ts s caps)
  then show ?case by (simp add: add.assoc)
next
  case (9 r1 r2 ts s caps)
  show ?case
  proof (cases "match (Pat r1 # ts) s caps")
    case None
    with "9.prems" have "match (Pat r2 # ts) s caps = Some (s', caps')" by simp
    from "9.IH"(2) [OF None this] show ?thesis by auto
  next
    case (Some res)
    with "9.prems" have "match (Pat r1 # ts) s caps = Some (s', caps')" by simp
    from "9.IH"(1) [OF this] show ?thesis by auto
  qed
next
  case (10 n r ts s caps)
  then show ?case by simp
qed

lemma match_here_Some:
  assumes "match_here r s = Some m"
  shows "s = str m @ suffix_of m \<and> prefix_of m = [] \<and> min_len r \<le> length (str m)"
proof -
  from assms obtain s' caps where m: "match [Pat r] s (\<lambda>_. None) = Some (s', caps)"
    and mm: "m = \<lparr>prefix_of = [], str = take (length s - length s') s, groups = caps, suffix_of = s'\<rparr>"
    by (auto simp: match_here_def split: option.splits)
  from match_consumes [OF m] obtain pre where "s = pre @ s'" "min_len r \<le> length pre" by auto
  then show ?thesis using mm by simp
qed

lemma regex_search_Some:
  "regex_search r s = Some m \<Longrightarrow>
   s = prefix_of m @ str m @ suffix_of m \<and> min_len r \<le> length (str m)"
proof (induction s arbitrary: m)
  case Nil
  then have "match_here r [] = Some m" by simp
  from match_here_Some [OF this] show ?case by auto
next
  case (Cons c cs)
  show ?case
  proof (cases "match_here r (c # cs)")
    case (Some m')
    with Cons.prems have "m' = m" by simp
    with Some show ?thesis using match_here_Some [of r "c # cs" m] by simp
  next
    case None
    with Cons.prems obtain m' where s: "regex_search r cs = Some m'"
      and m: "m = m'\<lparr>prefix_of := c # prefix_of m'\<rparr>"
      by (auto split: option.splits)
    from Cons.IH [OF s] show ?thesis using m by simp
  qed
qed

lemma rewrite_returns_aux:
  assumes "0 < min_len r"
  shows "length body \<le> n \<Longrightarrow> \<exists>res. rewrite r command body updatedText updated = Some res"
proof (induction n arbitrary: body updatedText updated)
  case 0
  then have t: "body = []" by simp
  have "regex_search r [] = None"
  proof (cases "regex_search r []")
    case (Some m)
    from regex_search_Some [OF Some] have "min_len r \<le> 0" by auto
    with assms show ?thesis by simp
  qed simp
  then show ?case by (subst rewrite.simps) (simp add: t)
next
  case (Suc n)
  show ?case
  proof (cases "regex_search r body")
    case None
    then show ?thesis by (subst rewrite.simps) simp
  next
    case (Some m)
    from regex_search_Some [OF Some]
    have "length body = length (prefix_of m) + length (str m) + length (suffix_of m)"
      and "min_len r \<le> length (str m)"
      by (metis length_append add.assoc, simp)
    with assms have "length (suffix_of m) < length body" by linarith
    with Suc.prems have le: "length (suffix_of m) \<le> n" by simp
    show ?thesis
    proof (cases "command m")
      case (Inl e)
      then show ?thesis using Some by (subst rewrite.simps) simp
    next
      case (Inr out)
      show ?thesis
        using Some Inr Suc.IH [OF le]
        by (subst rewrite.simps) (simp split: option.splits)
    qed
  qed
qed

lemma rewrite_returns:
  "0 < min_len r \<Longrightarrow> \<exists>res. rewrite r command body updatedText updated = Some res"
  using rewrite_returns_aux [where n = "length body" and body = body] by blast


lemma word_Cons: "word (c # kw) = Seq (Atom (Lit c)) (word kw)" and word_Nil: "word [] = Eps"
  by (simp_all add: word_def)

lemma seq_Cons: "seq (r # rs) = Seq r (seq rs)"
  by (simp add: seq_def)

lemma match_word:
  "match (Pat (word kw) # ts) s caps = Some res \<Longrightarrow> starts_with kw s"
proof (induction kw arbitrary: s)
  case Nil
  then show ?case by (simp add: starts_with_def)
next
  case (Cons c kw)
  from Cons.prems obtain x xs where s: "s = x # xs" and a: "tolower x = tolower c"
    and m: "match (Pat (word kw) # ts) xs caps = Some res"
    by (auto simp: word_Cons split: list.splits if_splits)
  from Cons.IH [OF m] show ?case using s a by (simp add: starts_with_def)
qed

lemma regex_search_mentions:
  "regex_search (seq (Group n (word kw) # rest)) s = Some m \<Longrightarrow> mentions kw s"
proof (induction s arbitrary: m)
  case Nil
  then have "match_here (seq (Group n (word kw) # rest)) [] = Some m" by simp
  then obtain res where "match (Pat (word kw) # Close n [] # [Pat (seq rest)]) [] (\<lambda>_. None) = Some res"
    by (auto simp: match_here_def seq_Cons split: option.splits)
  from match_word [OF this] show ?case by simp
next
  case (Cons c cs)
  show ?case
  proof (cases "match_here (seq (Group n (word kw) # rest)) (c # cs)")
    case (Some m')
    then obtain res where
      "match (Pat (word kw) # Close n (c # cs) # [Pat (seq rest)]) (c # cs) (\<lambda>_. None) = Some res"
      by (auto simp: match_here_def seq_Cons split: option.splits)
    from match_word [OF this] show ?thesis by simp
  next
    case None
    with Cons.prems obtain m' where "regex_search (seq (Group n (word kw) # rest)) cs = Some m'"
      by (auto split: option.splits)
    from Cons.IH [OF this] show ?thesis by simp
  qed
qed

lemma regex_of_shape: "\<exists>rest. regex_of k = seq (Group 1 (word (keyword_of k)) # rest)"
  by (cases k)
     (auto simp: aiEscortRegex_def aiEscortCellRegex_def aiFollowRegex_def aiFollowCellRegex_def
        aiTravelRegex_def positionRegex_def positionCellRegex_def placeItemRegex_def
        placeItemCellRegex_def)

lemma min_len_word: "min_len (word kw) = length kw"
  by (induction kw) (simp_all add: word_Cons word_Nil)

lemma min_len_regex_of: "0 < min_len (regex_of k)"
proof -
  obtain rest where "regex_of k = seq (Group 1 (word (keyword_of k)) # rest)"
    using regex_of_shape by blast
  moreover have "0 < length (keyword_of k)" by (cases k) simp_all
  ultimately show ?thesis by (simp add: seq_Cons min_len_word)
qed

lemma no_keyword_no_match:
  "\<not> mentions (keyword_of k) body \<Longrightarrow> regex_search (regex_of k) body = None"
proof (cases "regex_search (regex_of k) body")
  case (Some m)
  assume n: "\<not> mentions (keyword_of k) body"
  obtain rest where "regex_of k = seq (Group 1 (word (keyword_of k)) # rest)"
    using regex_of_shape by blast
  with Some regex_search_mentions have "mentions (keyword_of k) body" by metis
  with n show ?thesis by simp
qed simp

lemma stod_in_range: "in_double_range (decimal_value s) \<Longrightarrow> stod s = Inr (parsed s)"
  by (simp add: stod_def)

lemma command_of_valid:
  assumes "operands_in_range k m" "cell_valid k db custom options m"
  shows "command_of k db offset custom options m = Inr (Some (reemitted k offset m))"
  using assms
  by (cases k)
     (simp_all add: operands_in_range_def numeric_groups_def cell_valid_def derived_cell_def
        operand_def stod_in_range translated_def reemitted_def written_def Let_def
        aiEscortCommand_def aiEscortCellCommand_def aiTravelCommand_def positionCommand_def
        positionCellCommand_def placeItemCommand_def placeItemCellCommand_def)

lemma command_of_invalid:
  assumes "operands_in_range k m" "\<not> cell_valid k db custom options m"
  shows "command_of k db offset custom options m = Inr None"
  using assms
  by (cases k)
     (simp_all add: operands_in_range_def numeric_groups_def cell_valid_def derived_cell_def
        operand_def stod_in_range translated_def Let_def
        aiEscortCommand_def aiEscortCellCommand_def aiTravelCommand_def positionCommand_def
        positionCellCommand_def placeItemCommand_def placeItemCellCommand_def)

lemma rewrite_every_match_invalid:
  "every_match_invalid k db custom options body \<Longrightarrow>
   rewrite (regex_of k) (command_of k db offset custom options) body updatedText updated =
     Some (Inr (updatedText @ body, updated))"
proof (induction arbitrary: updatedText rule: every_match_invalid.induct)
  case (no_match body)
  then show ?case by (subst rewrite.simps) simp
next
  case (invalid_match body m)
  from regex_search_Some [OF invalid_match.hyps(1)]
  have b: "body = prefix_of m @ str m @ suffix_of m" by simp
  have c: "command_of k db offset custom options m = Inr None"
    using command_of_invalid invalid_match.hyps(2,4) by blast
  show ?case
    apply (subst rewrite.simps)
    apply (simp add: invalid_match.hyps(1) c invalid_match.IH)
    using b by simp
qed


lemmas regex_defs = aiEscortRegex_def aiTravelRegex_def positionRegex_def match_here_def seq_def word_def sep_def ident_def number_def
  tolower_def isspace_def isdigit_def sub_def

lemma search_specExample:
  "\<exists>m. regex_search aiEscortRegex specExample = Some m \<and> prefix_of m = [] \<and>
       str m = specExample \<and> suffix_of m = [] \<and>
       sub m 4 = ''1000.0'' \<and> sub m 5 = ''2000.0'' \<and> sub m 6 = ''0.0''"
  by (simp add: specExample_def regex_defs)

lemmas number_defs = decimal_value_def digits_value_def digit_value_def in_double_range_def Let_def

lemma decimal_values:
  "decimal_value ''1000.0'' = 1000" "decimal_value ''2000.0'' = 2000" "decimal_value ''0.0'' = 0"
  by (simp_all add: number_defs)

lemma parsed_values:
  "parsed ''1000.0'' = \<lparr>negative = False, magnitude = 1000\<rparr>"
  "parsed ''2000.0'' = \<lparr>negative = False, magnitude = 2000\<rparr>"
  "parsed ''0.0'' = \<lparr>negative = False, magnitude = 0\<rparr>"
  by (simp_all add: parsed_def decimal_values double_defs)

lemma origin_defined:
  "defined_for \<lparr>offsetX = 0, offsetY = 0\<rparr> (1000, 2000)" "defined_for (getGridOffset 1) (1000, 2000)"
  by (simp_all add: defined_for_def in_int_range_def getGridOffset_def)

lemma specExample_invalid: "every_match_invalid AiEscort smallDb {} forwardOptions specExample"
proof -
  obtain m where s: "regex_search (regex_of AiEscort) specExample = Some m"
    and m: "suffix_of m = []" "sub m 4 = ''1000.0''" "sub m 5 = ''2000.0''" "sub m 6 = ''0.0''"
    using search_specExample by auto
  have r: "operands_in_range AiEscort m"
    by (simp add: operands_in_range_def numeric_groups_def m decimal_values in_double_range_def)
  have d: "cell_defined AiEscort forwardOptions m"
    by (simp add: cell_defined_def operand_def m parsed_values value_of_def forwardOptions_def
          origin_defined)
  have c: "\<not> cell_valid AiEscort smallDb {} forwardOptions m"
    by (simp add: cell_valid_def derived_cell_def operand_def m parsed_values value_of_def gridOf_def
          isCoordinateValid_def smallDb_def forwardOptions_def step_is_row_def Let_def)
  have e: "every_match_invalid AiEscort smallDb {} forwardOptions (suffix_of m)"
    unfolding m
    by (rule every_match_invalid.no_match, rule no_keyword_no_match) (simp add: starts_with_def)
  show ?thesis by (rule every_match_invalid.invalid_match [OF s r d c e])
qed

lemma no_keyword_example: "\<not> mentions ''AiEscort'' ''set x to 5''"
  by (simp add: starts_with_def tolower_def)

lemma replicate_small: "replicate 1 c = [c]" "replicate 2 c = [c, c]" "replicate 3 c = [c, c, c]"
  by (simp_all add: numeral_2_eq_2 numeral_3_eq_3)

lemmas format_defs = fixed_def round_half_even_def digit_char_def replicate_small
  newDestDouble_def gridOf_def to_double_def double_of_def

text \<open>Numbers at the edges of the formats: \<open>8191.9999999999999\<close> is read as \<open>8192\<close>, in
  the next cell; the minus sign of a zero is kept and printed; the double next to \<open>0.0005\<close>
  is above it and printed as \<open>0.001\<close>, while \<open>2.5\<close> is a double and printed as \<open>2\<close>; and
  the cell of \<open>10\<^sup>2\<^sup>0\<close> is outside the range of \<open>int\<close>.\<close>

lemma parsed_border: "parsed ''8191.9999999999999'' = \<lparr>negative = False, magnitude = 8192\<rparr>"
  by (simp add: parsed_def number_defs double_defs)

lemma parsed_zero:
  "parsed ''0'' = \<lparr>negative = False, magnitude = 0\<rparr>"
  "parsed ''-0'' = \<lparr>negative = True, magnitude = 0\<rparr>"
  by (simp_all add: parsed_def number_defs double_defs)

lemma gridOf_border: "gridOf (value_of (parsed ''8191.9999999999999'')) = 1"
  by (simp add: parsed_border value_of_def gridOf_def)

lemma fixed_tie: "fixed 3 (parsed ''0.0005'') = ''0.001''"
  by (simp add: format_defs parsed_def number_defs double_defs)

lemma fixed_half: "fixed 0 (parsed ''2.5'') = ''2''"
  by (simp add: format_defs parsed_def number_defs double_defs)

lemma fixed_zero:
  "fixed 3 \<lparr>negative = False, magnitude = 0\<rparr> = ''0.000''"
  "fixed 3 \<lparr>negative = True, magnitude = 0\<rparr> = ''-0.000''"
  "fixed 0 \<lparr>negative = True, magnitude = 0\<rparr> = ''-0''"
  by (simp_all add: format_defs)

lemma fixed_border:
  "fixed 3 (double_of (newDestDouble 7 8192)) = ''65536.000''"
  "fixed 3 (double_of (newDestDouble 6 0)) = ''49152.000''"
  "fixed 3 (double_of (newDestDouble 7 0)) = ''57344.000''"
  by (simp_all add: format_defs double_defs)

lemma cell_out_of_range:
  "stod ''100000000000000000000'' = Inr (parsed ''100000000000000000000'')"
  "\<not> in_int_range \<lfloor>value_of (parsed ''100000000000000000000'') / 8192\<rfloor>"
  by (simp_all add: stod_def parsed_def number_defs double_defs value_of_def in_int_range_def)

lemma search_borderText:
  "\<exists>m. regex_search aiTravelRegex borderText = Some m \<and> prefix_of m = [] \<and>
       str m = borderText \<and> suffix_of m = [] \<and>
       sub m 1 = ''AiTravel'' \<and> sub m 2 = ''8191.9999999999999'' \<and> sub m 3 = ''0'' \<and>
       sub m 4 = ''0'' \<and> sub m 5 = []"
  by (simp add: borderText_def regex_defs)

lemma search_signText:
  "\<exists>m. regex_search positionRegex signText = Some m \<and> prefix_of m = [] \<and>
       str m = signText \<and> suffix_of m = [] \<and>
       sub m 1 = ''Position'' \<and> sub m 2 = ''0'' \<and> sub m 3 = ''0'' \<and>
       sub m 4 = ''-0'' \<and> sub m 5 = ''-0''"
  by (simp add: signText_def regex_defs)

lemma search_tieText:
  "\<exists>m. regex_search positionRegex tieText = Some m \<and> prefix_of m = [] \<and>
       str m = tieText \<and> suffix_of m = [] \<and>
       sub m 1 = ''Position'' \<and> sub m 2 = ''0'' \<and> sub m 3 = ''0'' \<and>
       sub m 4 = ''0.0005'' \<and> sub m 5 = ''2.5''"
  by (simp add: tieText_def regex_defs)

lemma cells_defined:
  "defined_for \<lparr>offsetX = 0, offsetY = 0\<rparr> (0, 0)" "defined_for (getGridOffset 1) (0, 0)"
  "defined_for \<lparr>offsetX = 0, offsetY = 0\<rparr> (8192, 0)" "defined_for (getGridOffset 1) (8192, 0)"
  by (simp_all add: defined_for_def in_int_range_def getGridOffset_def)

lemma in_range_examples:
  "in_double_range (decimal_value ''8191.9999999999999'')" "in_double_range (decimal_value ''0'')"
  "in_double_range (decimal_value ''-0'')" "in_double_range (decimal_value ''0.0005'')"
  "in_double_range (decimal_value ''2.5'')"
  by (simp_all add: number_defs)

lemma offsets_forward: "offsetX (getGridOffset 1) = 7" "offsetY (getGridOffset 1) = 6"
  by (simp_all add: getGridOffset_def)

lemma borderText_facts:
  "\<exists>m. regex_search (regex_of AiTravel) borderText = Some m \<and> prefix_of m = [] \<and>
       suffix_of m = [] \<and> operands_in_range AiTravel m \<and>
       cell_defined AiTravel forwardOptions m \<and> shift_defined AiTravel (getGridOffset 1) m \<and>
       derived_cell AiTravel m = (1, 0) \<and>
       reemitted AiTravel (getGridOffset 1) m = ''AiTravel, 65536.000, 49152.000, 0.000''"
proof -
  obtain m where s: "regex_search (regex_of AiTravel) borderText = Some m"
    and m: "prefix_of m = []" "suffix_of m = []" "sub m (Suc 0) = ''AiTravel''"
      "sub m 2 = ''8191.9999999999999''" "sub m 3 = ''0''" "sub m 4 = ''0''" "sub m 5 = []"
    using search_borderText by auto
  have r: "operands_in_range AiTravel m"
    by (simp add: operands_in_range_def numeric_groups_def m in_range_examples)
  have d: "cell_defined AiTravel forwardOptions m" "shift_defined AiTravel (getGridOffset 1) m"
    by (simp_all add: cell_defined_def shift_defined_def operand_def m parsed_border parsed_zero
          value_of_def forwardOptions_def cells_defined)
  have c: "derived_cell AiTravel m = (1, 0)"
    by (simp add: derived_cell_def operand_def m parsed_border parsed_zero value_of_def gridOf_def)
  have e: "reemitted AiTravel (getGridOffset 1) m = ''AiTravel, 65536.000, 49152.000, 0.000''"
    by (simp add: reemitted_def written_def operand_def m parsed_border parsed_zero value_of_def offsets_forward
          fixed_border fixed_zero)
  show ?thesis using s m r d c e by blast
qed

lemma signText_facts:
  "\<exists>m. regex_search (regex_of Position) signText = Some m \<and> prefix_of m = [] \<and>
       suffix_of m = [] \<and> operands_in_range Position m \<and>
       cell_defined Position forwardOptions m \<and> shift_defined Position (getGridOffset 1) m \<and>
       derived_cell Position m = (0, 0) \<and>
       reemitted Position (getGridOffset 1) m = ''Position, 57344.000, 49152.000, -0.000, -0''"
proof -
  obtain m where s: "regex_search (regex_of Position) signText = Some m"
    and m: "prefix_of m = []" "suffix_of m = []" "sub m (Suc 0) = ''Position''"
      "sub m 2 = ''0''" "sub m 3 = ''0''" "sub m 4 = ''-0''" "sub m 5 = ''-0''"
    using search_signText by auto
  have r: "operands_in_range Position m"
    by (simp add: operands_in_range_def numeric_groups_def m in_range_examples)
  have d: "cell_defined Position forwardOptions m" "shift_defined Position (getGridOffset 1) m"
    by (simp_all add: cell_defined_def shift_defined_def operand_def m parsed_zero
          value_of_def forwardOptions_def cells_defined)
  have c: "derived_cell Position m = (0, 0)"
    by (simp add: derived_cell_def operand_def m parsed_zero value_of_def gridOf_def)
  have e: "reemitted Position (getGridOffset 1) m = ''Position, 57344.000, 49152.000, -0.000, -0''"
    by (simp add: reemitted_def written_def operand_def m parsed_zero value_of_def offsets_forward
          fixed_border fixed_zero)
  show ?thesis using s m r d c e by blast
qed

lemma tieText_facts:
  "\<exists>m. regex_search (regex_of Position) tieText = Some m \<and> prefix_of m = [] \<and>
       suffix_of m = [] \<and> operands_in_range Position m \<and>
       cell_defined Position forwardOptions m \<and> shift_defined Position (getGridOffset 1) m \<and>
       derived_cell Position m = (0, 0) \<and>
       reemitted Position (getGridOffset 1) m = ''Position, 57344.000, 49152.000, 0.001, 2''"
proof -
  obtain m where s: "regex_search (regex_of Position) tieText = Some m"
    and m: "prefix_of m = []" "suffix_of m = []" "sub m (Suc 0) = ''Position''"
      "sub m 2 = ''0''" "sub m 3 = ''0''" "sub m 4 = ''0.0005''" "sub m 5 = ''2.5''"
    using search_tieText by auto
  have r: "operands_in_range Position m"
    by (simp add: operands_in_range_def numeric_groups_def m in_range_examples)
  have d: "cell_defined Position forwardOptions m" "shift_defined Position (getGridOffset 1) m"
    by (simp_all add: cell_defined_def shift_defined_def operand_def m parsed_zero
          value_of_def forwardOptions_def cells_defined)
  have c: "derived_cell Position m = (0, 0)"
    by (simp add: derived_cell_def operand_def m parsed_zero value_of_def gridOf_def)
  have e: "reemitted Position (getGridOffset 1) m = ''Position, 57344.000, 49152.000, 0.001, 2''"
    by (simp add: reemitted_def written_def operand_def m parsed_zero value_of_def offsets_forward
          fixed_border fixed_tie fixed_half)
  show ?thesis using s m r d c e by blast
qed

lemma sample_cells:
  "fst (isCoordinateValid borderDb 1 0 {} forwardOptions)"
  "\<not> fst (isCoordinateValid sampleDb 1 0 {} forwardOptions)"
  "fst (isCoordinateValid sampleDb 0 0 {} forwardOptions)"
  by (simp_all add: isCoordinateValid_def sampleDb_def borderDb_def forwardOptions_def
        step_is_row_def Let_def)

lemma borderText_invalid: "every_match_invalid AiTravel sampleDb {} forwardOptions borderText"
proof -
  obtain m where s: "regex_search (regex_of AiTravel) borderText = Some m"
    and p: "suffix_of m = []"
    and r: "operands_in_range AiTravel m" and d: "cell_defined AiTravel forwardOptions m"
    and c: "derived_cell AiTravel m = (1, 0)"
    using borderText_facts by blast
  have v: "\<not> cell_valid AiTravel sampleDb {} forwardOptions m"
    by (simp add: cell_valid_def c sample_cells)
  have e: "every_match_invalid AiTravel sampleDb {} forwardOptions (suffix_of m)"
    unfolding p
    by (rule every_match_invalid.no_match, rule no_keyword_no_match) (simp add: starts_with_def)
  show ?thesis by (rule every_match_invalid.invalid_match [OF s r d v e])
qed

lemma bindR_simps [simp]:
  "bindR None f = None" "bindR (Some (Inl e)) f = Some (Inl e)" "bindR (Some (Inr x)) f = f x"
  by (simp_all add: bindR_def)

lemma assign_same: "map_of kvs k = Some v \<Longrightarrow> assign k v kvs = kvs"
  by (induction kvs) (auto split: if_splits)

lemma set_field_same: "contains j k \<Longrightarrow> field_of j k = v \<Longrightarrow> set_field j k v = j"
  by (cases j) (auto simp: contains_def field_of_def set_field_def assign_same)

lemma scriptRecord_unchanged:
  assumes "rewrite r command body [] False = Some (Inr (body, False))"
    and "contains script ''text''" "field_of script ''text'' = JString body"
    and "\<not> contains script ''id'' \<or> (\<exists>s. field_of script ''id'' = JString s)"
  shows "scriptRecord r command script st = Some (Inr (script, st))"
  using assms(4)
  by (auto simp: scriptRecord_def assms(1,2,3) get_string_def set_field_same)

lemma dialogueRecord_unchanged:
  assumes "rewrite r command body [] False = Some (Inr (body, False))"
    and "contains d ''script_text''" "field_of d ''script_text'' = JString body"
  shows "dialogueRecord r command d flag = Some (Inr (d, flag))"
  by (simp add: dialogueRecord_def assms get_string_def set_field_same)

text \<open>
  C5.  A pass leaves a text as it is whenever nothing is translated: a text that holds
  the keyword of the command nowhere (letter case ignored) comes back unchanged; a text in
  which every command the loop finds has a cell that is not valid comes back unchanged;
  wherever the loop stands, a matched command with a cell that is not valid is appended
  as \<open>match.str()\<close>, its original text; and a Script or DialogueInfo record with such a
  text is stored back as it was, flag and list of script identifiers untouched.  The
  cell of a command is the one the pass derives from the doubles \<open>std::stod\<close> reads.
  The operands are taken to be in the range of \<open>double\<close>, outside of which \<open>std::stod\<close>
  raises, and the cell in the range of \<open>int\<close>, outside of which the conversion to \<open>int\<close>
  is undefined.
\<close>

theorem rewriteText_identity:
  "(\<not> mentions (keyword_of k) body \<longrightarrow>
      rewriteText k db offset custom options body = Some (Inr (body, False))) \<and>
   (every_match_invalid k db custom options body \<longrightarrow>
      rewriteText k db offset custom options body = Some (Inr (body, False))) \<and>
   (\<forall>m updatedText updated.
      regex_search (regex_of k) body = Some m \<and> operands_in_range k m \<and>
      cell_defined k options m \<and> \<not> cell_valid k db custom options m \<longrightarrow>
      rewrite (regex_of k) (command_of k db offset custom options) body updatedText updated =
      rewrite (regex_of k) (command_of k db offset custom options) (suffix_of m)
        (updatedText @ prefix_of m @ str m) updated) \<and>
   (\<forall>script st.
      every_match_invalid k db custom options body \<and>
      contains script ''text'' \<and> field_of script ''text'' = JString body \<and>
      (\<not> contains script ''id'' \<or> (\<exists>s. field_of script ''id'' = JString s)) \<longrightarrow>
      scriptRecord (regex_of k) (command_of k db offset custom options) script st =
        Some (Inr (script, st))) \<and>
   (\<forall>dialogueInfo flag.
      every_match_invalid k db custom options body \<and>
      contains dialogueInfo ''script_text'' \<and>
      field_of dialogueInfo ''script_text'' = JString body \<longrightarrow>
      dialogueRecord (regex_of k) (command_of k db offset custom options) dialogueInfo flag =
        Some (Inr (dialogueInfo, flag)))"
proof (intro conjI impI allI)
  assume "\<not> mentions (keyword_of k) body"
  then have "regex_search (regex_of k) body = None" by (rule no_keyword_no_match)
  then show "rewriteText k db offset custom options body = Some (Inr (body, False))"
    unfolding rewriteText_def by (subst rewrite.simps) simp
next
  assume "every_match_invalid k db custom options body"
  from rewrite_every_match_invalid [OF this]
  show "rewriteText k db offset custom options body = Some (Inr (body, False))"
    by (simp add: rewriteText_def)
next
  fix m updatedText updated
  assume a: "regex_search (regex_of k) body = Some m \<and> operands_in_range k m \<and>
      cell_defined k options m \<and> \<not> cell_valid k db custom options m"
  then have c: "command_of k db offset custom options m = Inr None"
    using command_of_invalid by blast
  show "rewrite (regex_of k) (command_of k db offset custom options) body updatedText updated =
      rewrite (regex_of k) (command_of k db offset custom options) (suffix_of m)
        (updatedText @ prefix_of m @ str m) updated"
    by (subst rewrite.simps) (simp add: a c)
next
  fix script :: json and st :: "cint \<times> string list"
  assume a: "every_match_invalid k db custom options body \<and>
      contains script ''text'' \<and> field_of script ''text'' = JString body \<and>
      (\<not> contains script ''id'' \<or> (\<exists>s. field_of script ''id'' = JString s))"
  then have "rewrite (regex_of k) (command_of k db offset custom options) body [] False =
      Some (Inr (body, False))"
    using rewrite_every_match_invalid [of k db custom options body offset "[]" False] by simp
  then show "scriptRecord (regex_of k) (command_of k db offset custom options) script st =
        Some (Inr (script, st))"
    using a by (intro scriptRecord_unchanged [where body = body]) simp_all
next
  fix dialogueInfo :: json and flag :: cint
  assume a: "every_match_invalid k db custom options body \<and>
      contains dialogueInfo ''script_text'' \<and>
      field_of dialogueInfo ''script_text'' = JString body"
  then have "rewrite (regex_of k) (command_of k db offset custom options) body [] False =
      Some (Inr (body, False))"
    using rewrite_every_match_invalid [of k db custom options body offset "[]" False] by simp
  then show "dialogueRecord (regex_of k) (command_of k db offset custom options) dialogueInfo flag =
        Some (Inr (dialogueInfo, flag))"
    using a by (intro dialogueRecord_unchanged [where body = body]) simp_all
qed

lemma escort_records:
  "contains escortScript ''text''" "field_of escortScript ''text'' = JString specExample"
  "contains escortScript ''id''" "field_of escortScript ''id'' = JString ''escort''"
  "contains escortDialogue ''script_text''"
  "field_of escortDialogue ''script_text'' = JString specExample"
  by (simp_all add: escortScript_def escortDialogue_def contains_def field_of_def)

theorem rewriteText_identity_witness:
  "\<not> mentions (keyword_of AiEscort) ''set x to 5'' \<and>
   rewriteText AiEscort smallDb (getGridOffset 1) {} forwardOptions ''set x to 5''
     = Some (Inr (''set x to 5'', False)) \<and>
   every_match_invalid AiEscort smallDb {} forwardOptions specExample \<and>
   rewriteText AiEscort smallDb (getGridOffset 1) {} forwardOptions specExample
     = Some (Inr (specExample, False)) \<and>
   scriptRecord (regex_of AiEscort)
     (command_of AiEscort smallDb (getGridOffset 1) {} forwardOptions) escortScript (0, [])
     = Some (Inr (escortScript, 0, [])) \<and>
   dialogueRecord (regex_of AiEscort)
     (command_of AiEscort smallDb (getGridOffset 1) {} forwardOptions) escortDialogue 0
     = Some (Inr (escortDialogue, 0)) \<and>
   every_match_invalid AiTravel sampleDb {} forwardOptions borderText \<and>
   rewriteText AiTravel sampleDb (getGridOffset 1) {} forwardOptions borderText
     = Some (Inr (borderText, False))"
  using rewriteText_identity [of AiEscort "''set x to 5''" smallDb "getGridOffset 1" "{}" forwardOptions]
        rewriteText_identity [of AiEscort specExample smallDb "getGridOffset 1" "{}" forwardOptions]
        rewriteText_identity [of AiTravel borderText sampleDb "getGridOffset 1" "{}" forwardOptions]
        no_keyword_example specExample_invalid escort_records borderText_invalid
  by simp

lemma search_longZText:
  "\<exists>m. regex_search aiEscortRegex longZText = Some m \<and> prefix_of m = [] \<and>
       str m = longZText \<and> suffix_of m = [] \<and>
       sub m 1 = ''AiEscort'' \<and> sub m 2 = [CHR 0x22] @ ''actor1'' @ [CHR 0x22] \<and>
       sub m 3 = ''5'' \<and>
       sub m 4 = ''1000.0'' \<and> sub m 5 = ''2000.0'' \<and> sub m 6 = ''1.23456'' \<and>
       sub m 7 = []"
  by (simp add: longZText_def regex_defs)

lemma fixed_x: "fixed 3 (double_of (newDestDouble 7 1000)) = ''58344.000''"
  by (simp add: format_defs double_defs)

lemma fixed_y: "fixed 3 (double_of (newDestDouble 6 2000)) = ''51152.000''"
  by (simp add: format_defs double_defs)

lemma fixed_long_z: "fixed 3 (parsed ''1.23456'') = ''1.235''"
  by (simp add: format_defs parsed_def number_defs double_defs)

lemma range_values:
  "in_double_range (decimal_value ''1.23456'')" "in_double_range (decimal_value ''1000.0'')"
  "in_double_range (decimal_value ''2000.0'')" "in_double_range (decimal_value ''0.0'')"
  by (simp_all add: number_defs)

lemma rewrite_step_valid:
  assumes "regex_search (regex_of k) body = Some m" "operands_in_range k m"
    "cell_valid k db custom options m"
  shows "rewrite (regex_of k) (command_of k db offset custom options) body updatedText updated =
         rewrite (regex_of k) (command_of k db offset custom options) (suffix_of m)
           (updatedText @ prefix_of m @ reemitted k offset m) True"
  by (subst rewrite.simps) (simp add: assms(1) command_of_valid [OF assms(2,3)])

lemma rewrite_empty:
  "rewrite (regex_of k) command [] updatedText updated = Some (Inr (updatedText, updated))"
proof -
  have "regex_search (regex_of k) [] = None"
    by (rule no_keyword_no_match) (cases k; simp add: starts_with_def)
  then show ?thesis by (subst rewrite.simps) simp
qed

lemma written_numbers:
  "written k offset m ! 0 = fixed 3 (double_of (newDestDouble (offsetX offset) (value_of (operand k m 0))))"
  "written k offset m ! 1 = fixed 3 (double_of (newDestDouble (offsetY offset) (value_of (operand k m 1))))"
  "written k offset m ! 2 = fixed 3 (operand k m 2)"
  "has_rotation k \<Longrightarrow> written k offset m ! 3 = fixed 0 (operand k m 3)"
  by (simp_all add: written_def)

lemma written_translated:
  assumes "in_int_range \<lfloor>d / 8192\<rfloor>" "in_int_range (\<lfloor>d / 8192\<rfloor> + sint off)"
  shows "\<bar>decimal_value (fixed 3 (double_of (newDestDouble off d))) -
          (d + real_of_int (sint off) * 8192)\<bar> \<le> 1 / 200"
proof -
  have "\<bar>decimal_value (fixed 3 (double_of (newDestDouble off d))) - newDestDouble off d\<bar> \<le> 1 / 2000"
    using fixed_near [OF double_of_facts(1), of 3 "newDestDouble off d"]
    by (simp add: double_of_facts(2))
  with newDestDouble_near [OF assms] show ?thesis by linarith
qed

text \<open>
  C4 (as amended).  For a matched command with a valid cell, a pass writes the keyword
  token and the operands joined by \<open>", "\<close>: x and y translated and z as parsed, each
  with three decimals (so z is not translated, but loses the decimals after the third),
  the rotation with no decimals, and the actor, object and cell identifiers, the duration
  and the reset flag exactly as the groups of the match hold them.  The numbers are the
  doubles that \<open>std::stod\<close> reads and the double arithmetic of the pass makes of them,
  printed as the stream prints a double.  Read as numbers: an operand is the number in the
  text rounded to a double; the x and the y written are the operand plus the offset times
  8192, up to the roundings of the sum and of the three decimals; the z written is the
  operand up to half a thousandth, and the rotation written is the operand up to one half.
  The operands are taken to be in the range of \<open>double\<close> and the cell and the shifted cell
  in the range of \<open>int\<close>; elsewhere \<open>std::stod\<close> raises or the behaviour of the pass is
  undefined.
\<close>

theorem rewrite_valid_command:
  assumes "regex_search (regex_of k) body = Some m" "operands_in_range k m"
    "cell_valid k db custom options m"
    and "cell_defined k options m" "shift_defined k offset m"
  shows "command_of k db offset custom options m = Inr (Some (reemitted k offset m)) \<and>
         rewrite (regex_of k) (command_of k db offset custom options) body updatedText updated =
         rewrite (regex_of k) (command_of k db offset custom options) (suffix_of m)
           (updatedText @ prefix_of m @ reemitted k offset m) True \<and>
         (\<forall>i. value_of (operand k m i) =
                round_to_double (decimal_value (sub m (x_group k + i)))) \<and>
         \<bar>decimal_value (written k offset m ! 0) -
           (value_of (operand k m 0) + real_of_int (sint (offsetX offset)) * 8192)\<bar> \<le> 1 / 200 \<and>
         \<bar>decimal_value (written k offset m ! 1) -
           (value_of (operand k m 1) + real_of_int (sint (offsetY offset)) * 8192)\<bar> \<le> 1 / 200 \<and>
         \<bar>decimal_value (written k offset m ! 2) - value_of (operand k m 2)\<bar> \<le> 1 / 2000 \<and>
         (has_rotation k \<longrightarrow>
            \<bar>decimal_value (written k offset m ! 3) - value_of (operand k m 3)\<bar> \<le> 1 / 2)"
proof (intro conjI allI impI)
  show "command_of k db offset custom options m = Inr (Some (reemitted k offset m))"
    by (rule command_of_valid [OF assms(2,3)])
  show "rewrite (regex_of k) (command_of k db offset custom options) body updatedText updated =
         rewrite (regex_of k) (command_of k db offset custom options) (suffix_of m)
           (updatedText @ prefix_of m @ reemitted k offset m) True"
    by (rule rewrite_step_valid [OF assms(1,2,3)])
  show "value_of (operand k m i) = round_to_double (decimal_value (sub m (x_group k + i)))" for i
    by (simp add: operand_def value_of_parsed)
  from assms(5) have x: "in_int_range \<lfloor>value_of (operand k m 0) / 8192\<rfloor>"
      "in_int_range (\<lfloor>value_of (operand k m 0) / 8192\<rfloor> + sint (offsetX offset))"
    and y: "in_int_range \<lfloor>value_of (operand k m 1) / 8192\<rfloor>"
      "in_int_range (\<lfloor>value_of (operand k m 1) / 8192\<rfloor> + sint (offsetY offset))"
    by (simp_all add: shift_defined_def defined_for_def)
  show "\<bar>decimal_value (written k offset m ! 0) -
           (value_of (operand k m 0) + real_of_int (sint (offsetX offset)) * 8192)\<bar> \<le> 1 / 200"
    unfolding written_numbers by (rule written_translated [OF x])
  show "\<bar>decimal_value (written k offset m ! 1) -
           (value_of (operand k m 1) + real_of_int (sint (offsetY offset)) * 8192)\<bar> \<le> 1 / 200"
    unfolding written_numbers by (rule written_translated [OF y])
  show "\<bar>decimal_value (written k offset m ! 2) - value_of (operand k m 2)\<bar> \<le> 1 / 2000"
    unfolding written_numbers operand_def
    using fixed_near [OF magnitude_parsed, of 3] by simp
  show "\<bar>decimal_value (written k offset m ! 3) - value_of (operand k m 3)\<bar> \<le> 1 / 2"
    if "has_rotation k"
    unfolding written_numbers(4) [OF that] operand_def
    using fixed_near [OF magnitude_parsed, of 0] by simp
qed

lemma search_specExample_groups:
  "\<exists>m. regex_search aiEscortRegex specExample = Some m \<and> prefix_of m = [] \<and>
       str m = specExample \<and> suffix_of m = [] \<and>
       sub m 1 = ''AiEscort'' \<and> sub m 2 = [CHR 0x22] @ ''actor1'' @ [CHR 0x22] \<and>
       sub m 3 = ''5'' \<and>
       sub m 4 = ''1000.0'' \<and> sub m 5 = ''2000.0'' \<and> sub m 6 = ''0.0'' \<and>
       sub m 7 = []"
  by (simp add: specExample_def regex_defs)

lemma origin_valid: "fst (isCoordinateValid sampleDb 0 0 {} forwardOptions)"
  by (simp add: isCoordinateValid_def sampleDb_def forwardOptions_def step_is_row_def Let_def)

lemma single_command:
  assumes "prefix_of m = []" "suffix_of m = []"
    and "rewrite (regex_of k) command body [] False =
         rewrite (regex_of k) command (suffix_of m) ([] @ prefix_of m @ out) True"
  shows "rewrite (regex_of k) command body [] False = Some (Inr (out, True))"
  using assms by (simp add: rewrite_empty)

theorem rewrite_valid_command_witness:
  "rewriteText AiEscort sampleDb (getGridOffset 1) {} forwardOptions specExample
     = Some (Inr (specOutput, True)) \<and>
   rewriteText AiTravel borderDb (getGridOffset 1) {} forwardOptions borderText
     = Some (Inr (''AiTravel, 65536.000, 49152.000, 0.000'', True)) \<and>
   rewriteText Position sampleDb (getGridOffset 1) {} forwardOptions signText
     = Some (Inr (''Position, 57344.000, 49152.000, -0.000, -0'', True)) \<and>
   rewriteText Position sampleDb (getGridOffset 1) {} forwardOptions tieText
     = Some (Inr (''Position, 57344.000, 49152.000, 0.001, 2'', True))"
proof (intro conjI)
  obtain m where s: "regex_search (regex_of AiEscort) specExample = Some m"
    and m: "prefix_of m = []" "suffix_of m = []" "sub m (Suc 0) = ''AiEscort''"
      "sub m 2 = [CHR 0x22] @ ''actor1'' @ [CHR 0x22]" "sub m 3 = ''5''"
      "sub m 4 = ''1000.0''" "sub m 5 = ''2000.0''" "sub m 6 = ''0.0''" "sub m 7 = []"
    using search_specExample_groups by auto
  have r: "operands_in_range AiEscort m"
    by (simp add: operands_in_range_def numeric_groups_def m range_values)
  have c: "cell_valid AiEscort sampleDb {} forwardOptions m"
    by (simp add: cell_valid_def derived_cell_def operand_def m parsed_values value_of_def gridOf_def
          origin_valid)
  have d: "cell_defined AiEscort forwardOptions m" "shift_defined AiEscort (getGridOffset 1) m"
    by (simp_all add: cell_defined_def shift_defined_def operand_def m parsed_values value_of_def
          forwardOptions_def origin_defined)
  have e: "reemitted AiEscort (getGridOffset 1) m = specOutput"
    by (simp add: reemitted_def written_def operand_def m parsed_values value_of_def offsets_forward
          fixed_x fixed_y fixed_zero specOutput_def)
  from rewrite_valid_command [OF s r c d, of "[]" False]
  show "rewriteText AiEscort sampleDb (getGridOffset 1) {} forwardOptions specExample
     = Some (Inr (specOutput, True))"
    unfolding rewriteText_def e by (intro single_command [OF m(1,2)]) simp
next
  obtain m where s: "regex_search (regex_of AiTravel) borderText = Some m"
    and p: "prefix_of m = []" "suffix_of m = []"
    and r: "operands_in_range AiTravel m"
    and d: "cell_defined AiTravel forwardOptions m" "shift_defined AiTravel (getGridOffset 1) m"
    and c: "derived_cell AiTravel m = (1, 0)"
    and e: "reemitted AiTravel (getGridOffset 1) m = ''AiTravel, 65536.000, 49152.000, 0.000''"
    using borderText_facts by blast
  have v: "cell_valid AiTravel borderDb {} forwardOptions m"
    by (simp add: cell_valid_def c sample_cells)
  from rewrite_valid_command [OF s r v d, of "[]" False]
  show "rewriteText AiTravel borderDb (getGridOffset 1) {} forwardOptions borderText
     = Some (Inr (''AiTravel, 65536.000, 49152.000, 0.000'', True))"
    unfolding rewriteText_def e by (intro single_command [OF p]) simp
next
  obtain m where s: "regex_search (regex_of Position) signText = Some m"
    and p: "prefix_of m = []" "suffix_of m = []"
    and r: "operands_in_range Position m"
    and d: "cell_defined Position forwardOptions m" "shift_defined Position (getGridOffset 1) m"
    and c: "derived_cell Position m = (0, 0)"
    and e: "reemitted Position (getGridOffset 1) m = ''Position, 57344.000, 49152.000, -0.000, -0''"
    using signText_facts by blast
  have v: "cell_valid Position sampleDb {} forwardOptions m"
    by (simp add: cell_valid_def c sample_cells)
  from rewrite_valid_command [OF s r v d, of "[]" False]
  show "rewriteText Position sampleDb (getGridOffset 1) {} forwardOptions signText
     = Some (Inr (''Position, 57344.000, 49152.000, -0.000, -0'', True))"
    unfolding rewriteText_def e by (intro single_command [OF p]) simp
next
  obtain m where s: "regex_search (regex_of Position) tieText = Some m"
    and p: "prefix_of m = []" "suffix_of m = []"
    and r: "operands_in_range Position m"
    and d: "cell_defined Position forwardOptions m" "shift_defined Position (getGridOffset 1) m"
    and c: "derived_cell Position m = (0, 0)"
    and e: "reemitted Position (getGridOffset 1) m = ''Position, 57344.000, 49152.000, 0.001, 2''"
    using tieText_facts by blast
  have v: "cell_valid Position sampleDb {} forwardOptions m"
    by (simp add: cell_valid_def c sample_cells)
  from rewrite_valid_command [OF s r v d, of "[]" False]
  show "rewriteText Position sampleDb (getGridOffset 1) {} forwardOptions tieText
     = Some (Inr (''Position, 57344.000, 49152.000, 0.001, 2'', True))"
    unfolding rewriteText_def e by (intro single_command [OF p]) simp
qed

text \<open>
  C4 as stated fails: the z operand \<open>1.23456\<close> of a command with a valid cell is written
  back as \<open>1.235\<close>.
\<close>

theorem rewrite_valid_command_counterexample:
  "rewriteText AiEscort sampleDb (getGridOffset 1) {} forwardOptions longZText
     = Some (Inr (longZRewritten, True)) \<and>
   operand_text AiEscort 6 longZText = Some ''1.23456'' \<and>
   operand_text AiEscort 6 longZRewritten = Some ''1.235'' \<and>
   decimal_value ''1.235'' \<noteq> decimal_value ''1.23456''"
proof -
  obtain m where s: "regex_search (regex_of AiEscort) longZText = Some m"
    and m: "prefix_of m = []" "suffix_of m = []" "sub m (Suc 0) = ''AiEscort''"
      "sub m 2 = [CHR 0x22] @ ''actor1'' @ [CHR 0x22]" "sub m 3 = ''5''"
      "sub m 4 = ''1000.0''" "sub m 5 = ''2000.0''" "sub m 6 = ''1.23456''" "sub m 7 = []"
    using search_longZText by auto
  have r: "operands_in_range AiEscort m"
    by (simp add: operands_in_range_def numeric_groups_def m range_values)
  have c: "cell_valid AiEscort sampleDb {} forwardOptions m"
    by (simp add: cell_valid_def derived_cell_def operand_def m parsed_values value_of_def gridOf_def
          origin_valid)
  have e: "reemitted AiEscort (getGridOffset 1) m = longZRewritten"
    by (simp add: reemitted_def written_def operand_def m parsed_values value_of_def offsets_forward
          fixed_x fixed_y fixed_long_z longZRewritten_def)
  have 1: "rewriteText AiEscort sampleDb (getGridOffset 1) {} forwardOptions longZText
     = Some (Inr (longZRewritten, True))"
    using rewrite_step_valid [OF s r c, of "getGridOffset 1" "[]" False]
    by (simp add: rewriteText_def m e rewrite_empty [of AiEscort, simplified])
  have 2: "operand_text AiEscort 6 longZText = Some ''1.23456''"
    using s by (simp add: operand_text_def m)
  have 3: "operand_text AiEscort 6 longZRewritten = Some ''1.235''"
    by (simp add: operand_text_def longZRewritten_def regex_defs)
  have 4: "decimal_value ''1.235'' \<noteq> decimal_value ''1.23456''"
    by (simp add: number_defs)
  show ?thesis using 1 2 3 4 by simp
qed


section \<open>Properties of the main loop\<close>

lemma bindR_total:
  assumes "\<exists>r. m = Some r" "\<And>x. \<exists>r. f x = Some r"
  shows "\<exists>r. bindR m f = Some r"
proof -
  from assms(1) obtain r where m: "m = Some r" by blast
  show ?thesis using assms(2) by (cases r) (simp_all add: m)
qed

lemma forEachR_total:
  assumes "\<And>x s. \<exists>r. f x s = Some r"
  shows "\<exists>r. forEachR f xs s = Some r"
proof (induction xs arbitrary: s)
  case Nil
  show ?case by simp
next
  case (Cons x xs)
  show ?case
    unfolding forEachR.simps
    by (intro bindR_total assms) (auto intro!: bindR_total Cons.IH)
qed

lemma forItemsR_total:
  assumes "\<And>x s. \<exists>r. f x s = Some r"
  shows "\<exists>r. forItemsR f j s = Some r"
  unfolding forItemsR_def
  by (cases j) (auto intro!: bindR_total forEachR_total assms)

lemma scriptRecord_total:
  "0 < min_len r \<Longrightarrow> \<exists>res. scriptRecord r command script st = Some res"
  unfolding scriptRecord_def
  by (auto intro!: bindR_total rewrite_returns)

lemma dialogueRecord_total:
  "0 < min_len r \<Longrightarrow> \<exists>res. dialogueRecord r command d flag = Some res"
  unfolding dialogueRecord_def
  by (auto intro!: bindR_total rewrite_returns)

lemma processScript_total:
  "\<exists>res. processScript k db inputData offset flag ids custom options = Some res"
  unfolding processScript_def
  by (intro forItemsR_total scriptRecord_total min_len_regex_of)

lemma processDialogue_total:
  "\<exists>res. processDialogue k db inputData offset flag custom options = Some res"
  unfolding processDialogue_def
  by (intro forItemsR_total dialogueRecord_total min_len_regex_of)

lemmas pass_defs =
  processScriptAiEscortTranslation_def processDialogueAiEscortTranslation_def
  processScriptAiEscortCellTranslation_def processDialogueAiEscortCellTranslation_def
  processScriptAiFollowTranslation_def processDialogueAiFollowTranslation_def
  processScriptAiFollowCellTranslation_def processDialogueAiFollowCellTranslation_def
  processScriptAiTravelTranslation_def processDialogueAiTravelTranslation_def
  processScriptPositionTranslation_def processDialoguePositionTranslation_def
  processScriptPositionCellTranslation_def processDialoguePositionCellTranslation_def
  processScriptPlaceItemTranslation_def processDialoguePlaceItemTranslation_def
  processScriptPlaceItemCellTranslation_def processDialoguePlaceItemCellTranslation_def

lemma runPasses_total: "\<exists>res. runPasses db inputData custom options = Some res"
  unfolding runPasses_def Let_def pass_defs
  by (auto intro!: bindR_total processScript_total processDialogue_total)

lemma processFile_total: "\<exists>v. processFile db custom options env = Some v"
proof -
  have n: "(runPasses db d custom options = None) = False" for d
    using runPasses_total [of db d custom options] by auto
  show ?thesis
    unfolding processFile_def
    by (auto simp: n split: option.splits sum.splits prod.splits)
qed

lemma processFiles_total: "\<exists>vs. processFiles db custom options envs = Some vs"
proof (induction envs)
  case Nil
  show ?case by simp
next
  case (Cons env envs)
  then obtain vs where vs: "processFiles db custom options envs = Some vs" by blast
  obtain v where v: "processFile db custom options env = Some v"
    using processFile_total by blast
  show ?case by (simp add: v vs)
qed


lemma processFiles_step:
  assumes "processFile db custom options env = Some v"
  shows "\<exists>vs. processFiles db custom options envs = Some vs \<and>
              processFiles db custom options (env # envs) = Some (v # vs)"
proof -
  obtain vs where vs: "processFiles db custom options envs = Some vs"
    using processFiles_total by blast
  then show ?thesis by (simp add: assms)
qed

lemma processFile_masters_rejected:
  assumes "toJsonOk env" "jsonOpens env" "parsedJson env = Some doc" "\<not> hasConversionTag env doc"
    "checkDependencyOrder doc = Inr (False, vm)"
  shows "processFile db custom options env = Some (MastersNotFound, [ConvertedToJson, RemovedImportJson])"
  using assms by (simp add: processFile_def)

text \<open>
  C7.  \<open>checkDependencyOrder\<close> fails without a Header record and without a masters list;
  on a masters list whose entries have the decoder's shape it succeeds exactly when
  Morrowind.esm is named and either Tribunal.esm and Bloodmoon.esm are both named, with
  Morrowind.esm before Tribunal.esm before Bloodmoon.esm, or Bloodmoon.esm is named
  without Tribunal.esm and after Morrowind.esm.  A failure ends the iteration of \<open>main\<close>
  for that file with the verdict \<open>MastersNotFound\<close>, and the loop goes on with the files
  that follow.
\<close>

theorem checkDependencyOrder_exact:
  "(find is_header (iterate doc) = None \<longrightarrow> checkDependencyOrder doc = Inr (False, {})) \<and>
   (\<forall>header. find is_header (iterate doc) = Some header \<and> \<not> contains header ''masters'' \<longrightarrow>
      checkDependencyOrder doc = Inr (False, {})) \<and>
   (\<forall>header ms. find is_header (iterate doc) = Some header \<and> contains header ''masters'' \<and>
      field_of header ''masters'' = JArray ms \<and> list_all well_formed_master ms \<longrightarrow>
      checkDependencyOrder doc = Inr (dependency_order_ok ms, {})) \<and>
   (\<forall>env vm envs. toJsonOk env \<and> jsonOpens env \<and> parsedJson env = Some doc \<and>
      \<not> hasConversionTag env doc \<and> checkDependencyOrder doc = Inr (False, vm) \<longrightarrow>
      processFile db custom options env = Some (MastersNotFound, [ConvertedToJson, RemovedImportJson]) \<and>
      (\<exists>vs. processFiles db custom options envs = Some vs \<and>
            processFiles db custom options (env # envs) =
              Some ((MastersNotFound, [ConvertedToJson, RemovedImportJson]) # vs)))"
proof (intro conjI allI impI)
  assume "find is_header (iterate doc) = None"
  then show "checkDependencyOrder doc = Inr (False, {})" by (rule checkDependencyOrder_missing)
next
  fix header
  assume "find is_header (iterate doc) = Some header \<and> \<not> contains header ''masters''"
  then show "checkDependencyOrder doc = Inr (False, {})"
    using checkDependencyOrder_missing(2) by blast
next
  fix header ms
  assume "find is_header (iterate doc) = Some header \<and> contains header ''masters'' \<and>
      field_of header ''masters'' = JArray ms \<and> list_all well_formed_master ms"
  then show "checkDependencyOrder doc = Inr (dependency_order_ok ms, {})"
    using checkDependencyOrder_header [of doc header ms] by (simp add: list_all_iff)
next
  fix env :: file_env and vm :: "cint set" and envs :: "file_env list"
  assume a: "toJsonOk env \<and> jsonOpens env \<and> parsedJson env = Some doc \<and>
      \<not> hasConversionTag env doc \<and> checkDependencyOrder doc = Inr (False, vm)"
  then show "processFile db custom options env = Some (MastersNotFound, [ConvertedToJson, RemovedImportJson])"
    using processFile_masters_rejected by blast
  then show "\<exists>vs. processFiles db custom options envs = Some vs \<and>
            processFiles db custom options (env # envs) =
              Some ((MastersNotFound, [ConvertedToJson, RemovedImportJson]) # vs)"
    by (rule processFiles_step)
qed

lemma header_facts:
  "find is_header (iterate (JArray [headerMTB])) = Some headerMTB"
  "contains headerMTB ''masters''" "field_of headerMTB ''masters'' = JArray mastersMTB"
  "find is_header (iterate (JArray [headerMT])) = Some headerMT"
  "contains headerMT ''masters''" "field_of headerMT ''masters'' = JArray mastersMT"
  by (simp_all add: iterate_def is_header_def headerMTB_def headerMT_def contains_def field_of_def)

lemma masters_facts:
  "list_all well_formed_master mastersMTB" "list_all well_formed_master mastersMT"
  "dependency_order_ok mastersMTB" "\<not> dependency_order_ok mastersMT"
  by (simp_all add: mastersMTB_def mastersMT_def well_formed_master_def is_array_def elements_def
        dependency_order_ok_def position_of_def names_master_def upt_rec)

lemma fileOf_simps:
  "toJsonOk (fileOf p d)" "jsonOpens (fileOf p d)" "parsedJson (fileOf p d) = Some d"
  "\<not> hasConversionTag (fileOf p d) d" "path (fileOf p d) = p"
  by (simp_all add: fileOf_def)

theorem checkDependencyOrder_exact_witness:
  "find is_header (iterate (JArray [headerMTB])) = Some headerMTB \<and>
   contains headerMTB ''masters'' \<and> field_of headerMTB ''masters'' = JArray mastersMTB \<and>
   list_all well_formed_master mastersMTB \<and> dependency_order_ok mastersMTB \<and>
   checkDependencyOrder (JArray [headerMTB]) = Inr (True, {}) \<and>
   \<not> dependency_order_ok mastersMT \<and>
   checkDependencyOrder (JArray [headerMT]) = Inr (False, {}) \<and>
   processFile sampleDb {} forwardOptions (fileOf ''tribunal.esp'' (JArray [headerMT]))
     = Some (MastersNotFound, [ConvertedToJson, RemovedImportJson])"
proof -
  have 1: "checkDependencyOrder (JArray [headerMTB]) = Inr (True, {})"
    using checkDependencyOrder_exact [of "JArray [headerMTB]" sampleDb "{}" forwardOptions]
    by (simp add: header_facts masters_facts)
  have 2: "checkDependencyOrder (JArray [headerMT]) = Inr (False, {})"
    using checkDependencyOrder_exact [of "JArray [headerMT]" sampleDb "{}" forwardOptions]
    by (simp add: header_facts masters_facts)
  have 3: "processFile sampleDb {} forwardOptions (fileOf ''tribunal.esp'' (JArray [headerMT]))
     = Some (MastersNotFound, [ConvertedToJson, RemovedImportJson])"
    using checkDependencyOrder_exact [of "JArray [headerMT]" sampleDb "{}" forwardOptions] 2
      fileOf_simps [of "''tribunal.esp''" "JArray [headerMT]"]
    by blast
  show ?thesis by (simp add: 1 2 3 header_facts masters_facts)
qed


lemma rewrite_no_keyword:
  assumes "\<not> mentions (keyword_of k) body"
  shows "rewrite (regex_of k) command body [] False = Some (Inr (body, False))"
proof -
  from assms have "regex_search (regex_of k) body = None" by (rule no_keyword_no_match)
  then show ?thesis by (subst rewrite.simps) simp
qed

lemma plain_text_no_keyword: "\<not> mentions (keyword_of k) ''set x to 5''"
  by (cases k) (simp_all add: starts_with_def tolower_def)

lemma processScript_quietDoc:
  "processScript k db quietDoc offset 0 [] custom options = Some (Inr (quietDoc, 0, []))"
  by (simp add: processScript_def forItemsR_def quietDoc_def scriptRecord_def headerMTB_def
        plainScript_def contains_def field_of_def get_string_def set_field_def
        rewrite_no_keyword [OF plain_text_no_keyword])

lemma processDialogue_quietDoc:
  "processDialogue k db quietDoc offset 0 custom options = Some (Inr (quietDoc, 0))"
  by (simp add: processDialogue_def forItemsR_def quietDoc_def dialogueRecord_def headerMTB_def
        plainScript_def contains_def field_of_def)

lemma structured_quietDoc:
  "processGridValues db quietDoc offset 0 custom options = Inr (quietDoc, 0)"
  "processInteriorDoorsTranslation db quietDoc offset 0 custom options = Inr (quietDoc, 0)"
  "processNpcTravelDestinations db quietDoc offset 0 custom options = Inr (quietDoc, 0)"
  by (simp_all add: processGridValues_def processInteriorDoorsTranslation_def
        processNpcTravelDestinations_def forItems_def quietDoc_def gridRecord_def doorCell_def
        npcRecord_def headerMTB_def plainScript_def contains_def field_of_def get_string_def)

lemma runPasses_quietDoc:
  "runPasses db quietDoc custom options = Some (Inr (quietDoc, 0, []))"
  by (simp add: runPasses_def pass_defs structured_quietDoc processScript_quietDoc
        processDialogue_quietDoc)

lemma processFile_no_replacements:
  assumes "toJsonOk env" "jsonOpens env" "parsedJson env = Some inputData"
    "\<not> hasConversionTag env inputData"
    "checkDependencyOrder inputData = Inr (True, validMasters)"
    "runPasses db inputData custom options = Some (Inr (outputData, 0, ids))"
  shows "processFile db custom options env = Some (NoReplacements, [ConvertedToJson, RemovedImportJson])"
  using assms by (simp add: processFile_def)

text \<open>
  C8.  When the passes of a file end with the replacements flag still 0, the iteration
  of \<open>main\<close> ends with the verdict \<open>NoReplacements\<close>: the imported JSON file is removed,
  nothing is saved, backed up or converted back, the line logged is not an error line,
  and the loop goes on with the files that follow.
\<close>

theorem no_replacements_skips_write_back:
  assumes "toJsonOk env" "jsonOpens env" "parsedJson env = Some inputData"
    "\<not> hasConversionTag env inputData"
    "checkDependencyOrder inputData = Inr (True, validMasters)"
    "runPasses db inputData custom options = Some (Inr (outputData, 0, ids))"
  shows "processFile db custom options env = Some (NoReplacements, [ConvertedToJson, RemovedImportJson]) \<and>
         \<not> list_ex emits_output [ConvertedToJson, RemovedImportJson] \<and>
         take 5 (log_line NoReplacements (path env)) \<noteq> ''ERROR'' \<and>
         (\<exists>vs. processFiles db custom options envs = Some vs \<and>
               processFiles db custom options (env # envs) =
                 Some ((NoReplacements, [ConvertedToJson, RemovedImportJson]) # vs))"
proof -
  have p: "processFile db custom options env = Some (NoReplacements, [ConvertedToJson, RemovedImportJson])"
    using assms by (rule processFile_no_replacements)
  from processFiles_step [OF p]
  show ?thesis by (simp add: p emits_output_def)
qed

lemma checkDependencyOrder_quietDoc: "checkDependencyOrder quietDoc = Inr (True, {})"
proof -
  have f: "find is_header (iterate quietDoc) = Some headerMTB"
    by (simp add: quietDoc_def iterate_def is_header_def headerMTB_def contains_def field_of_def)
  show ?thesis
    using checkDependencyOrder_header [OF f header_facts(2,3)] masters_facts
    by (simp add: list_all_iff)
qed

theorem no_replacements_skips_write_back_witness:
  "runPasses sampleDb quietDoc {} forwardOptions = Some (Inr (quietDoc, 0, [])) \<and>
   checkDependencyOrder quietDoc = Inr (True, {}) \<and>
   processFile sampleDb {} forwardOptions (fileOf ''quiet.esp'' quietDoc)
     = Some (NoReplacements, [ConvertedToJson, RemovedImportJson]) \<and>
   processFiles sampleDb {} forwardOptions
     [fileOf ''quiet.esp'' quietDoc, fileOf ''tribunal.esp'' (JArray [headerMT])]
     = Some [(NoReplacements, [ConvertedToJson, RemovedImportJson]),
             (MastersNotFound, [ConvertedToJson, RemovedImportJson])]"
proof -
  have c: "checkDependencyOrder (JArray [headerMT]) = Inr (False, {})"
    using checkDependencyOrder_header [OF header_facts(4,5,6)] masters_facts
    by (simp add: list_all_iff)
  have t: "processFile sampleDb {} forwardOptions (fileOf ''tribunal.esp'' (JArray [headerMT]))
     = Some (MastersNotFound, [ConvertedToJson, RemovedImportJson])"
    by (rule processFile_masters_rejected [OF fileOf_simps(1,2,3,4) c])
  note q = fileOf_simps [of "''quiet.esp''" quietDoc]
  from no_replacements_skips_write_back
         [OF q(1,2,3,4) checkDependencyOrder_quietDoc runPasses_quietDoc,
          where envs = "[fileOf ''tribunal.esp'' (JArray [headerMT])]"]
  show ?thesis
    by (auto simp: runPasses_quietDoc checkDependencyOrder_quietDoc t)
qed

end
